(* ===== verification/Prelude.thy ===== *)
theory Prelude
  imports Main "HOL-Library.Word" "HOL-Library.Signed_Division"
begin

text \<open>
  What every component shares: the widths of the machine integers, the result of a C function
  that may end the process or run into undefined behaviour, little-endian byte lists, and the
  collections of rewrite rules (\<open>result_simps\<close>, \<open>mem_simps\<close>, \<open>decode_simps\<close>, \<open>hart_simps\<close>,
  \<open>thread_simps\<close>) that the component proofs hand to the simplifier.
\<close>

unbundle bit_operations_syntax

named_theorems result_simps
named_theorems mem_simps
named_theorems decode_simps
named_theorems hart_simps
named_theorems thread_simps

type_synonym u8 = "8 word"
type_synonym u16 = "16 word"
type_synonym u32 = "32 word"
type_synonym u64 = "64 word"

section \<open>Results: how a C function can end\<close>

text \<open>
  \<open>Exit n\<close> is a call of \<open>exit(n)\<close>, \<open>Crash s\<close> the macro \<open>SV32_CRASH(s)\<close> of macros.h,
  \<open>Assert_Failed s\<close> a failed \<open>assert\<close> (the Makefiles never define \<open>NDEBUG\<close>), \<open>Undefined s\<close>
  behaviour that C leaves undefined, \<open>Out_Of_Fuel\<close> a loop that used up its schedule.
\<close>

datatype stop =
    Exit int
  | Crash string
  | Assert_Failed string
  | Undefined string
  | Out_Of_Fuel

type_synonym 'a result = "stop + 'a"

fun and_then :: "'a result \<Rightarrow> ('a \<Rightarrow> 'b result) \<Rightarrow> 'b result" where
  "and_then (Inl e) f = Inl e"
| "and_then (Inr x) f = f x"

lemma and_then_eq_Inr [result_simps]:
  "and_then r f = Inr y \<longleftrightarrow> (\<exists>x. r = Inr x \<and> f x = Inr y)"
  by (cases r) auto

lemma and_then_eq_Inl [result_simps]:
  "and_then r f = Inl e \<longleftrightarrow> r = Inl e \<or> (\<exists>x. r = Inr x \<and> f x = Inl e)"
  by (cases r) auto

lemma and_then_assoc [simp]: "and_then (and_then r f) g = and_then r (\<lambda>x. and_then (f x) g)"
  by (cases r) auto

lemma and_then_Inr_right [simp]: "and_then r Inr = r"
  by (cases r) auto

lemma and_then_cong [fundef_cong]:
  "r = r' \<Longrightarrow> (\<And>x. r' = Inr x \<Longrightarrow> f x = g x) \<Longrightarrow> and_then r f = and_then r' g"
  by (cases r') auto

definition ok_and :: "('a \<Rightarrow> bool) \<Rightarrow> 'a result \<Rightarrow> bool" where
  "ok_and P r = (case r of Inl e \<Rightarrow> True | Inr x \<Rightarrow> P x)"

lemma ok_and_simps [simp]: "ok_and P (Inl e)" "ok_and P (Inr x) = P x"
  by (simp_all add: ok_and_def)

lemma ok_and_and_then:
  "ok_and P r \<Longrightarrow> (\<And>x. P x \<Longrightarrow> ok_and Q (f x)) \<Longrightarrow> ok_and Q (and_then r f)"
  by (cases r) auto

lemma ok_andD: "ok_and P r \<Longrightarrow> r = Inr x \<Longrightarrow> P x"
  by simp

section \<open>Little-endian byte lists\<close>

definition bytes_of_word :: "'a::len word \<Rightarrow> u8 list" where
  "bytes_of_word w = map (\<lambda>k. ucast (drop_bit (8 * k) w)) [0..<LENGTH('a) div 8]"

fun word_of_bytes :: "u8 list \<Rightarrow> 'a::len word" where
  "word_of_bytes [] = 0"
| "word_of_bytes (b # bs) = ucast b OR push_bit 8 (word_of_bytes bs)"

lemma length_bytes_of_word [simp]: "length (bytes_of_word (w :: 'a::len word)) = LENGTH('a) div 8"
  by (simp add: bytes_of_word_def)

lemma nth_bytes_of_word:
  "k < LENGTH('a) div 8 \<Longrightarrow> bytes_of_word (w :: 'a::len word) ! k = ucast (drop_bit (8 * k) w)"
  by (simp add: bytes_of_word_def)

lemma bit_word_of_bytes:
  "bit (word_of_bytes bs :: 'a::len word) n \<longleftrightarrow>
     n < LENGTH('a) \<and> n div 8 < length bs \<and> bit (bs ! (n div 8)) (n mod 8)"
proof (induction bs arbitrary: n)
  case Nil
  then show ?case by simp
next
  case (Cons b bs)
  show ?case
  proof (cases "n < 8")
    case True
    then show ?thesis by (auto simp: bit_simps)
  next
    case False
    then obtain k where n: "n = k + 8" by (metis add.commute le_Suc_ex not_less)
    have "\<not> bit b (k + 8)" by (auto dest: bit_imp_le_length)
    moreover have "(k + 8) div 8 = Suc (k div 8)" by simp
    ultimately show ?thesis by (auto simp: bit_simps n Cons.IH dest: bit_imp_le_length)
  qed
qed

lemma word_of_bytes_of_word:
  assumes "LENGTH('a) mod 8 = 0"
  shows "word_of_bytes (bytes_of_word w) = (w :: 'a::len word)"
proof (rule bit_word_eqI)
  fix n assume n: "n < LENGTH('a)"
  with assms have "n div 8 < LENGTH('a) div 8"
    by (metis mod_0_imp_dvd dvd_div_mult_self less_mult_imp_div_less)
  then show "bit (word_of_bytes (bytes_of_word w) :: 'a word) n = bit w n"
    using n by (simp add: bit_word_of_bytes nth_bytes_of_word bit_simps)
qed

lemma word_of_bytes_inverse [simp]:
  "word_of_bytes (bytes_of_word (w :: 16 word)) = w"
  "word_of_bytes (bytes_of_word (v :: 32 word)) = v"
  "word_of_bytes (bytes_of_word (b :: 8 word)) = b"
  by (simp_all add: word_of_bytes_of_word)

end
