(* ===== verification/Memory.thy ===== *)
theory Memory
  imports Prelude
begin

text \<open>
  The guest's memory (src/src/memory.h, src/src/memory.c): the mapping \<open>vmem\<close> of
  \<open>ctx.memory_size\<close> bytes, the typed accessors, the read-modify-write operations and the
  block copies. An access goes to the host address \<open>vmem + addr\<close> with \<open>addr\<close> a 32-bit value
  widened to the host's pointer, so it never wraps; one that does not lie inside the mapping is
  undefined in C and is \<open>Inl out_of_vmem\<close> here. Multi-byte values are little-endian, as on the
  x86-64 host the Makefile builds for. The interface \<open>cell\<close> states what the accessors of one
  width promise, and is interpreted on the byte, half-word and word accessors.
\<close>

unbundle bit_operations_syntax

section \<open>The mapping\<close>

record memory =
  mem_bytes :: "nat \<Rightarrow> u8"
  mem_size :: nat

definition out_of_vmem :: stop where
  "out_of_vmem = Undefined ''access outside vmem''"

text \<open>\<open>mmap\<close> with \<open>MAP_ANONYMOUS\<close> gives zeroed pages; \<open>None\<close> is \<open>MAP_FAILED\<close>.\<close>

definition mem_init :: "nat option \<Rightarrow> memory result" where
  "mem_init mapped = (case mapped of
     None \<Rightarrow> Inl (Crash ''MMAP CRITIAL ERROR'')
   | Some n \<Rightarrow> Inr \<lparr>mem_bytes = (\<lambda>_. 0), mem_size = n\<rparr>)"

text \<open>\<open>mem_deinit\<close>, which nothing calls; \<open>ok\<close> says that \<open>munmap\<close> succeeds.\<close>

definition mem_deinit :: "bool \<Rightarrow> unit result" where
  "mem_deinit ok = (if \<not> ok then Inl (Crash ''MUNMAP CRITIAL ERROR'') else Inr ())"

definition in_mem :: "memory \<Rightarrow> u32 \<Rightarrow> nat \<Rightarrow> bool" where
  "in_mem m addr n \<longleftrightarrow> unat addr + n \<le> mem_size m"

text \<open>The macro \<open>VALID_ADDR\<close>: a strict comparison.\<close>

definition VALID_ADDR :: "memory \<Rightarrow> u32 \<Rightarrow> nat \<Rightarrow> bool" where
  "VALID_ADDR m addr io_sz \<longleftrightarrow> unat addr + io_sz < mem_size m"

section \<open>Blocks of bytes\<close>

definition load_bytes :: "memory \<Rightarrow> nat \<Rightarrow> nat \<Rightarrow> u8 list" where
  "load_bytes m p n = map (mem_bytes m) [p..<p + n]"

definition store_bytes :: "memory \<Rightarrow> nat \<Rightarrow> u8 list \<Rightarrow> memory" where
  "store_bytes m p bs =
     m\<lparr>mem_bytes := (\<lambda>i. if p \<le> i \<and> i < p + length bs then bs ! (i - p) else mem_bytes m i)\<rparr>"

definition mem_rb_ptr_s :: "memory \<Rightarrow> u32 \<Rightarrow> nat \<Rightarrow> u8 list result" where
  "mem_rb_ptr_s m addr output_sz =
     (if in_mem m addr output_sz then Inr (load_bytes m (unat addr) output_sz) else Inl out_of_vmem)"

definition mem_wb_ptr_s :: "memory \<Rightarrow> u32 \<Rightarrow> u8 list \<Rightarrow> memory result" where
  "mem_wb_ptr_s m addr input =
     (if in_mem m addr (length input) then Inr (store_bytes m (unat addr) input)
      else Inl out_of_vmem)"

definition mem_wb_s :: "memory \<Rightarrow> u32 \<Rightarrow> u8 \<Rightarrow> nat \<Rightarrow> memory result" where
  "mem_wb_s m addr input write_sz =
     (if in_mem m addr write_sz then Inr (store_bytes m (unat addr) (replicate write_sz input))
      else Inl out_of_vmem)"

section \<open>Typed accessors\<close>

definition mem_rb :: "memory \<Rightarrow> u32 \<Rightarrow> u8 result" where
  "mem_rb m addr = and_then (mem_rb_ptr_s m addr 1) (\<lambda>bs. Inr (word_of_bytes bs))"

definition mem_rh :: "memory \<Rightarrow> u32 \<Rightarrow> u16 result" where
  "mem_rh m addr = and_then (mem_rb_ptr_s m addr 2) (\<lambda>bs. Inr (word_of_bytes bs))"

definition mem_rw :: "memory \<Rightarrow> u32 \<Rightarrow> u32 result" where
  "mem_rw m addr = and_then (mem_rb_ptr_s m addr 4) (\<lambda>bs. Inr (word_of_bytes bs))"

definition mem_wb :: "memory \<Rightarrow> u32 \<Rightarrow> u8 \<Rightarrow> memory result" where
  "mem_wb m addr data = mem_wb_ptr_s m addr (bytes_of_word data)"

definition mem_wh :: "memory \<Rightarrow> u32 \<Rightarrow> u16 \<Rightarrow> memory result" where
  "mem_wh m addr data = mem_wb_ptr_s m addr (bytes_of_word data)"

definition mem_ww :: "memory \<Rightarrow> u32 \<Rightarrow> u32 \<Rightarrow> memory result" where
  "mem_ww m addr data = mem_wb_ptr_s m addr (bytes_of_word data)"

section \<open>Atomic read-modify-write\<close>

text \<open>
  \<open>memorder\<close> is the C11 memory order the caller passes. The model interleaves whole accesses
  (it is sequentially consistent), so the order restricts nothing in it.
\<close>

datatype memorder = RELAXED | ACQUIRE | RELEASE | ACQ_REL

definition fetch_op :: "(u32 \<Rightarrow> u32 \<Rightarrow> u32) \<Rightarrow> memory \<Rightarrow> u32 \<Rightarrow> u32 \<Rightarrow> (u32 \<times> memory) result" where
  "fetch_op f m addr val =
     and_then (mem_rw m addr) (\<lambda>old. and_then (mem_ww m addr (f old val)) (\<lambda>m'. Inr (old, m')))"

definition mem_aadd :: "memory \<Rightarrow> u32 \<Rightarrow> u32 \<Rightarrow> memorder \<Rightarrow> (u32 \<times> memory) result" where
  "mem_aadd m addr val memorder = fetch_op (\<lambda>old v. old + v) m addr val"

definition mem_aand :: "memory \<Rightarrow> u32 \<Rightarrow> u32 \<Rightarrow> memorder \<Rightarrow> (u32 \<times> memory) result" where
  "mem_aand m addr val memorder = fetch_op (\<lambda>old v. old AND v) m addr val"

definition mem_axor :: "memory \<Rightarrow> u32 \<Rightarrow> u32 \<Rightarrow> memorder \<Rightarrow> (u32 \<times> memory) result" where
  "mem_axor m addr val memorder = fetch_op (\<lambda>old v. old XOR v) m addr val"

definition mem_aor :: "memory \<Rightarrow> u32 \<Rightarrow> u32 \<Rightarrow> memorder \<Rightarrow> (u32 \<times> memory) result" where
  "mem_aor m addr val memorder = fetch_op (\<lambda>old v. old OR v) m addr val"

definition mem_anand :: "memory \<Rightarrow> u32 \<Rightarrow> u32 \<Rightarrow> memorder \<Rightarrow> (u32 \<times> memory) result" where
  "mem_anand m addr val memorder = fetch_op (\<lambda>old v. NOT (old AND v)) m addr val"

definition mem_aswp :: "memory \<Rightarrow> u32 \<Rightarrow> u32 \<Rightarrow> memorder \<Rightarrow> (u32 \<times> memory) result" where
  "mem_aswp m addr val memorder = fetch_op (\<lambda>old v. v) m addr val"

definition mem_aread :: "memory \<Rightarrow> u32 \<Rightarrow> memorder \<Rightarrow> u32 result" where
  "mem_aread m addr memorder = mem_rw m addr"

text \<open>
  \<open>mem_cas\<close> spins on a strong compare-and-exchange whose failure writes the current value back
  into \<open>expected\<close>. The first argument is what the other cores do to the memory before each
  attempt; \<open>Inr None\<close> is a run that is still spinning when that schedule ends. Run by a core
  alone (\<open>mem_cas\<close>), two attempts are always enough (lemma \<open>mem_cas_alone\<close>).
\<close>

fun mem_cas_under :: "(memory \<Rightarrow> memory) list \<Rightarrow> memory \<Rightarrow> u32 \<Rightarrow> u32 \<Rightarrow> u32 \<Rightarrow> memory option result" where
  "mem_cas_under [] m addr val expected = Inr None"
| "mem_cas_under (env # envs) m addr val expected =
     and_then (mem_rw (env m) addr) (\<lambda>cur.
       if cur = expected then and_then (mem_ww (env m) addr val) (\<lambda>m'. Inr (Some m'))
       else mem_cas_under envs (env m) addr val cur)"

definition mem_cas :: "memory \<Rightarrow> u32 \<Rightarrow> u32 \<Rightarrow> u32 \<Rightarrow> memorder \<Rightarrow> memory result" where
  "mem_cas m addr val expected memorder =
     and_then (mem_cas_under [id, id] m addr val expected)
       (\<lambda>r. case r of None \<Rightarrow> Inl Out_Of_Fuel | Some m' \<Rightarrow> Inr m')"

text \<open>
  The four comparing operations read first, return early when the memory already holds the
  result, and otherwise store \<open>val\<close> through \<open>mem_cas\<close>. \<open>keep old val\<close> is the early return's test.
\<close>

definition mem_pick_under ::
  "(u32 \<Rightarrow> u32 \<Rightarrow> bool) \<Rightarrow> (memory \<Rightarrow> memory) list \<Rightarrow> memory \<Rightarrow> u32 \<Rightarrow> u32 \<Rightarrow> (u32 \<times> memory) option result" where
  "mem_pick_under keep envs m addr val =
     and_then (mem_aread m addr RELAXED) (\<lambda>old_val.
       if keep old_val val then Inr (Some (old_val, m))
       else and_then (mem_cas_under envs m addr val old_val)
              (\<lambda>r. Inr (map_option (\<lambda>m'. (old_val, m')) r)))"

definition mem_pick :: "(u32 \<Rightarrow> u32 \<Rightarrow> bool) \<Rightarrow> memory \<Rightarrow> u32 \<Rightarrow> u32 \<Rightarrow> (u32 \<times> memory) result" where
  "mem_pick keep m addr val =
     and_then (mem_pick_under keep [id, id] m addr val)
       (\<lambda>r. case r of None \<Rightarrow> Inl Out_Of_Fuel | Some p \<Rightarrow> Inr p)"

definition mem_amaxu :: "memory \<Rightarrow> u32 \<Rightarrow> u32 \<Rightarrow> memorder \<Rightarrow> (u32 \<times> memory) result" where
  "mem_amaxu m addr val memorder = mem_pick (\<lambda>old v. old > v) m addr val"

definition mem_aminu :: "memory \<Rightarrow> u32 \<Rightarrow> u32 \<Rightarrow> memorder \<Rightarrow> (u32 \<times> memory) result" where
  "mem_aminu m addr val memorder = mem_pick (\<lambda>old v. old < v) m addr val"

definition mem_amax :: "memory \<Rightarrow> u32 \<Rightarrow> u32 \<Rightarrow> memorder \<Rightarrow> (u32 \<times> memory) result" where
  "mem_amax m addr val memorder = mem_pick (\<lambda>old v. sint old > sint v) m addr val"

definition mem_amin :: "memory \<Rightarrow> u32 \<Rightarrow> u32 \<Rightarrow> memorder \<Rightarrow> (u32 \<times> memory) result" where
  "mem_amin m addr val memorder = mem_pick (\<lambda>old v. sint old < sint v) m addr val"

section \<open>Blocks: bounds, frame, read after write\<close>

lemma store_bytes_size [mem_simps]: "mem_size (store_bytes m p bs) = mem_size m"
  by (simp add: store_bytes_def)

lemma store_bytes_outside:
  "i < p \<or> p + length bs \<le> i \<Longrightarrow> mem_bytes (store_bytes m p bs) i = mem_bytes m i"
  by (auto simp: store_bytes_def)

lemma store_bytes_inside:
  "p \<le> i \<Longrightarrow> i < p + length bs \<Longrightarrow> mem_bytes (store_bytes m p bs) i = bs ! (i - p)"
  by (auto simp: store_bytes_def)

lemma length_load_bytes [mem_simps]: "length (load_bytes m p n) = n"
  by (simp add: load_bytes_def)

lemma nth_load_bytes [mem_simps]: "k < n \<Longrightarrow> load_bytes m p n ! k = mem_bytes m (p + k)"
  by (simp add: load_bytes_def)

lemma load_store_same [mem_simps]: "load_bytes (store_bytes m p bs) p (length bs) = bs"
  by (rule nth_equalityI) (auto simp: load_bytes_def store_bytes_def)

lemma load_store_disjoint:
  "p + length bs \<le> q \<or> q + n \<le> p \<Longrightarrow> load_bytes (store_bytes m p bs) q n = load_bytes m q n"
  by (rule nth_equalityI) (auto simp: load_bytes_def store_bytes_def)

lemma load_bytes_cong:
  "(\<And>i. p \<le> i \<Longrightarrow> i < p + n \<Longrightarrow> mem_bytes m i = mem_bytes m' i) \<Longrightarrow> load_bytes m p n = load_bytes m' p n"
  by (simp add: load_bytes_def)

lemma mem_wb_ptr_s_eq_Inr [mem_simps]:
  "mem_wb_ptr_s m addr bs = Inr m' \<longleftrightarrow> in_mem m addr (length bs) \<and> m' = store_bytes m (unat addr) bs"
  by (auto simp: mem_wb_ptr_s_def)

lemma mem_rb_ptr_s_eq_Inr [mem_simps]:
  "mem_rb_ptr_s m addr n = Inr bs \<longleftrightarrow> in_mem m addr n \<and> bs = load_bytes m (unat addr) n"
  by (auto simp: mem_rb_ptr_s_def)

lemma in_mem_store_bytes [mem_simps]: "in_mem (store_bytes m p bs) addr n = in_mem m addr n"
  by (simp add: in_mem_def store_bytes_size)

section \<open>The interface of the accessors of one width\<close>

definition disjoint :: "u32 \<Rightarrow> nat \<Rightarrow> u32 \<Rightarrow> nat \<Rightarrow> bool" where
  "disjoint a n b k \<longleftrightarrow> unat a + n \<le> unat b \<or> unat b + k \<le> unat a"

locale cell =
  fixes rd :: "memory \<Rightarrow> u32 \<Rightarrow> 'v result"
    and wr :: "memory \<Rightarrow> u32 \<Rightarrow> 'v \<Rightarrow> memory result"
    and width :: nat
  assumes rd_in: "in_mem m a width \<Longrightarrow> \<exists>v. rd m a = Inr v"
    and rd_out: "\<not> in_mem m a width \<Longrightarrow> rd m a = Inl out_of_vmem"
    and wr_in: "in_mem m a width \<Longrightarrow> \<exists>m'. wr m a v = Inr m'"
    and wr_out: "\<not> in_mem m a width \<Longrightarrow> wr m a v = Inl out_of_vmem"
    and wr_size: "wr m a v = Inr m' \<Longrightarrow> mem_size m' = mem_size m"
    and wr_frame: "wr m a v = Inr m' \<Longrightarrow> i < unat a \<or> unat a + width \<le> i
      \<Longrightarrow> mem_bytes m' i = mem_bytes m i"
    and rd_wr: "wr m a v = Inr m' \<Longrightarrow> rd m' a = Inr v"
    and rd_cong: "mem_size m = mem_size m' \<Longrightarrow>
      (\<And>i. unat a \<le> i \<Longrightarrow> i < unat a + width \<Longrightarrow> mem_bytes m i = mem_bytes m' i) \<Longrightarrow> rd m a = rd m' a"
begin

lemma wr_Inr_in_mem: "wr m a v = Inr m' \<Longrightarrow> in_mem m a width"
  using wr_out [of m a v] by (cases "in_mem m a width") auto

lemma rd_Inr_in_mem: "rd m a = Inr v \<Longrightarrow> in_mem m a width"
  using rd_out [of m a] by (cases "in_mem m a width") auto

lemma in_mem_wr: "wr m a v = Inr m' \<Longrightarrow> in_mem m' b n = in_mem m b n"
  by (simp add: in_mem_def wr_size)

lemma rd_wr_disjoint:
  assumes "wr m a v = Inr m'" and "disjoint a width b width"
  shows "rd m' b = rd m b"
proof (rule rd_cong)
  show "mem_size m' = mem_size m" by (rule wr_size [OF assms(1)])
next
  fix i assume "unat b \<le> i" and "i < unat b + width"
  with assms(2) have "i < unat a \<or> unat a + width \<le> i" by (auto simp: disjoint_def)
  then show "mem_bytes m' i = mem_bytes m i" by (rule wr_frame [OF assms(1)])
qed

lemma rd_defined_iff: "(\<exists>v. rd m a = Inr v) \<longleftrightarrow> in_mem m a width"
  using rd_in rd_Inr_in_mem by blast

lemma last_write_wins: "wr m a v = Inr m' \<Longrightarrow> wr m' a w = Inr m'' \<Longrightarrow> rd m'' a = Inr w"
  by (rule rd_wr)

end

text \<open>One proof serves every width that is a whole number of bytes.\<close>

lemma cell_word:
  assumes "LENGTH('a::len) mod 8 = 0" and n: "n = LENGTH('a) div 8"
  shows "cell (\<lambda>m a. and_then (mem_rb_ptr_s m a n) (\<lambda>bs. Inr (word_of_bytes bs :: 'a word)))
    (\<lambda>m a (v :: 'a word). mem_wb_ptr_s m a (bytes_of_word v)) n"
proof unfold_locales
  fix m m' :: memory and a :: u32 and v
  assume wr: "mem_wb_ptr_s m a (bytes_of_word (v :: 'a word)) = Inr m'"
  then have "load_bytes m' (unat a) n = bytes_of_word v"
    using load_store_same [of m "unat a" "bytes_of_word v"] by (simp add: mem_simps n)
  moreover have "in_mem m' a n"
    using wr by (auto simp: mem_simps n)
  ultimately show "and_then (mem_rb_ptr_s m' a n) (\<lambda>bs. Inr (word_of_bytes bs :: 'a word)) = Inr v"
    by (simp add: mem_rb_ptr_s_def word_of_bytes_of_word [OF assms(1)])
next
  fix m m' :: memory and a :: u32
  assume "mem_size m = mem_size m'"
    and "\<And>i. unat a \<le> i \<Longrightarrow> i < unat a + n \<Longrightarrow> mem_bytes m i = mem_bytes m' i"
  then show "and_then (mem_rb_ptr_s m a n) (\<lambda>bs. Inr (word_of_bytes bs :: 'a word))
      = and_then (mem_rb_ptr_s m' a n) (\<lambda>bs. Inr (word_of_bytes bs))"
    by (simp add: mem_rb_ptr_s_def in_mem_def load_bytes_cong [of "unat a" n m m'])
qed (auto simp: mem_rb_ptr_s_def mem_wb_ptr_s_def store_bytes_size store_bytes_outside n split: if_splits)

interpretation byte_cell: cell mem_rb mem_wb 1
  unfolding mem_rb_def [abs_def] mem_wb_def [abs_def] by (rule cell_word) simp_all

interpretation half_cell: cell mem_rh mem_wh 2
  unfolding mem_rh_def [abs_def] mem_wh_def [abs_def] by (rule cell_word) simp_all

interpretation word_cell: cell mem_rw mem_ww 4
  unfolding mem_rw_def [abs_def] mem_ww_def [abs_def] by (rule cell_word) simp_all

text \<open>Two widths over the same memory: an access of one leaves disjoint cells of the other alone.\<close>

locale two_cells = a: cell rd1 wr1 n1 + b: cell rd2 wr2 n2
  for rd1 :: "memory \<Rightarrow> u32 \<Rightarrow> 'v result" and wr1 n1
    and rd2 :: "memory \<Rightarrow> u32 \<Rightarrow> 'w result" and wr2 n2
begin

lemma cross_disjoint:
  assumes "wr1 m x v = Inr m'" and "disjoint x n1 y n2"
  shows "rd2 m' y = rd2 m y"
proof (rule b.rd_cong)
  show "mem_size m' = mem_size m" by (rule a.wr_size [OF assms(1)])
next
  fix i assume "unat y \<le> i" and "i < unat y + n2"
  with assms(2) have "i < unat x \<or> unat x + n1 \<le> i" by (auto simp: disjoint_def)
  then show "mem_bytes m' i = mem_bytes m i" by (rule a.wr_frame [OF assms(1)])
qed

end

interpretation byte_word: two_cells mem_rb mem_wb 1 mem_rw mem_ww 4
  by unfold_locales

interpretation half_word: two_cells mem_rh mem_wh 2 mem_rw mem_ww 4
  by unfold_locales

section \<open>Read-modify-write: the operations of a core running alone\<close>

lemma mem_cas_under_alone:
  "mem_cas_under (id # id # envs) m addr val expected =
     and_then (mem_rw m addr) (\<lambda>cur. and_then (mem_ww m addr val) (\<lambda>m'. Inr (Some m')))"
  by (cases "mem_rw m addr") auto

lemma mem_cas_alone:
  "mem_cas m addr val expected mo = and_then (mem_rw m addr) (\<lambda>_. mem_ww m addr val)"
  by (cases "mem_rw m addr"; cases "mem_ww m addr val") (simp_all add: mem_cas_def)

lemma mem_pick_alone:
  "mem_pick keep m addr val = and_then (mem_rw m addr) (\<lambda>old.
     if keep old val then Inr (old, m) else and_then (mem_ww m addr val) (\<lambda>m'. Inr (old, m')))"
  by (cases "mem_rw m addr")
    (auto simp: mem_pick_def mem_pick_under_def mem_aread_def mem_cas_under_alone)

text \<open>Storing the value a word already has changes nothing.\<close>

lemma mem_ww_same:
  assumes "mem_rw m addr = Inr v" and "mem_ww m addr v = Inr m'"
  shows "m' = m"
proof -
  have "mem_bytes m' = mem_bytes m"
  proof
    fix i
    from assms(1) have v: "v = word_of_bytes (load_bytes m (unat addr) 4)"
      by (auto simp: mem_rw_def result_simps mem_simps)
    have "bytes_of_word v ! k = mem_bytes m (unat addr + k)" if "k < 4" for k
    proof (rule bit_word_eqI)
      fix n :: nat assume "n < LENGTH(8)"
      then have "(8 * k + n) div 8 = k" and "(8 * k + n) mod 8 = n" and "8 * k + n < 32"
        using that by auto
      then show "bit (bytes_of_word v ! k) n = bit (mem_bytes m (unat addr + k)) n"
        using that \<open>n < LENGTH(8)\<close>
        by (simp add: nth_bytes_of_word bit_simps v bit_word_of_bytes mem_simps)
    qed
    then show "mem_bytes m' i = mem_bytes m i"
      using assms(2) by (auto simp: mem_ww_def mem_simps store_bytes_def)
  qed
  moreover have "mem_size m' = mem_size m" by (rule word_cell.wr_size [OF assms(2)])
  ultimately show ?thesis by (cases m; cases m') auto
qed

end
