(* ===== verification/Vcore.thy ===== *)
theory Vcore
  imports Memory
begin

text \<open>
  The virtual core (src/src/cpu.h, src/src/trap.h and \<open>re_na\<close> and \<open>vcore_init\<close> of
  src/src/cpu.c): the register file with its indices, the execution mode, the trap codes, and
  the \<open>hart\<close> an instruction runs on, which is a core, the shared memory and whatever else of the
  process the build gives it to work on.
\<close>

section \<open>The register file (REG_LIST)\<close>

abbreviation (input) ZERO :: nat where "ZERO \<equiv> 0"
abbreviation (input) RA :: nat where "RA \<equiv> 1"
abbreviation (input) SP :: nat where "SP \<equiv> 2"
abbreviation (input) GP :: nat where "GP \<equiv> 3"
abbreviation (input) A0 :: nat where "A0 \<equiv> 10"
abbreviation (input) A1 :: nat where "A1 \<equiv> 11"
abbreviation (input) A2 :: nat where "A2 \<equiv> 12"
abbreviation (input) A3 :: nat where "A3 \<equiv> 13"
abbreviation (input) A6 :: nat where "A6 \<equiv> 16"
abbreviation (input) A7 :: nat where "A7 \<equiv> 17"
abbreviation (input) PC :: nat where "PC \<equiv> 32"
abbreviation (input) SATP :: nat where "SATP \<equiv> 33"
abbreviation (input) SSTATUS :: nat where "SSTATUS \<equiv> 34"
abbreviation (input) SCAUSE :: nat where "SCAUSE \<equiv> 35"
abbreviation (input) STVAL :: nat where "STVAL \<equiv> 36"
abbreviation (input) STVEC :: nat where "STVEC \<equiv> 37"
abbreviation (input) SEPC :: nat where "SEPC \<equiv> 38"
abbreviation (input) SSCRATCH :: nat where "SSCRATCH \<equiv> 39"
abbreviation (input) SIE :: nat where "SIE \<equiv> 40"
abbreviation (input) SIP :: nat where "SIP \<equiv> 41"
abbreviation (input) SCOUNTEREN :: nat where "SCOUNTEREN \<equiv> 42"
abbreviation (input) SENVCFG :: nat where "SENVCFG \<equiv> 43"
abbreviation REG_NUMS :: nat where "REG_NUMS \<equiv> 44"

definition REG_LIST :: "string list" where
  "REG_LIST =
    [''ZERO'', ''RA'', ''SP'', ''GP'', ''TP'', ''T0'', ''T1'', ''T2'', ''S0'', ''S1'', ''A0'', ''A1'',
     ''A2'', ''A3'', ''A4'', ''A5'', ''A6'', ''A7'', ''S2'', ''S3'', ''S4'', ''S5'', ''S6'', ''S7'',
     ''S8'', ''S9'', ''S10'', ''S11'', ''T3'', ''T4'', ''T5'', ''T6'', ''PC'', ''SATP'', ''SSTATUS'',
     ''SCAUSE'', ''STVAL'', ''STVEC'', ''SEPC'', ''SSCRATCH'', ''SIE'', ''SIP'', ''SCOUNTEREN'',
     ''SENVCFG'']"

definition re_na :: "int \<Rightarrow> string" where
  "re_na reg_num =
     (if 0 \<le> reg_num \<and> reg_num < int REG_NUMS then REG_LIST ! nat reg_num else ''UNKNOWN_REG'')"

text \<open>
  \<open>regs\<close> is the array \<open>uint32_t regs[REG_NUMS]\<close>. The code indexes it with the constants above
  and with 5-bit fields of an instruction only (lemmas \<open>RD_less\<close>, \<open>RS1_less\<close>, \<open>RS2_less\<close> of
  theory Decode), so the total function is never read or written past the array.
\<close>

datatype execution_mode = SUPERVISOR_MODE | USER_MODE

record VCore =
  regs :: "nat \<Rightarrow> u32"
  reserved :: u32
  ll_sc_flag :: bool
  atomic_exit_loop :: bool
  mode :: execution_mode
  core_idx :: u32
  elf_brk :: u32

record VCore_Init =
  init_pc :: u32
  init_sp :: u32
  init_id :: u32
  init_opaque :: u32
  init_gp :: u32
  init_elf_brk :: u32

definition zero_core :: VCore where
  "zero_core = \<lparr>regs = (\<lambda>_. 0), reserved = 0, ll_sc_flag = False, atomic_exit_loop = False,
     mode = SUPERVISOR_MODE, core_idx = 0, elf_brk = 0\<rparr>"

text \<open>\<open>vcore_init\<close>; the \<open>elf_brk\<close> fields exist in the USER build only.\<close>

definition vcore_init :: "VCore_Init option \<Rightarrow> VCore" where
  "vcore_init init = (case init of
     None \<Rightarrow> zero_core
   | Some i \<Rightarrow> zero_core\<lparr>
       regs := (\<lambda>_. 0)(PC := init_pc i, SP := init_sp i, A0 := init_id i, A1 := init_opaque i,
                        GP := init_gp i),
       core_idx := init_id i, elf_brk := init_elf_brk i\<rparr>)"

section \<open>Trap codes\<close>

datatype trap_code =
    INS_ADDR_MIS_ALGN | INS_ACC_FAULT | ILL_INS | BRKPT | LOAD_ADDR_MIS_ALGN | LOAD_ACC_FAULT
  | STORE_AMO_ADDR_MIS_ALGN | STORE_AMO_ACC_FAULT | ECALL_U_MODE | ECALL_S_MODE
  | INS_PAGE_FAULT | LOAD_PAGE_FAULT | STORE_AMO_PAGE_FAULT | SOFTWARE_CHECK | HARDWARE_ERROR
  | SUPERVISOR_SOFTWARE_INTERRUPT | SUPERVISOR_TIMER_INTERRUPT | SUPERVISOR_EXTERNAL_INTERRUPT
  | SUPERVISOR_COUNTER_OVEFLOW_INTERRUPT

fun code_of :: "trap_code \<Rightarrow> u32" where
  "code_of INS_ADDR_MIS_ALGN = 0"
| "code_of INS_ACC_FAULT = 1"
| "code_of ILL_INS = 2"
| "code_of BRKPT = 3"
| "code_of LOAD_ADDR_MIS_ALGN = 4"
| "code_of LOAD_ACC_FAULT = 5"
| "code_of STORE_AMO_ADDR_MIS_ALGN = 6"
| "code_of STORE_AMO_ACC_FAULT = 7"
| "code_of ECALL_U_MODE = 8"
| "code_of ECALL_S_MODE = 9"
| "code_of INS_PAGE_FAULT = 12"
| "code_of LOAD_PAGE_FAULT = 13"
| "code_of STORE_AMO_PAGE_FAULT = 15"
| "code_of SOFTWARE_CHECK = 18"
| "code_of HARDWARE_ERROR = 19"
| "code_of SUPERVISOR_SOFTWARE_INTERRUPT = 0x80000001"
| "code_of SUPERVISOR_TIMER_INTERRUPT = 0x80000005"
| "code_of SUPERVISOR_EXTERNAL_INTERRUPT = 0x80000009"
| "code_of SUPERVISOR_COUNTER_OVEFLOW_INTERRUPT = 0x8000000D"

section \<open>The hart an instruction runs on\<close>

record 'w hart =
  core :: VCore
  ram :: memory
  world :: 'w

type_synonym 'w trap_fn = "'w hart \<Rightarrow> trap_code \<Rightarrow> u32 \<Rightarrow> 'w hart result"

definition reg :: "'w hart \<Rightarrow> nat \<Rightarrow> u32" where
  "reg h i = regs (core h) i"

definition set_reg :: "nat \<Rightarrow> u32 \<Rightarrow> 'w hart \<Rightarrow> 'w hart" where
  "set_reg i v h = h\<lparr>core := (core h)\<lparr>regs := (regs (core h))(i := v)\<rparr>\<rparr>"

definition add_pc :: "u32 \<Rightarrow> 'w hart \<Rightarrow> 'w hart" where
  "add_pc n h = set_reg PC (reg h PC + n) h"

lemma reg_set_reg [hart_simps]: "reg (set_reg i v h) j = (if j = i then v else reg h j)"
  by (simp add: reg_def set_reg_def)

lemma set_reg_other [hart_simps]:
  "ram (set_reg i v h) = ram h" "world (set_reg i v h) = world h"
  "mode (core (set_reg i v h)) = mode (core h)"
  "ll_sc_flag (core (set_reg i v h)) = ll_sc_flag (core h)"
  "reserved (core (set_reg i v h)) = reserved (core h)"
  "atomic_exit_loop (core (set_reg i v h)) = atomic_exit_loop (core h)"
  "core_idx (core (set_reg i v h)) = core_idx (core h)"
  "elf_brk (core (set_reg i v h)) = elf_brk (core h)"
  by (simp_all add: set_reg_def)

lemma reg_add_pc [hart_simps]: "reg (add_pc n h) j = (if j = PC then reg h PC + n else reg h j)"
  by (simp add: add_pc_def reg_set_reg)

lemma add_pc_other [hart_simps]:
  "ram (add_pc n h) = ram h" "world (add_pc n h) = world h"
  "mode (core (add_pc n h)) = mode (core h)"
  "ll_sc_flag (core (add_pc n h)) = ll_sc_flag (core h)"
  "reserved (core (add_pc n h)) = reserved (core h)"
  "atomic_exit_loop (core (add_pc n h)) = atomic_exit_loop (core h)"
  "core_idx (core (add_pc n h)) = core_idx (core h)"
  "elf_brk (core (add_pc n h)) = elf_brk (core h)"
  by (simp_all add: add_pc_def set_reg_other)

lemma reg_ram_update [hart_simps]: "reg (h\<lparr>ram := m\<rparr>) i = reg h i"
  by (simp add: reg_def)

lemma reg_core_update [hart_simps]:
  "regs c = regs (core h) \<Longrightarrow> reg (h\<lparr>core := c\<rparr>) i = reg h i"
  "regs c = regs (core h) \<Longrightarrow> reg (h\<lparr>core := c, ram := m\<rparr>) i = reg h i"
  by (simp_all add: reg_def)

lemma set_reg_set_reg [hart_simps]: "set_reg i v (set_reg i w h) = set_reg i v h"
  by (simp add: set_reg_def)

end
