(* ===== verification/Decode.thy ===== *)
theory Decode
  imports Vcore
begin

text \<open>
  The instruction decoders: the masks and field macros of src/src/cpu.h and src/src/cpu.c. A C
  right shift of an \<open>uint32_t\<close> is \<open>drop_bit\<close>, of an \<open>int32_t\<close> \<open>signed_drop_bit\<close> (gcc shifts
  arithmetically). The second half gives the RISC-V instruction formats as encoders and proves
  that every field macro reads back what the format stores.
\<close>

unbundle bit_operations_syntax

section \<open>Masks and fields\<close>

definition R_IMM_MASK :: u32 where "R_IMM_MASK = push_bit 20 0xFFF"
definition F3_MASK :: u32 where "F3_MASK = push_bit 12 0x7"
definition IM_RD_MASK :: u32 where "IM_RD_MASK = push_bit 7 0x1F"
definition RS1_MASK :: u32 where "RS1_MASK = push_bit 15 0x1F"
definition RS2_MASK :: u32 where "RS2_MASK = push_bit 20 0x1F"
definition IM2_F7_MASK :: u32 where "IM2_F7_MASK = push_bit 25 0x7F"
definition F5_MASK :: u32 where "F5_MASK = push_bit 27 0x1F"
definition U_IMM_MASK :: u32 where "U_IMM_MASK = push_bit 12 0xFFFFF"

definition RD :: "u32 \<Rightarrow> u32" where "RD x = drop_bit 7 (x AND IM_RD_MASK)"
definition RS1 :: "u32 \<Rightarrow> u32" where "RS1 x = drop_bit 15 (x AND RS1_MASK)"
definition RS2 :: "u32 \<Rightarrow> u32" where "RS2 x = drop_bit 20 (x AND RS2_MASK)"
definition FUNC :: "u32 \<Rightarrow> u32" where "FUNC x = drop_bit 12 (x AND F3_MASK)"

definition R_FUNC :: "u32 \<Rightarrow> u32" where
  "R_FUNC x = drop_bit 12 (x AND F3_MASK) OR drop_bit 21 (x AND IM2_F7_MASK)"

definition A_FUNC :: "u32 \<Rightarrow> u32" where
  "A_FUNC x = drop_bit 12 (x AND F3_MASK) OR drop_bit 23 (x AND F5_MASK)"

definition I_IMM :: "u32 \<Rightarrow> u32" where
  "I_IMM x = signed_drop_bit 20 (x AND R_IMM_MASK)"

definition S_IMM :: "u32 \<Rightarrow> u32" where
  "S_IMM x = RD x OR signed_drop_bit 20 (x AND IM2_F7_MASK)"

definition U_IMM :: "u32 \<Rightarrow> u32" where
  "U_IMM x = x AND U_IMM_MASK"

definition B_IMM :: "u32 \<Rightarrow> u32" where
  "B_IMM x =
     drop_bit 7 (push_bit 8 0xF AND x) OR drop_bit 20 (push_bit 25 0x3F AND x)
     OR push_bit 4 (push_bit 7 0x1 AND x) OR signed_drop_bit 19 (push_bit 31 1 AND x)"

definition J_IMM :: "u32 \<Rightarrow> u32" where
  "J_IMM x =
     push_bit 1 (drop_bit 21 x AND 0x3FF) OR push_bit 11 (drop_bit 20 x AND 0x1)
     OR push_bit 12 (drop_bit 12 x AND 0xFF) OR (signed_drop_bit 11 x AND 0xFFF00000)"

definition AQ_BIT :: "u32 \<Rightarrow> bool" where "AQ_BIT x \<longleftrightarrow> x AND push_bit 0x19 1 \<noteq> 0"
definition RL_BIT :: "u32 \<Rightarrow> bool" where "RL_BIT x \<longleftrightarrow> x AND push_bit 0x1A 1 \<noteq> 0"

definition IS_COMPRESSED :: "u32 \<Rightarrow> bool" where "IS_COMPRESSED x \<longleftrightarrow> x AND 0x3 \<noteq> 0x3"
definition OPCODE_TYPE :: "u32 \<Rightarrow> u32" where "OPCODE_TYPE x = x AND 0x7F"

section \<open>The fields bit by bit\<close>

lemma bit_low_mask:
  "bit (0x7 :: u32) n \<longleftrightarrow> n < 3" "bit (0xF :: u32) n \<longleftrightarrow> n < 4" "bit (0x1F :: u32) n \<longleftrightarrow> n < 5"
  "bit (0x3F :: u32) n \<longleftrightarrow> n < 6" "bit (0x7F :: u32) n \<longleftrightarrow> n < 7" "bit (0xFF :: u32) n \<longleftrightarrow> n < 8"
  "bit (0x3FF :: u32) n \<longleftrightarrow> n < 10" "bit (0xFFF :: u32) n \<longleftrightarrow> n < 12"
  "bit (0xFFFFF :: u32) n \<longleftrightarrow> n < 20"
proof -
  have masks: "(0x7 :: u32) = mask 3" "(0xF :: u32) = mask 4" "(0x1F :: u32) = mask 5"
    "(0x3F :: u32) = mask 6" "(0x7F :: u32) = mask 7" "(0xFF :: u32) = mask 8"
    "(0x3FF :: u32) = mask 10" "(0xFFF :: u32) = mask 12" "(0xFFFFF :: u32) = mask 20"
    by (simp_all add: mask_eq_exp_minus_1)
  show "bit (0x7 :: u32) n \<longleftrightarrow> n < 3" "bit (0xF :: u32) n \<longleftrightarrow> n < 4" "bit (0x1F :: u32) n \<longleftrightarrow> n < 5"
    "bit (0x3F :: u32) n \<longleftrightarrow> n < 6" "bit (0x7F :: u32) n \<longleftrightarrow> n < 7" "bit (0xFF :: u32) n \<longleftrightarrow> n < 8"
    "bit (0x3FF :: u32) n \<longleftrightarrow> n < 10" "bit (0xFFF :: u32) n \<longleftrightarrow> n < 12"
    "bit (0xFFFFF :: u32) n \<longleftrightarrow> n < 20"
    unfolding masks by (auto simp: bit_mask_iff possible_bit_word)
qed

lemma bit_high_mask: "bit (0xFFF00000 :: u32) n \<longleftrightarrow> 20 \<le> n \<and> n < 32"
proof -
  have "(0xFFF00000 :: u32) = push_bit 20 0xFFF" by simp
  then show ?thesis by (simp only: bit_push_bit_iff bit_low_mask possible_bit_word) auto
qed

lemma bit_shifted_mask:
  "bit (push_bit k (m :: u32)) n \<longleftrightarrow> k \<le> n \<and> n < 32 \<and> bit m (n - k)"
  by (auto simp: bit_push_bit_iff possible_bit_word)

lemmas mask_defs = R_IMM_MASK_def F3_MASK_def IM_RD_MASK_def RS1_MASK_def RS2_MASK_def
  IM2_F7_MASK_def F5_MASK_def U_IMM_MASK_def

lemma bit_asr:
  "bit (signed_drop_bit m (w :: u32)) n \<longleftrightarrow> bit w (if 32 - m \<le> n \<and> n < 32 then 31 else m + n)"
  using bit_signed_drop_bit_iff [of m w n] by (simp add: numeral_eq_Suc)

lemmas field_bits = bit_shifted_mask bit_low_mask bit_high_mask bit_drop_bit_eq o_apply bit_and_iff
  bit_or_iff bit_asr bit_1_iff

lemma bit_beyond: "bit (x :: u32) n \<Longrightarrow> n < 32"
  by (auto dest: bit_imp_le_length)

lemma bit_RD [bit_simps]: "bit (RD x) n \<longleftrightarrow> n < 5 \<and> bit x (n + 7)"
  by (simp only: RD_def mask_defs field_bits) (auto simp: add.commute dest: bit_beyond)

lemma bit_RS1 [bit_simps]: "bit (RS1 x) n \<longleftrightarrow> n < 5 \<and> bit x (n + 15)"
  by (simp only: RS1_def mask_defs field_bits) (auto simp: add.commute dest: bit_beyond)

lemma bit_RS2 [bit_simps]: "bit (RS2 x) n \<longleftrightarrow> n < 5 \<and> bit x (n + 20)"
  by (simp only: RS2_def mask_defs field_bits) (auto simp: add.commute dest: bit_beyond)

lemma bit_FUNC [bit_simps]: "bit (FUNC x) n \<longleftrightarrow> n < 3 \<and> bit x (n + 12)"
  by (simp only: FUNC_def mask_defs field_bits) (auto simp: add.commute dest: bit_beyond)

lemma bit_R_FUNC [bit_simps]:
  "bit (R_FUNC x) n \<longleftrightarrow> (n < 3 \<and> bit x (n + 12)) \<or> (4 \<le> n \<and> n < 11 \<and> bit x (n + 21))"
  by (simp only: R_FUNC_def mask_defs field_bits) (auto simp: add.commute dest: bit_beyond)

lemma bit_A_FUNC [bit_simps]:
  "bit (A_FUNC x) n \<longleftrightarrow> (n < 3 \<and> bit x (n + 12)) \<or> (4 \<le> n \<and> n < 9 \<and> bit x (n + 23))"
  by (simp only: A_FUNC_def mask_defs field_bits) (auto simp: add.commute dest: bit_beyond)

lemma bit_I_IMM [bit_simps]:
  "bit (I_IMM x) n \<longleftrightarrow> n < 32 \<and> bit x (if n < 12 then n + 20 else 31)"
  by (simp only: I_IMM_def mask_defs field_bits) (auto simp: add.commute dest: bit_beyond)

lemma bit_S_IMM [bit_simps]:
  "bit (S_IMM x) n \<longleftrightarrow>
     n < 32 \<and> bit x (if n < 5 then n + 7 else if n < 12 then n + 20 else 31)"
  by (simp only: S_IMM_def bit_RD mask_defs field_bits) (auto simp: add.commute dest: bit_beyond)

lemma bit_U_IMM [bit_simps]: "bit (U_IMM x) n \<longleftrightarrow> 12 \<le> n \<and> n < 32 \<and> bit x n"
  by (simp only: U_IMM_def mask_defs field_bits) auto

lemma bit_B_IMM [bit_simps]:
  "bit (B_IMM x) n \<longleftrightarrow> n < 32 \<and>
     (if n = 0 then False else if n < 5 then bit x (n + 7) else if n < 11 then bit x (n + 20)
      else if n = 11 then bit x 7 else bit x 31)"
  by (cases "n = 12"; simp only: B_IMM_def field_bits) (auto simp: add.commute dest: bit_beyond)

lemma bit_J_IMM [bit_simps]:
  "bit (J_IMM x) n \<longleftrightarrow> n < 32 \<and>
     (if n = 0 then False else if n < 11 then bit x (n + 20) else if n = 11 then bit x 20
      else if n < 20 then bit x n else bit x 31)"
  by (cases "n = 20"; simp only: J_IMM_def field_bits) (auto simp: add.commute dest: bit_beyond)

section \<open>Register fields stay inside the register file\<close>

lemma mask_bound: "(\<And>n. bit x n \<Longrightarrow> n < k) \<Longrightarrow> unat (x :: u32) < 2 ^ k"
proof -
  assume low: "\<And>n. bit x n \<Longrightarrow> n < k"
  have "take_bit k x = x" by (rule bit_word_eqI) (auto simp: bit_simps dest: low)
  then have "take_bit k (unat x) = unat x" by (metis unsigned_take_bit_eq)
  then show ?thesis by (metis take_bit_nat_less_exp)
qed

lemma RD_less [decode_simps]: "unat (RD x) < 32"
  using mask_bound [of "RD x" 5] by (auto simp: bit_simps)

lemma RS1_less [decode_simps]: "unat (RS1 x) < 32"
  using mask_bound [of "RS1 x" 5] by (auto simp: bit_simps)

lemma RS2_less [decode_simps]: "unat (RS2 x) < 32"
  using mask_bound [of "RS2 x" 5] by (auto simp: bit_simps)

lemma FUNC_less [decode_simps]: "unat (FUNC x) < 8"
  using mask_bound [of "FUNC x" 3] by (auto simp: bit_simps)

lemma field_not_PC [decode_simps]: "unat (RD x) \<noteq> PC" "unat (RS1 x) \<noteq> PC" "unat (RS2 x) \<noteq> PC"
  using RD_less [of x] RS1_less [of x] RS2_less [of x] by auto

lemma RD_not_csr [decode_simps]: "32 \<le> i \<Longrightarrow> unat (RD x) \<noteq> i"
  using RD_less [of x] by auto

section \<open>The RISC-V instruction formats\<close>

definition enc_R :: "7 word \<Rightarrow> 5 word \<Rightarrow> 5 word \<Rightarrow> 3 word \<Rightarrow> 5 word \<Rightarrow> 7 word \<Rightarrow> u32" where
  "enc_R f7 rs2 rs1 f3 rd op =
     push_bit 25 (ucast f7) OR push_bit 20 (ucast rs2) OR push_bit 15 (ucast rs1)
     OR push_bit 12 (ucast f3) OR push_bit 7 (ucast rd) OR ucast op"

definition enc_I :: "12 word \<Rightarrow> 5 word \<Rightarrow> 3 word \<Rightarrow> 5 word \<Rightarrow> 7 word \<Rightarrow> u32" where
  "enc_I imm rs1 f3 rd op = push_bit 20 (ucast imm) OR push_bit 15 (ucast rs1)
     OR push_bit 12 (ucast f3) OR push_bit 7 (ucast rd) OR ucast op"

definition enc_S :: "12 word \<Rightarrow> 5 word \<Rightarrow> 5 word \<Rightarrow> 3 word \<Rightarrow> 7 word \<Rightarrow> u32" where
  "enc_S imm rs2 rs1 f3 op = push_bit 25 (ucast (drop_bit 5 imm)) OR push_bit 20 (ucast rs2)
     OR push_bit 15 (ucast rs1) OR push_bit 12 (ucast f3)
     OR push_bit 7 (ucast (take_bit 5 imm)) OR ucast op"

text \<open>Branch and jump offsets are even: the formats store them without their lowest bit.\<close>

definition enc_B :: "12 word \<Rightarrow> 5 word \<Rightarrow> 5 word \<Rightarrow> 3 word \<Rightarrow> 7 word \<Rightarrow> u32" where
  "enc_B imm rs2 rs1 f3 op = push_bit 31 (ucast (drop_bit 11 imm))
     OR push_bit 25 (ucast (take_bit 6 (drop_bit 4 imm))) OR push_bit 20 (ucast rs2)
     OR push_bit 15 (ucast rs1) OR push_bit 12 (ucast f3) OR push_bit 8 (ucast (take_bit 4 imm))
     OR push_bit 7 (ucast (take_bit 1 (drop_bit 10 imm))) OR ucast op"

definition enc_U :: "20 word \<Rightarrow> 5 word \<Rightarrow> 7 word \<Rightarrow> u32" where
  "enc_U imm rd op = push_bit 12 (ucast imm) OR push_bit 7 (ucast rd) OR ucast op"

definition enc_J :: "20 word \<Rightarrow> 5 word \<Rightarrow> 7 word \<Rightarrow> u32" where
  "enc_J imm rd op = push_bit 31 (ucast (drop_bit 19 imm))
     OR push_bit 21 (ucast (take_bit 10 imm)) OR push_bit 20 (ucast (take_bit 1 (drop_bit 10 imm)))
     OR push_bit 12 (ucast (take_bit 8 (drop_bit 11 imm))) OR push_bit 7 (ucast rd) OR ucast op"

lemmas enc_defs = enc_R_def enc_I_def enc_S_def enc_B_def enc_U_def enc_J_def

lemma bit_OPCODE_TYPE [bit_simps]: "bit (OPCODE_TYPE x) n \<longleftrightarrow> n < 7 \<and> bit x n"
  by (simp only: OPCODE_TYPE_def field_bits) auto

lemma short_bits:
  "3 \<le> n \<Longrightarrow> \<not> bit (a :: 3 word) n" "5 \<le> n \<Longrightarrow> \<not> bit (b :: 5 word) n"
  "7 \<le> n \<Longrightarrow> \<not> bit (c :: 7 word) n" "12 \<le> n \<Longrightarrow> \<not> bit (d :: 12 word) n"
  "20 \<le> n \<Longrightarrow> \<not> bit (e :: 20 word) n"
  by (auto dest: bit_imp_le_length)

lemmas enc_bits = bit_simps short_bits bit_double_iff even_drop_bit_iff_not_bit

lemma opcode_fields:
  "OPCODE_TYPE (enc_R f7 rs2 rs1 f3 rd op) = ucast op"
  "OPCODE_TYPE (enc_I imm rs1 f3 rd op) = ucast op"
  "OPCODE_TYPE (enc_S imm rs2 rs1 f3 op) = ucast op"
  "OPCODE_TYPE (enc_B imm rs2 rs1 f3 op) = ucast op"
  "OPCODE_TYPE (enc_U imm20 rd op) = ucast op"
  "OPCODE_TYPE (enc_J imm20 rd op) = ucast op"
  by (rule bit_word_eqI; auto simp: enc_defs bit_simps dest: bit_imp_le_length)+

lemma R_fields [decode_simps]:
  "RD (enc_R f7 rs2 rs1 f3 rd op) = ucast rd"
  "RS1 (enc_R f7 rs2 rs1 f3 rd op) = ucast rs1"
  "RS2 (enc_R f7 rs2 rs1 f3 rd op) = ucast rs2"
  "FUNC (enc_R f7 rs2 rs1 f3 rd op) = ucast f3"
  by (rule bit_word_eqI; auto simp: enc_defs enc_bits dest: bit_imp_le_length)+

lemma R_FUNC_enc [decode_simps]:
  "R_FUNC (enc_R f7 rs2 rs1 f3 rd op) = push_bit 4 (ucast f7) OR ucast f3"
proof (rule bit_word_eqI)
  fix n assume "n < LENGTH(32)"
  consider "n < 3" | "n = 3" | "4 \<le> n" "n < 11" | "11 \<le> n" by linarith
  then show "bit (R_FUNC (enc_R f7 rs2 rs1 f3 rd op)) n \<longleftrightarrow> bit (push_bit 4 (ucast f7) OR ucast f3 :: u32) n"
    using \<open>n < LENGTH(32)\<close> by cases (simp_all add: enc_R_def enc_bits)
qed

lemma A_FUNC_enc [decode_simps]:
  "A_FUNC (enc_R f7 rs2 rs1 f3 rd op) = push_bit 4 (ucast (drop_bit 2 f7)) OR ucast f3"
proof (rule bit_word_eqI)
  fix n assume "n < LENGTH(32)"
  consider "n < 3" | "n = 3" | k where "n = k + 4" "k < 5" | "9 \<le> n"
  proof (cases "n < 4")
    case False
    then obtain k where "n = k + 4" by (metis add.commute le_Suc_ex not_less)
    with that show ?thesis by (cases "k < 5") auto
  qed (use that in linarith)
  then show "bit (A_FUNC (enc_R f7 rs2 rs1 f3 rd op)) n
      \<longleftrightarrow> bit (push_bit 4 (ucast (drop_bit 2 f7)) OR ucast f3 :: u32) n"
    using \<open>n < LENGTH(32)\<close> by cases (simp_all add: enc_R_def enc_bits)
qed

lemma I_fields [decode_simps]:
  "RD (enc_I imm rs1 f3 rd op) = ucast rd"
  "RS1 (enc_I imm rs1 f3 rd op) = ucast rs1"
  "FUNC (enc_I imm rs1 f3 rd op) = ucast f3"
  by (rule bit_word_eqI; auto simp: enc_defs enc_bits dest: bit_imp_le_length)+

lemma SB_fields [decode_simps]:
  "RS1 (enc_S imm rs2 rs1 f3 op) = ucast rs1" "RS2 (enc_S imm rs2 rs1 f3 op) = ucast rs2"
  "FUNC (enc_S imm rs2 rs1 f3 op) = ucast f3"
  "RS1 (enc_B imm rs2 rs1 f3 op) = ucast rs1" "RS2 (enc_B imm rs2 rs1 f3 op) = ucast rs2"
  "FUNC (enc_B imm rs2 rs1 f3 op) = ucast f3"
  by (rule bit_word_eqI; auto simp: enc_defs enc_bits dest: bit_imp_le_length)+

lemma UJ_fields [decode_simps]:
  "RD (enc_U imm rd op) = ucast rd" "RD (enc_J imm rd op) = ucast rd"
  by (rule bit_word_eqI; auto simp: enc_defs enc_bits dest: bit_imp_le_length)+

section \<open>Immediates\<close>

lemma I_IMM_enc: "I_IMM (enc_I imm rs1 f3 rd op) = scast imm"
  by (rule bit_word_eqI) (auto simp: enc_defs enc_bits dest: bit_imp_le_length)

lemma S_IMM_enc: "S_IMM (enc_S imm rs2 rs1 f3 op) = scast imm"
  by (rule bit_word_eqI) (auto simp: enc_defs enc_bits dest: bit_imp_le_length)

lemma U_IMM_enc: "U_IMM (enc_U imm rd op) = push_bit 12 (ucast imm)"
  by (rule bit_word_eqI) (auto simp: enc_defs enc_bits dest: bit_imp_le_length)

lemma B_IMM_enc: "B_IMM (enc_B imm rs2 rs1 f3 op) = 2 * (scast imm)"
  by (rule bit_word_eqI) (auto simp: enc_defs enc_bits dest: bit_imp_le_length)

lemma J_IMM_enc: "J_IMM (enc_J imm rd op) = 2 * (scast imm)"
  by (rule bit_word_eqI) (auto simp: enc_defs enc_bits dest: bit_imp_le_length)

text \<open>
  C30: on an instruction word laid out by the RISC-V formats, the immediate macros of the core
  recover exactly the sign-extended (or, for U, shifted) immediate, and for branches and jumps
  the byte offset.
\<close>

theorem immediates_round_trip:
  "I_IMM (enc_I imm rs1 f3 rd op) = scast imm
   \<and> S_IMM (enc_S imm rs2 rs1 f3 op) = scast imm
   \<and> B_IMM (enc_B imm rs2 rs1 f3 op) = 2 * scast imm
   \<and> U_IMM (enc_U imm20 rd op) = push_bit 12 (ucast imm20)
   \<and> J_IMM (enc_J imm20 rd op) = 2 * scast imm20"
  by (simp only: I_IMM_enc S_IMM_enc B_IMM_enc U_IMM_enc J_IMM_enc simp_thms)

end
