(* ===== verification/Cpu.thy ===== *)
theory Cpu
  imports Decode
begin

text \<open>
  The instruction interpreter (src/src/cpu.c): one definition per \<open>vcore_*_type\<close> function, the
  dispatch of \<open>vcore_run\<close> on the opcode, and its loop. \<open>cpu.c\<close> is linked against one of two
  implementations of \<open>dispatch_trap\<close>, \<open>vcore_sys_type\<close> and \<open>check_interrupts\<close> (src/src/supervisor,
  src/src/user); the record \<open>platform\<close> is that link, and theories \<open>Supervisor\<close> and \<open>User\<close>
  provide one each.
\<close>

unbundle bit_operations_syntax

record 'w platform =
  plat_trap :: "'w trap_fn"
  plat_sys :: "'w hart \<Rightarrow> u32 \<Rightarrow> 'w hart result"
  plat_irq :: "'w hart \<Rightarrow> 'w hart result"

section \<open>Opcodes and functions\<close>

abbreviation (input) R_TYPE :: u32 where "R_TYPE \<equiv> 0x33"
abbreviation (input) IR_TYPE :: u32 where "IR_TYPE \<equiv> 0x13"
abbreviation (input) IL_TYPE :: u32 where "IL_TYPE \<equiv> 0x3"
abbreviation (input) S_TYPE :: u32 where "S_TYPE \<equiv> 0x23"
abbreviation (input) B_TYPE :: u32 where "B_TYPE \<equiv> 0x63"
abbreviation (input) J_TYPE :: u32 where "J_TYPE \<equiv> 0x6F"
abbreviation (input) IJ_TYPE :: u32 where "IJ_TYPE \<equiv> 0x67"
abbreviation (input) LUI_TYPE :: u32 where "LUI_TYPE \<equiv> 0x37"
abbreviation (input) AUIPC_TYPE :: u32 where "AUIPC_TYPE \<equiv> 0x17"
abbreviation (input) SYS_TYPE :: u32 where "SYS_TYPE \<equiv> 0x73"
abbreviation (input) A_TYPE :: u32 where "A_TYPE \<equiv> 0x2F"

abbreviation (input) ADD_F :: u32 where "ADD_F \<equiv> 0x000"
abbreviation (input) SUB_F :: u32 where "SUB_F \<equiv> 0x200"
abbreviation (input) XOR_F :: u32 where "XOR_F \<equiv> 0x004"
abbreviation (input) OR_F :: u32 where "OR_F \<equiv> 0x006"
abbreviation (input) AND_F :: u32 where "AND_F \<equiv> 0x007"
abbreviation (input) SLL_F :: u32 where "SLL_F \<equiv> 0x001"
abbreviation (input) SRL_F :: u32 where "SRL_F \<equiv> 0x005"
abbreviation (input) SRA_F :: u32 where "SRA_F \<equiv> 0x205"
abbreviation (input) SLT_F :: u32 where "SLT_F \<equiv> 0x002"
abbreviation (input) SLTU_F :: u32 where "SLTU_F \<equiv> 0x003"
abbreviation (input) MUL_F :: u32 where "MUL_F \<equiv> 0x010"
abbreviation (input) MULH_F :: u32 where "MULH_F \<equiv> 0x011"
abbreviation (input) MULHSU_F :: u32 where "MULHSU_F \<equiv> 0x012"
abbreviation (input) MULHU_F :: u32 where "MULHU_F \<equiv> 0x013"
abbreviation (input) DIV_F :: u32 where "DIV_F \<equiv> 0x014"
abbreviation (input) DIVU_F :: u32 where "DIVU_F \<equiv> 0x015"
abbreviation (input) REM_F :: u32 where "REM_F \<equiv> 0x016"
abbreviation (input) REMU_F :: u32 where "REMU_F \<equiv> 0x017"

abbreviation (input) BEQ :: u32 where "BEQ \<equiv> 0x0"
abbreviation (input) BNE :: u32 where "BNE \<equiv> 0x1"
abbreviation (input) BLT :: u32 where "BLT \<equiv> 0x4"
abbreviation (input) BGE :: u32 where "BGE \<equiv> 0x5"
abbreviation (input) BLTU :: u32 where "BLTU \<equiv> 0x6"
abbreviation (input) BGEU :: u32 where "BGEU \<equiv> 0x7"

abbreviation (input) LB :: u32 where "LB \<equiv> 0x0"
abbreviation (input) LH :: u32 where "LH \<equiv> 0x1"
abbreviation (input) LW :: u32 where "LW \<equiv> 0x2"
abbreviation (input) LBU :: u32 where "LBU \<equiv> 0x4"
abbreviation (input) LHU :: u32 where "LHU \<equiv> 0x5"

abbreviation (input) SB :: u32 where "SB \<equiv> 0x0"
abbreviation (input) SH :: u32 where "SH \<equiv> 0x1"
abbreviation (input) SW :: u32 where "SW \<equiv> 0x2"

abbreviation (input) LR :: u32 where "LR \<equiv> 0x022"
abbreviation (input) SC :: u32 where "SC \<equiv> 0x032"
abbreviation (input) ASWP :: u32 where "ASWP \<equiv> 0x012"
abbreviation (input) AADD :: u32 where "AADD \<equiv> 0x002"
abbreviation (input) AAND :: u32 where "AAND \<equiv> 0x0C2"
abbreviation (input) AOR :: u32 where "AOR \<equiv> 0x0A2"
abbreviation (input) AXOR :: u32 where "AXOR \<equiv> 0x042"
abbreviation (input) AMAX :: u32 where "AMAX \<equiv> 0x142"
abbreviation (input) AMIN :: u32 where "AMIN \<equiv> 0x102"
abbreviation (input) AMAXU :: u32 where "AMAXU \<equiv> 0x1C2"
abbreviation (input) AMINU :: u32 where "AMINU \<equiv> 0x182"

definition shamt :: "u32 \<Rightarrow> nat" where
  "shamt x = unat (x AND 31)"

section \<open>R type\<close>

text \<open>The \<open>switch (func)\<close> of \<open>vcore_r_type\<close>: the value for \<open>*rd\<close>, \<open>None\<close> for its default.\<close>

definition r_switch :: "u32 \<Rightarrow> u32 \<Rightarrow> u32 \<Rightarrow> u32 option" where
  "r_switch func rs1 rs2 =
    (if func = ADD_F then Some (rs1 + rs2)
     else if func = SUB_F then Some (rs1 - rs2)
     else if func = XOR_F then Some (rs1 XOR rs2)
     else if func = OR_F then Some (rs1 OR rs2)
     else if func = AND_F then Some (rs1 AND rs2)
     else if func = SLL_F then Some (push_bit (shamt rs2) rs1)
     else if func = SRL_F then Some (drop_bit (shamt rs2) rs1)
     else if func = SRA_F then Some (signed_drop_bit (shamt rs2) rs1)
     else if func = SLT_F then Some (if sint rs1 < sint rs2 then 1 else 0)
     else if func = SLTU_F then Some (if rs1 < rs2 then 1 else 0)
     else if func = MUL_F then Some (ucast (word_of_int (sint rs1 * sint rs2) :: u64))
     else if func = MULH_F then
       Some (let tmp_mul = (word_of_int (sint rs1 * sint rs2) :: u64) AND 0xFFFFFFFF00000000
             in ucast (drop_bit 32 tmp_mul))
     else if func = MULHSU_F then
       Some (let tmp_mul = (word_of_int (sint rs1 * uint rs2) :: u64) AND 0xFFFFFFFF00000000
             in ucast (drop_bit 32 tmp_mul))
     else if func = MULHU_F then
       Some (let tmp_mul = ((ucast rs1 * ucast rs2) :: u64) AND 0xFFFFFFFF00000000
             in ucast (drop_bit 32 tmp_mul))
     else if func = DIV_F then Some (word_of_int (sint rs1 sdiv sint rs2))
     else if func = DIVU_F then Some (rs1 div rs2)
     else if func = REM_F then Some (word_of_int (sint rs1 smod sint rs2))
     else if func = REMU_F then Some (rs1 mod rs2)
     else None)"

definition vcore_r_type :: "'w trap_fn \<Rightarrow> 'w hart \<Rightarrow> u32 \<Rightarrow> 'w hart result" where
  "vcore_r_type trap h ins =
    (let rs1 = reg h (unat (RS1 ins)); rs2 = reg h (unat (RS2 ins)); rd = unat (RD ins);
         func = R_FUNC ins;
         done = (\<lambda>v. Inr (add_pc 4 (set_reg rd v h)))
     in if rs2 = 0 \<and> (func = DIV_F \<or> func = DIVU_F) then done 0xFFFFFFFF
        else if rs2 = 0 \<and> (func = REM_F \<or> func = REMU_F) then done rs1
        else if sint rs2 = -1 \<and> sint rs1 = - (2 ^ 31) \<and> func = DIV_F then done (word_of_int (- (2 ^ 31)))
        else if sint rs2 = -1 \<and> sint rs1 = - (2 ^ 31) \<and> func = REM_F then done 0
        else (case r_switch func rs1 rs2 of
                Some v \<Rightarrow> done v
              | None \<Rightarrow> and_then (trap h ILL_INS ins) (\<lambda>h'. Inr (add_pc 4 h'))))"

section \<open>I, branch, jump and upper-immediate types\<close>

definition vcore_ir_type :: "'w trap_fn \<Rightarrow> 'w hart \<Rightarrow> u32 \<Rightarrow> 'w hart result" where
  "vcore_ir_type trap h ins =
    (let rs1 = reg h (unat (RS1 ins)); rd = unat (RD ins);
         shift_imm = unat (RS2 ins AND 31);
         done = (\<lambda>v. Inr (add_pc 4 (set_reg rd v h)))
     in if R_FUNC ins = SRA_F then done (signed_drop_bit shift_imm rs1)
        else if R_FUNC ins = SRL_F then done (drop_bit shift_imm rs1)
        else if R_FUNC ins = SLL_F then done (push_bit shift_imm rs1)
        else
          (let imm = I_IMM ins; func = FUNC ins
           in if func = ADD_F then done (rs1 + imm)
              else if func = XOR_F then done (rs1 XOR imm)
              else if func = OR_F then done (rs1 OR imm)
              else if func = AND_F then done (rs1 AND imm)
              else if func = SLT_F then done (if sint rs1 < sint imm then 1 else 0)
              else if func = SLTU_F then done (if rs1 < imm then 1 else 0)
              else and_then (trap h ILL_INS 0) (\<lambda>h'. Inr (add_pc 4 h'))))"

definition vcore_b_type :: "'w trap_fn \<Rightarrow> 'w hart \<Rightarrow> u32 \<Rightarrow> 'w hart result" where
  "vcore_b_type trap h ins =
    (let rs1 = reg h (unat (RS1 ins)); rs2 = reg h (unat (RS2 ins)); imm = B_IMM ins;
         func = FUNC ins;
         branch = (\<lambda>taken. Inr (add_pc (if taken then imm else 4) h))
     in if func = BEQ then branch (rs1 = rs2)
        else if func = BNE then branch (rs1 \<noteq> rs2)
        else if func = BLT then branch (sint rs1 < sint rs2)
        else if func = BGE then branch (sint rs1 \<ge> sint rs2)
        else if func = BLTU then branch (rs1 < rs2)
        else if func = BGEU then branch (rs1 \<ge> rs2)
        else and_then (trap h ILL_INS ins) (\<lambda>h'. Inr (add_pc 4 h')))"

definition vcore_j_type :: "'w hart \<Rightarrow> u32 \<Rightarrow> 'w hart result" where
  "vcore_j_type h ins =
    (let h1 = set_reg (unat (RD ins)) (reg h PC + 4) h in Inr (add_pc (J_IMM ins) h1))"

text \<open>\<open>vcore_ij_type\<close> writes the link register first and reads \<open>rs1\<close> after that.\<close>

definition vcore_ij_type :: "'w hart \<Rightarrow> u32 \<Rightarrow> 'w hart result" where
  "vcore_ij_type h ins =
    (let h1 = set_reg (unat (RD ins)) (reg h PC + 4) h
     in Inr (set_reg PC (reg h1 (unat (RS1 ins)) + I_IMM ins) h1))"

definition vcore_lui_type :: "'w hart \<Rightarrow> u32 \<Rightarrow> 'w hart result" where
  "vcore_lui_type h ins = Inr (add_pc 4 (set_reg (unat (RD ins)) (U_IMM ins) h))"

definition vcore_auipc_type :: "'w hart \<Rightarrow> u32 \<Rightarrow> 'w hart result" where
  "vcore_auipc_type h ins = Inr (add_pc 4 (set_reg (unat (RD ins)) (reg h PC + U_IMM ins) h))"

section \<open>Loads and stores\<close>

definition vcore_il_type :: "'w trap_fn \<Rightarrow> 'w hart \<Rightarrow> u32 \<Rightarrow> 'w hart result" where
  "vcore_il_type trap h ins =
    (let rs1 = reg h (unat (RS1 ins)); rd = unat (RD ins); imm = I_IMM ins; func = FUNC ins;
         done = (\<lambda>v. Inr (add_pc 4 (set_reg rd v h)))
     in if func = LB then and_then (mem_rb (ram h) (rs1 + imm)) (\<lambda>b.
            let v = (ucast b :: u32) in done (if v \<ge> 0x80 then v OR 0xFFFFFF00 else v))
        else if func = LH then and_then (mem_rh (ram h) (rs1 + imm)) (\<lambda>b.
            let v = (ucast b :: u32) in done (if v \<ge> 0x8000 then v OR 0xFFFF0000 else v))
        else if func = LW then and_then (mem_rw (ram h) (rs1 + imm)) done
        else if func = LBU then and_then (mem_rb (ram h) (rs1 + imm)) (\<lambda>b. done (ucast b))
        else if func = LHU then and_then (mem_rh (ram h) (rs1 + imm)) (\<lambda>b. done (ucast b))
        else and_then (trap h ILL_INS ins) (\<lambda>h'. Inr (add_pc 4 h')))"

definition vcore_s_type :: "'w trap_fn \<Rightarrow> 'w hart \<Rightarrow> u32 \<Rightarrow> 'w hart result" where
  "vcore_s_type trap h ins =
    (let rs1 = reg h (unat (RS1 ins)); rs2 = reg h (unat (RS2 ins)); func = FUNC ins;
         done = (\<lambda>m. Inr (add_pc 4 (h\<lparr>ram := m\<rparr>)))
     in if func = SB then and_then (mem_wb (ram h) (rs1 + S_IMM ins) (ucast rs2)) done
        else if func = SH then and_then (mem_wh (ram h) (rs1 + S_IMM ins) (ucast rs2)) done
        else if func = SW then and_then (mem_ww (ram h) (rs1 + S_IMM ins) rs2) done
        else and_then (trap h ILL_INS ins) (\<lambda>h'. Inr (add_pc 4 h')))"

section \<open>Atomics\<close>

definition memorder_of :: "u32 \<Rightarrow> memorder" where
  "memorder_of ins =
    (if AQ_BIT ins \<and> RL_BIT ins then ACQ_REL
     else let mo = (if AQ_BIT ins then ACQUIRE else RELAXED)
          in if RL_BIT ins then RELEASE else mo)"

definition vcore_a_type :: "'w trap_fn \<Rightarrow> 'w hart \<Rightarrow> u32 \<Rightarrow> 'w hart result" where
  "vcore_a_type trap h ins =
    (let rs1 = reg h (unat (RS1 ins)); rs2 = reg h (unat (RS2 ins)); rd = unat (RD ins);
         mo = memorder_of ins; func = A_FUNC ins;
         done = (\<lambda>(old, m). Inr (add_pc 4 (set_reg rd old (h\<lparr>ram := m\<rparr>))))
     in if func = LR then
          and_then (mem_aread (ram h) rs1 mo) (\<lambda>v.
            Inr (add_pc 4 (h\<lparr>core := (core h)\<lparr>ll_sc_flag := True, reserved := v\<rparr>\<rparr>)))
        else if func = SC then
          (if \<not> ll_sc_flag (core h) then Inr (set_reg rd 1 h)
           else and_then (mem_cas (ram h) rs1 rs2 (reserved (core h)) mo) (\<lambda>m.
             Inr (add_pc 4 (set_reg rd 0 (h\<lparr>core := (core h)\<lparr>ll_sc_flag := False\<rparr>, ram := m\<rparr>)))))
        else if func = ASWP then and_then (mem_aswp (ram h) rs1 rs2 mo) done
        else if func = AADD then and_then (mem_aadd (ram h) rs1 rs2 mo) done
        else if func = AAND then and_then (mem_aand (ram h) rs1 rs2 mo) done
        else if func = AOR then and_then (mem_aor (ram h) rs1 rs2 mo) done
        else if func = AXOR then and_then (mem_axor (ram h) rs1 rs2 mo) done
        else if func = AMAX then and_then (mem_amax (ram h) rs1 rs2 mo) done
        else if func = AMIN then and_then (mem_amin (ram h) rs1 rs2 mo) done
        else if func = AMAXU then and_then (mem_amaxu (ram h) rs1 rs2 mo) done
        else if func = AMINU then and_then (mem_aminu (ram h) rs1 rs2 mo) done
        else and_then (trap h ILL_INS ins) (\<lambda>h'. Inr (add_pc 4 h')))"

section \<open>The loop\<close>

definition vcore_exec :: "'w platform \<Rightarrow> 'w hart \<Rightarrow> u32 \<Rightarrow> 'w hart result" where
  "vcore_exec plat h ins =
    (let op = OPCODE_TYPE ins; trap = plat_trap plat
     in if IS_COMPRESSED ins then Inl (Exit 1)
        else if op = R_TYPE then vcore_r_type trap h ins
        else if op = IR_TYPE then vcore_ir_type trap h ins
        else if op = IL_TYPE then vcore_il_type trap h ins
        else if op = S_TYPE then vcore_s_type trap h ins
        else if op = B_TYPE then vcore_b_type trap h ins
        else if op = J_TYPE then vcore_j_type h ins
        else if op = IJ_TYPE then vcore_ij_type h ins
        else if op = LUI_TYPE then vcore_lui_type h ins
        else if op = AUIPC_TYPE then vcore_auipc_type h ins
        else if op = A_TYPE then vcore_a_type trap h ins
        else if op = SYS_TYPE then plat_sys plat h ins
        else trap h ILL_INS ins)"

text \<open>
  One turn of the \<open>while (1)\<close>. \<open>env\<close> is what the rest of the process does to the hart between
  the instruction and the load of \<open>atomic_exit_loop\<close>; \<open>True\<close> is the \<open>return\<close>.
\<close>

definition vcore_iter :: "'w platform \<Rightarrow> ('w hart \<Rightarrow> 'w hart) \<Rightarrow> 'w hart \<Rightarrow> (bool \<times> 'w hart) result" where
  "vcore_iter plat env h =
    (let h0 = set_reg ZERO 0 h
     in and_then (mem_rw (ram h0) (reg h0 PC)) (\<lambda>ins.
        and_then (vcore_exec plat h0 ins) (\<lambda>h1.
          let h2 = env h1
          in if atomic_exit_loop (core h2) then Inr (True, h2)
             else and_then (plat_irq plat h2) (\<lambda>h3. Inr (False, h3)))))"

text \<open>The loop along a schedule of interference; \<open>False\<close> says it has not returned by its end.\<close>

fun vcore_run :: "'w platform \<Rightarrow> ('w hart \<Rightarrow> 'w hart) list \<Rightarrow> 'w hart \<Rightarrow> (bool \<times> 'w hart) result" where
  "vcore_run plat [] h = Inr (False, h)"
| "vcore_run plat (env # envs) h =
     and_then (vcore_iter plat env h) (\<lambda>(stop, h').
       if stop then Inr (True, h') else vcore_run plat envs h')"

end
