(* ===== verification/Contract.thy ===== *)
theory Contract
  imports Cpu
begin

text \<open>
  What the interpreter relies on from the trap code it is linked against, as the locale
  \<open>trap_contract\<close>, and what it then guarantees: an instruction other than SYSTEM writes at most
  its \<open>rd\<close>, the PC and (for stores and atomics) the memory; \<open>sized_platform\<close> adds that no part of
  the platform changes the size of the mapping. Theories \<open>Supervisor\<close> and \<open>User\<close> interpret both
  on the two builds.
\<close>

unbundle bit_operations_syntax

section \<open>The loop and its exit flag\<close>

lemma vcore_iter_ZERO: "vcore_iter plat env (set_reg ZERO v h) = vcore_iter plat env h"
  by (simp add: vcore_iter_def hart_simps)

lemma vcore_run_exit:
  "vcore_iter plat env h = Inr (True, h') \<Longrightarrow> vcore_run plat (env # envs) h = Inr (True, h')"
  by simp

lemma vcore_iter_returns:
  assumes "\<And>h'. atomic_exit_loop (core (env h'))"
  shows "vcore_iter plat env h =
    and_then (mem_rw (ram h) (reg h PC)) (\<lambda>ins.
      and_then (vcore_exec plat (set_reg ZERO 0 h) ins) (\<lambda>h1. Inr (True, env h1)))"
  using assms by (simp add: vcore_iter_def hart_simps)

lemma vcore_run_append:
  "vcore_run plat (envs @ envs') h = and_then (vcore_run plat envs h) (\<lambda>(stop, h').
     if stop then Inr (True, h') else vcore_run plat envs' h')"
proof (induction envs arbitrary: h)
  case (Cons env envs)
  show ?case
  proof (cases "vcore_iter plat env h")
    case (Inr p)
    then show ?thesis by (cases p) (simp add: Cons.IH)
  qed simp
qed simp

text \<open>
  What an instruction writes to x0 is never seen: the run from a state whose x0 was
  overwritten is the run from the state itself.
\<close>

lemma zero_register_unobservable:
  "vcore_run plat (env # envs) (set_reg ZERO v h) = vcore_run plat (env # envs) h"
  by (simp add: vcore_iter_ZERO)

text \<open>
  With the exit flag set during its turn, \<open>vcore_run\<close> executes exactly one instruction and
  returns before it polls for interrupts, which is how a single step runs; with the flag clear it
  goes on with the next turn after the poll.
\<close>

theorem one_instruction_per_turn:
  "vcore_run plat (env # envs) h =
     and_then (mem_rw (ram h) (reg h PC)) (\<lambda>ins.
     and_then (vcore_exec plat (set_reg ZERO 0 h) ins) (\<lambda>h1.
       if atomic_exit_loop (core (env h1)) then Inr (True, env h1)
       else and_then (plat_irq plat (env h1)) (vcore_run plat envs)))"
  by (simp add: vcore_iter_def hart_simps Let_def if_distrib [where f="\<lambda>r. and_then r _"] cong: if_cong)

section \<open>The trap code's contract\<close>

text \<open>No general register but \<open>rd\<close> differs.\<close>

definition frame :: "'w hart \<Rightarrow> u32 \<Rightarrow> 'w hart \<Rightarrow> bool" where
  "frame h ins h' \<longleftrightarrow> (\<forall>i < 32. i \<noteq> unat (RD ins) \<longrightarrow> reg h' i = reg h i)"

locale trap_contract =
  fixes plat :: "'w platform"
  assumes trap_regs: "plat_trap plat h ILL_INS v = Inr h' \<Longrightarrow> i < 32 \<Longrightarrow> reg h' i = reg h i"
    and trap_ram: "plat_trap plat h ILL_INS v = Inr h' \<Longrightarrow> ram h' = ram h"
begin

lemma trapped_regs:
  "and_then (plat_trap plat h ILL_INS v) (\<lambda>h'. Inr (add_pc 4 h')) = Inr h'' \<Longrightarrow> i < 32 \<Longrightarrow>
     reg h'' i = reg h i"
  by (auto simp: result_simps hart_simps dest: trap_regs)

lemma trapped_ram:
  "and_then (plat_trap plat h ILL_INS v) (\<lambda>h'. Inr (add_pc 4 h')) = Inr h'' \<Longrightarrow> ram h'' = ram h"
  by (auto simp: result_simps hart_simps dest: trap_ram)

lemma r_type_frame:
  "vcore_r_type (plat_trap plat) h ins = Inr h' \<Longrightarrow> frame h ins h' \<and> ram h' = ram h"
  by (auto simp: vcore_r_type_def Let_def frame_def hart_simps split: if_splits option.splits
      dest: trapped_regs trapped_ram)

lemma ir_type_frame:
  "vcore_ir_type (plat_trap plat) h ins = Inr h' \<Longrightarrow> frame h ins h' \<and> ram h' = ram h"
  by (auto simp: vcore_ir_type_def Let_def frame_def hart_simps split: if_splits
      dest: trapped_regs trapped_ram)

lemma b_type_frame:
  "vcore_b_type (plat_trap plat) h ins = Inr h' \<Longrightarrow>
     (\<forall>i < 32. reg h' i = reg h i) \<and> ram h' = ram h"
  by (auto simp: vcore_b_type_def Let_def hart_simps split: if_splits dest: trapped_regs trapped_ram)

lemma jump_frame:
  "vcore_j_type h ins = Inr h' \<Longrightarrow> frame h ins h' \<and> ram h' = ram h"
  "vcore_ij_type h ins = Inr h' \<Longrightarrow> frame h ins h' \<and> ram h' = ram h"
  "vcore_lui_type h ins = Inr h' \<Longrightarrow> frame h ins h' \<and> ram h' = ram h"
  "vcore_auipc_type h ins = Inr h' \<Longrightarrow> frame h ins h' \<and> ram h' = ram h"
  by (auto simp: vcore_j_type_def vcore_ij_type_def vcore_lui_type_def vcore_auipc_type_def Let_def
      frame_def hart_simps)

lemma il_type_frame:
  "vcore_il_type (plat_trap plat) h ins = Inr h' \<Longrightarrow> frame h ins h' \<and> ram h' = ram h"
  unfolding vcore_il_type_def Let_def
  by (rule conjI; (auto simp: frame_def hart_simps result_simps split: if_splits
      dest: trap_regs trap_ram))

lemma s_type_frame:
  "vcore_s_type (plat_trap plat) h ins = Inr h' \<Longrightarrow>
     (\<forall>i < 32. reg h' i = reg h i) \<and> mem_size (ram h') = mem_size (ram h)"
  unfolding vcore_s_type_def Let_def
  by (rule conjI; (auto simp: hart_simps result_simps split: if_splits
      dest: trap_regs trap_ram byte_cell.wr_size half_cell.wr_size word_cell.wr_size))

lemma fetch_op_size: "fetch_op f m a v = Inr (old, m') \<Longrightarrow> mem_size m' = mem_size m"
  by (auto simp: fetch_op_def result_simps dest: word_cell.wr_size)

lemma mem_pick_size: "mem_pick keep m a v = Inr (old, m') \<Longrightarrow> mem_size m' = mem_size m"
  by (auto simp: mem_pick_alone result_simps split: if_splits dest: word_cell.wr_size)

lemmas amo_defs = mem_aswp_def mem_aadd_def mem_aand_def mem_aor_def mem_axor_def mem_amax_def
  mem_amin_def mem_amaxu_def mem_aminu_def

lemma a_type_frame:
  "vcore_a_type (plat_trap plat) h ins = Inr h' \<Longrightarrow>
     frame h ins h' \<and> mem_size (ram h') = mem_size (ram h)"
  unfolding vcore_a_type_def Let_def amo_defs
  by (rule conjI; (auto simp: frame_def hart_simps result_simps mem_cas_alone split: if_splits
      dest: trap_regs trap_ram fetch_op_size mem_pick_size word_cell.wr_size))

lemma exec_frame:
  assumes "vcore_exec plat h ins = Inr h'" and "OPCODE_TYPE ins \<noteq> SYS_TYPE"
  shows "frame h ins h'"
proof -
  have "(\<forall>i<32. reg h' i = reg h i) \<Longrightarrow> frame h ins h'" by (simp add: frame_def)
  moreover have "plat_trap plat h ILL_INS ins = Inr h' \<Longrightarrow> frame h ins h'"
    by (auto simp: frame_def dest: trap_regs)
  ultimately show ?thesis
    using assms unfolding vcore_exec_def Let_def
    by (auto split: if_splits dest: r_type_frame ir_type_frame b_type_frame jump_frame il_type_frame
        s_type_frame a_type_frame)
qed

lemma exec_ram:
  assumes "vcore_exec plat h ins = Inr h'"
    and "OPCODE_TYPE ins \<noteq> SYS_TYPE" "OPCODE_TYPE ins \<noteq> S_TYPE" "OPCODE_TYPE ins \<noteq> A_TYPE"
  shows "ram h' = ram h"
  using assms unfolding vcore_exec_def Let_def
  by (auto split: if_splits dest: r_type_frame ir_type_frame b_type_frame jump_frame il_type_frame
      trap_ram)

end

section \<open>The size of the mapping\<close>

locale sized_platform = trap_contract plat for plat :: "'w platform" +
  assumes sys_size: "plat_sys plat h ins = Inr h' \<Longrightarrow> mem_size (ram h') = mem_size (ram h)"
    and irq_size: "plat_irq plat h = Inr h' \<Longrightarrow> mem_size (ram h') = mem_size (ram h)"
begin

lemma exec_size:
  assumes "vcore_exec plat h ins = Inr h'"
  shows "mem_size (ram h') = mem_size (ram h)"
proof (cases "OPCODE_TYPE ins = SYS_TYPE \<or> OPCODE_TYPE ins = S_TYPE \<or> OPCODE_TYPE ins = A_TYPE")
  case True
  then show ?thesis
    using assms unfolding vcore_exec_def Let_def
    by (auto split: if_splits dest: sys_size s_type_frame a_type_frame)
next
  case False
  then show ?thesis using exec_ram [OF assms] by simp
qed

lemma iter_size:
  assumes "vcore_iter plat env h = Inr (stop, h')"
    and "\<And>g. mem_size (ram (env g)) = mem_size (ram g)"
  shows "mem_size (ram h') = mem_size (ram h)"
  using assms
  by (auto simp: vcore_iter_def Let_def result_simps hart_simps split: if_splits
      dest!: exec_size irq_size)

lemma run_size:
  assumes "vcore_run plat envs h = Inr (stop, h')"
    and "\<And>env g. env \<in> set envs \<Longrightarrow> mem_size (ram (env g)) = mem_size (ram g)"
  shows "mem_size (ram h') = mem_size (ram h)"
  using assms
proof (induction envs arbitrary: h)
  case (Cons env envs)
  from Cons.prems(1) obtain s h1 where iter: "vcore_iter plat env h = Inr (s, h1)"
    and rest: "(if s then Inr (True, h1) else vcore_run plat envs h1) = Inr (stop, h')"
    by (auto simp: result_simps)
  have "mem_size (ram h1) = mem_size (ram h)"
    using iter_size [OF iter] Cons.prems(2) by simp
  moreover have "mem_size (ram h') = mem_size (ram h1)"
    using rest Cons.IH Cons.prems(2) by (cases s) auto
  ultimately show ?case by simp
qed simp

end

section \<open>Invariants of a platform\<close>

text \<open>
  A property of harts that the platform's code keeps and that does not depend on what instructions
  write (general registers, PC, reservation, memory), together with an ending \<open>bad\<close> that the
  platform's code never has while the property holds.
\<close>

locale platform_invariant =
  fixes plat :: "'w platform" and P :: "'w hart \<Rightarrow> bool" and bad :: stop
  assumes P_set_reg: "P h \<Longrightarrow> i \<le> PC \<Longrightarrow> P (set_reg i v h)"
    and P_ram: "P h \<Longrightarrow> P (h\<lparr>ram := m\<rparr>)"
    and P_reserve: "P h \<Longrightarrow> P (h\<lparr>core := (core h)\<lparr>ll_sc_flag := b, reserved := v\<rparr>\<rparr>)"
    and P_trap: "P h \<Longrightarrow> plat_trap plat h code v = Inr h' \<Longrightarrow> P h'"
    and P_sys: "P h \<Longrightarrow> plat_sys plat h ins = Inr h' \<Longrightarrow> P h'"
    and P_irq: "P h \<Longrightarrow> plat_irq plat h = Inr h' \<Longrightarrow> P h'"
    and bad_trap: "P h \<Longrightarrow> plat_trap plat h ILL_INS v \<noteq> Inl bad"
    and bad_sys: "P h \<Longrightarrow> plat_sys plat h ins \<noteq> Inl bad"
    and bad_irq: "P h \<Longrightarrow> plat_irq plat h \<noteq> Inl bad"
    and bad_new: "bad \<noteq> Exit 1" "bad \<noteq> out_of_vmem" "bad \<noteq> Out_Of_Fuel"
begin

lemma P_add_pc: "P h \<Longrightarrow> P (add_pc n h)"
  by (simp add: add_pc_def P_set_reg)

lemma P_rd: "P h \<Longrightarrow> P (set_reg (unat (RD ins)) v h)"
  using RD_less [of ins] by (simp add: P_set_reg)

lemma P_reserve_flag: "P h \<Longrightarrow> P (h\<lparr>core := (core h)\<lparr>ll_sc_flag := b\<rparr>\<rparr>)"
  using P_reserve [of h "reserved (core h)" b] by simp

lemma P_reserve_ram: "P h \<Longrightarrow> P (h\<lparr>core := (core h)\<lparr>ll_sc_flag := b\<rparr>, ram := m\<rparr>)"
  using P_ram [OF P_reserve_flag [of h b], of m] by simp

lemmas P_rules = P_add_pc P_rd P_reserve P_reserve_flag P_reserve_ram P_ram

lemma trap_pc:
  "P h \<Longrightarrow> and_then (plat_trap plat h ILL_INS v) (\<lambda>h'. Inr (add_pc 4 h')) = Inr h'' \<Longrightarrow> P h''"
  by (auto simp: result_simps dest: P_trap intro: P_add_pc)

lemma exec_invariant:
  assumes "P h" "vcore_exec plat h ins = Inr h'"
  shows "P h'"
proof -
  consider "vcore_r_type (plat_trap plat) h ins = Inr h'" | "vcore_ir_type (plat_trap plat) h ins = Inr h'"
    | "vcore_il_type (plat_trap plat) h ins = Inr h'" | "vcore_s_type (plat_trap plat) h ins = Inr h'"
    | "vcore_b_type (plat_trap plat) h ins = Inr h'" | "vcore_j_type h ins = Inr h'"
    | "vcore_ij_type h ins = Inr h'" | "vcore_lui_type h ins = Inr h'" | "vcore_auipc_type h ins = Inr h'"
    | "vcore_a_type (plat_trap plat) h ins = Inr h'" | "plat_sys plat h ins = Inr h'"
    | "plat_trap plat h ILL_INS ins = Inr h'"
    using assms(2) by (auto simp: vcore_exec_def Let_def split: if_splits)
  then show ?thesis
  proof cases
    case 1
    then show ?thesis
      using assms(1) by (auto simp: vcore_r_type_def Let_def intro!: P_rules dest: trap_pc
          split: if_splits option.splits)
  next
    case 2
    then show ?thesis
      using assms(1) by (auto simp: vcore_ir_type_def Let_def intro!: P_rules dest: trap_pc
          split: if_splits)
  next
    case 3
    then show ?thesis
      using assms(1) unfolding vcore_il_type_def Let_def
      by (auto simp: result_simps intro!: P_rules dest: P_trap split: if_splits)
  next
    case 4
    then show ?thesis
      using assms(1) unfolding vcore_s_type_def Let_def
      by (auto simp: result_simps intro!: P_rules dest: P_trap split: if_splits)
  next
    case 5
    then show ?thesis
      using assms(1) by (auto simp: vcore_b_type_def Let_def intro!: P_rules dest: trap_pc
          split: if_splits)
  next
    case 10
    then show ?thesis
      using assms(1) unfolding vcore_a_type_def Let_def
      by (auto simp: result_simps intro!: P_rules dest: P_trap split: if_splits)
  qed (use assms(1) in \<open>auto simp: vcore_j_type_def vcore_ij_type_def vcore_lui_type_def
      vcore_auipc_type_def Let_def intro!: P_rules P_set_reg dest: P_sys P_trap\<close>)
qed

lemma access_not_bad:
  "mem_rb m a \<noteq> Inl bad" "mem_rh m a \<noteq> Inl bad" "mem_rw m a \<noteq> Inl bad"
  "mem_wb m a v8 \<noteq> Inl bad" "mem_wh m a v16 \<noteq> Inl bad" "mem_ww m a v \<noteq> Inl bad"
  "fetch_op f m a v \<noteq> Inl bad" "mem_pick keep m a v \<noteq> Inl bad" "mem_cas m a v e mo \<noteq> Inl bad"
  using bad_new(2)
  by (auto simp: mem_rb_def mem_rh_def mem_rw_def mem_wb_def mem_wh_def mem_ww_def mem_rb_ptr_s_def
      mem_wb_ptr_s_def fetch_op_def mem_pick_alone mem_cas_alone result_simps split: if_splits)

lemma exec_not_bad:
  assumes "P h"
  shows "vcore_exec plat h ins \<noteq> Inl bad"
proof -
  have "vcore_r_type (plat_trap plat) h ins \<noteq> Inl bad" "vcore_ir_type (plat_trap plat) h ins \<noteq> Inl bad"
    "vcore_b_type (plat_trap plat) h ins \<noteq> Inl bad"
    using bad_trap [OF assms]
    by (auto simp: vcore_r_type_def vcore_ir_type_def vcore_b_type_def Let_def result_simps
        split: if_splits option.splits)
  moreover have "vcore_il_type (plat_trap plat) h ins \<noteq> Inl bad"
    using bad_trap [OF assms] unfolding vcore_il_type_def Let_def
    by (auto simp: result_simps access_not_bad split: if_splits)
  moreover have "vcore_s_type (plat_trap plat) h ins \<noteq> Inl bad"
    using bad_trap [OF assms] unfolding vcore_s_type_def Let_def
    by (auto simp: result_simps access_not_bad split: if_splits)
  moreover have "vcore_a_type (plat_trap plat) h ins \<noteq> Inl bad"
    using bad_trap [OF assms] unfolding vcore_a_type_def Let_def mem_aread_def mem_aswp_def
      mem_aadd_def mem_aand_def mem_aor_def mem_axor_def mem_amax_def mem_amin_def mem_amaxu_def
      mem_aminu_def
    by (auto simp: result_simps access_not_bad split: if_splits)
  ultimately show ?thesis
    using bad_trap [OF assms] bad_sys [OF assms] bad_new(1)
    by (simp add: vcore_exec_def Let_def vcore_j_type_def vcore_ij_type_def vcore_lui_type_def
        vcore_auipc_type_def)
qed

lemma iter_invariant:
  assumes "P h" and env: "\<And>g. P g \<Longrightarrow> P (env g)"
  shows "vcore_iter plat env h \<noteq> Inl bad" and "vcore_iter plat env h = Inr (stop, h') \<Longrightarrow> P h'"
proof -
  have z: "P (set_reg ZERO 0 h)" using assms(1) by (simp add: P_set_reg)
  show "vcore_iter plat env h \<noteq> Inl bad"
    using exec_not_bad [OF z] exec_invariant [OF z] bad_irq env
    by (fastforce simp: vcore_iter_def Let_def result_simps hart_simps access_not_bad split: if_splits)
  show "vcore_iter plat env h = Inr (stop, h') \<Longrightarrow> P h'"
    using exec_invariant [OF z] P_irq env
    by (fastforce simp: vcore_iter_def Let_def result_simps hart_simps split: if_splits)
qed

lemma run_invariant:
  assumes "P h" and "\<And>env g. env \<in> set envs \<Longrightarrow> P g \<Longrightarrow> P (env g)"
  shows "vcore_run plat envs h \<noteq> Inl bad \<and> (\<forall>stop h'. vcore_run plat envs h = Inr (stop, h') \<longrightarrow> P h')"
  using assms
proof (induction envs arbitrary: h)
  case (Cons env envs)
  note it = iter_invariant [OF Cons.prems(1), of env]
  show ?case
  proof (cases "vcore_iter plat env h")
    case (Inl e)
    then show ?thesis using it(1) Cons.prems(2) by auto
  next
    case (Inr p)
    obtain s h1 where p: "p = (s, h1)" by (cases p)
    then have "P h1" using it(2) Inr Cons.prems(2) by auto
    with Cons p Inr show ?thesis by auto
  qed
qed simp

end

end
