(* ===== verification/Cthread.thy ===== *)
theory Cthread
  imports Vcore
begin

text \<open>
  A core's thread and its state machine (src/src/cthread.h, cthread.c). Each function that takes
  the mutex is one critical section and one definition here; \<open>cthread_signal_step\<close> and
  \<open>cthread_fsm\<close>, which release the mutex while they wait, are cut at those points, and theory
  \<open>Hsm\<close> puts the pieces together as a step relation. Signalling a condition variable wakes a
  waiter and changes no state of the model.
\<close>

section \<open>States and signals\<close>

datatype cthread_state = STATE_STARTED | STATE_STOPPED | STATE_START_PENDING | STATE_STOP_PENDING
  | STATE_SUSPENDED | STATE_SUSPEND_PENDING | STATE_RESUME_PENDING | STATE_HALTED | STATE_STEPPING
  | STATE_HALT_PENDING | STATE_CONTINUE_PENDING

fun state_num :: "cthread_state \<Rightarrow> u32" where
  "state_num STATE_STARTED = 0"
| "state_num STATE_STOPPED = 1"
| "state_num STATE_START_PENDING = 2"
| "state_num STATE_STOP_PENDING = 3"
| "state_num STATE_SUSPENDED = 4"
| "state_num STATE_SUSPEND_PENDING = 5"
| "state_num STATE_RESUME_PENDING = 6"
| "state_num STATE_HALTED = 7"
| "state_num STATE_STEPPING = 8"
| "state_num STATE_HALT_PENDING = 10"
| "state_num STATE_CONTINUE_PENDING = 11"

datatype cthread_signal = START_S | STOP_S | SUSPEND_S | HALT_S | STEP_S

text \<open>The casts between the two enumerations, whose values agree.\<close>

fun signal_state :: "cthread_signal \<Rightarrow> cthread_state" where
  "signal_state START_S = STATE_STARTED"
| "signal_state STOP_S = STATE_STOPPED"
| "signal_state SUSPEND_S = STATE_SUSPENDED"
| "signal_state HALT_S = STATE_HALTED"
| "signal_state STEP_S = STATE_STEPPING"

record Cthread =
  ct_state :: cthread_state
  ct_signal :: cthread_signal
  ct_old_signal :: cthread_signal
  ct_core :: VCore

definition exit_flag :: "Cthread \<Rightarrow> bool" where
  "exit_flag c = atomic_exit_loop (ct_core c)"

definition set_exit_flag :: "bool \<Rightarrow> Cthread \<Rightarrow> Cthread" where
  "set_exit_flag b c = c\<lparr>ct_core := (ct_core c)\<lparr>atomic_exit_loop := b\<rparr>\<rparr>"

lemma set_exit_flag_simps [thread_simps]:
  "exit_flag (set_exit_flag b c) = b" "ct_state (set_exit_flag b c) = ct_state c"
  "ct_signal (set_exit_flag b c) = ct_signal c" "ct_old_signal (set_exit_flag b c) = ct_old_signal c"
  "regs (ct_core (set_exit_flag b c)) = regs (ct_core c)"
  "core_idx (ct_core (set_exit_flag b c)) = core_idx (ct_core c)"
  by (simp_all add: set_exit_flag_def exit_flag_def)

lemma exit_flag_updates [thread_simps]:
  "exit_flag (c\<lparr>ct_state := s\<rparr>) = exit_flag c" "exit_flag (c\<lparr>ct_signal := g\<rparr>) = exit_flag c"
  "exit_flag (c\<lparr>ct_old_signal := g\<rparr>) = exit_flag c"
  "exit_flag (c\<lparr>ct_core := k\<rparr>) = atomic_exit_loop k"
  by (simp_all add: exit_flag_def)

section \<open>Initialisation\<close>

definition cthread_init :: "cthread_state \<Rightarrow> VCore_Init option \<Rightarrow> Cthread result" where
  "cthread_init state init =
    (let mk = (\<lambda>old. Inr \<lparr>ct_state = STATE_HALTED, ct_signal = HALT_S, ct_old_signal = old,
                           ct_core = vcore_init init\<rparr>)
     in case state of
          STATE_STARTED \<Rightarrow> mk START_S
        | STATE_STOPPED \<Rightarrow> mk STOP_S
        | STATE_SUSPENDED \<Rightarrow> mk SUSPEND_S
        | _ \<Rightarrow> Inl (Crash ''WRONG cthread STATE INITIALIZATION''))"

text \<open>
  \<open>cthread_run\<close> with the results of the three pthread calls: the thread it creates starts at \<open>At_Lock\<close>
  below.
\<close>

record pthread_calls =
  pc_attr_init :: int
  pc_setdetachstate :: int
  pc_create :: int

definition cthread_run :: "pthread_calls \<Rightarrow> unit result" where
  "cthread_run r =
    (if pc_attr_init r \<noteq> 0 then Inl (Crash ''pcthread_attr_init failed'')
     else if pc_setdetachstate r \<noteq> 0 then Inl (Crash ''pcthread_attr_setdetachstate failed'')
     else if pc_create r \<noteq> 0 then Inl (Crash ''pcthread_create failed'')
     else Inr ())"

section \<open>Hart state management signals\<close>

definition debug_state :: "cthread_state \<Rightarrow> bool" where
  "debug_state st \<longleftrightarrow>
     st = STATE_HALTED \<or> st = STATE_HALT_PENDING \<or> st = STATE_CONTINUE_PENDING \<or> st = STATE_STEPPING"

text \<open>
  The three values the \<open>switch\<close> of \<open>cthread_signal_hsm\<close> computes. The other two signals never
  reach it (its callers are the three functions below); its \<open>default\<close> leaves \<open>next_state\<close>
  uninitialised.
\<close>

definition hsm_save :: "cthread_signal \<Rightarrow> Cthread \<Rightarrow> bool" where
  "hsm_save signal c = (case signal of
     START_S \<Rightarrow> ct_old_signal c = STOP_S \<or> ct_old_signal c = SUSPEND_S
   | STOP_S \<Rightarrow> ct_old_signal c = START_S
   | SUSPEND_S \<Rightarrow> ct_old_signal c = START_S
   | _ \<Rightarrow> False)"

definition hsm_leave :: "cthread_signal \<Rightarrow> Cthread \<Rightarrow> bool" where
  "hsm_leave signal c = (case signal of
     START_S \<Rightarrow> ct_state c \<noteq> STATE_STOPPED \<and> ct_state c \<noteq> STATE_SUSPENDED
   | STOP_S \<Rightarrow> ct_state c \<noteq> STATE_STARTED
   | SUSPEND_S \<Rightarrow> ct_state c \<noteq> STATE_STARTED
   | _ \<Rightarrow> False)"

definition hsm_next :: "cthread_signal \<Rightarrow> Cthread \<Rightarrow> cthread_state option" where
  "hsm_next signal c = (case signal of
     START_S \<Rightarrow> Some (if ct_state c = STATE_STOPPED then STATE_START_PENDING else STATE_RESUME_PENDING)
   | STOP_S \<Rightarrow> Some STATE_STOP_PENDING
   | SUSPEND_S \<Rightarrow> Some STATE_SUSPEND_PENDING
   | _ \<Rightarrow> None)"

definition cthread_signal_hsm :: "cthread_signal \<Rightarrow> Cthread \<Rightarrow> Cthread result" where
  "cthread_signal_hsm signal c =
    (let c1 = (if debug_state (ct_state c) \<and> hsm_save signal c then c\<lparr>ct_old_signal := signal\<rparr> else c)
     in if hsm_leave signal c then Inr c1
        else (case hsm_next signal c of
                None \<Rightarrow> Inl (Undefined ''next_state'')
              | Some next \<Rightarrow>
                  Inr (set_exit_flag (signal \<noteq> START_S)
                    (c1\<lparr>ct_signal := signal, ct_old_signal := signal, ct_state := next\<rparr>))))"

definition cthread_signal_start :: "Cthread \<Rightarrow> Cthread result" where
  "cthread_signal_start c = cthread_signal_hsm START_S c"

definition cthread_signal_stop :: "Cthread \<Rightarrow> Cthread result" where
  "cthread_signal_stop c = cthread_signal_hsm STOP_S c"

definition cthread_signal_suspend :: "Cthread \<Rightarrow> Cthread result" where
  "cthread_signal_suspend c = cthread_signal_hsm SUSPEND_S c"

section \<open>Debugger signals\<close>

definition cthread_signal_continue :: "Cthread \<Rightarrow> Cthread result" where
  "cthread_signal_continue c =
    (if ct_state c \<noteq> STATE_HALTED \<and> ct_state c \<noteq> STATE_HALT_PENDING then Inr c
     else if ct_old_signal c = HALT_S \<or> ct_old_signal c = STEP_S
     then Inl (Assert_Failed ''[HSM](CONTINUE): OLD SIGNAL INVARIANT BROKEN'')
     else let c1 = c\<lparr>ct_signal := ct_old_signal c\<rparr>;
              c2 = set_exit_flag (ct_signal c1 \<noteq> START_S) c1
          in Inr (c2\<lparr>ct_state := STATE_CONTINUE_PENDING\<rparr>))"

definition cthread_signal_halt :: "Cthread \<Rightarrow> Cthread" where
  "cthread_signal_halt c =
    (if ct_state c = STATE_HALTED \<or> ct_state c = STATE_HALT_PENDING then c
     else set_exit_flag True (c\<lparr>ct_signal := HALT_S, ct_state := STATE_HALT_PENDING\<rparr>))"

text \<open>
  \<open>cthread_signal_step\<close> up to its first wait, between its two waits, and the conditions the waits
  end on.
\<close>

definition step_request :: "Cthread \<Rightarrow> Cthread result" where
  "step_request c =
    (if ct_state c \<noteq> STATE_HALTED
     then Inl (Assert_Failed ''[HSM](STEP): HALT STATE INVARIANT BROKEN (ignore during testing)'')
     else Inr (set_exit_flag True (c\<lparr>ct_signal := STEP_S\<rparr>)))"

definition step_started :: "Cthread \<Rightarrow> bool" where
  "step_started c \<longleftrightarrow> ct_state c = STATE_STEPPING"

definition step_release :: "Cthread \<Rightarrow> Cthread" where
  "step_release c = c\<lparr>ct_signal := HALT_S\<rparr>"

definition step_done :: "Cthread \<Rightarrow> bool" where
  "step_done c \<longleftrightarrow> ct_state c = STATE_HALTED"

section \<open>Observers\<close>

definition cthread_get_state :: "Cthread \<Rightarrow> cthread_state" where
  "cthread_get_state c = ct_state c"

definition cthread_get_hsm_state :: "Cthread \<Rightarrow> cthread_state" where
  "cthread_get_hsm_state c = (case ct_state c of
     STATE_HALTED \<Rightarrow> signal_state (ct_old_signal c)
   | STATE_STEPPING \<Rightarrow> signal_state (ct_old_signal c)
   | STATE_HALT_PENDING \<Rightarrow> signal_state (ct_old_signal c)
   | st \<Rightarrow> st)"

section \<open>The core's own thread\<close>

text \<open>
  Where the thread is when it does not hold the mutex: before the lock of \<open>cthread_fsm\<close>, asleep in
  \<open>cthread_wait_on_sign\<close>, before an instruction of \<open>vcore_run\<close>, before the load of the exit flag
  that follows it, or returned from \<open>vcore_run\<close> and before the lock. The flag of the last three
  tells the run of a single step from a free run. \<open>Dead\<close> is an ended process.
\<close>

datatype thread_pc =
  At_Lock | Waiting cthread_signal | Exec bool | Poll bool | Returned bool | Dead stop

text \<open>The body of the \<open>while\<close> of \<open>cthread_wait_on_sign\<close> once its test has succeeded.\<close>

definition wait_ack :: "cthread_signal \<Rightarrow> Cthread \<Rightarrow> Cthread" where
  "wait_ack signal c =
    (if ct_state c \<noteq> signal_state signal then c\<lparr>ct_state := signal_state signal\<rparr> else c)"

text \<open>After the wait: what \<open>cthread_fsm\<close> does until it next lets go of the mutex.\<close>

definition fsm_after_wait :: "cthread_signal \<Rightarrow> Cthread \<Rightarrow> thread_pc" where
  "fsm_after_wait signal c =
    (if signal = STEP_S \<and> ct_old_signal c = START_S then Exec True else At_Lock)"

definition cthread_wait_on_sign :: "Cthread \<Rightarrow> cthread_signal \<Rightarrow> Cthread \<times> thread_pc" where
  "cthread_wait_on_sign c signal =
    (if ct_signal c = signal then (wait_ack signal c, Waiting signal) else (c, fsm_after_wait signal c))"

definition cthread_fsm :: "Cthread \<Rightarrow> Cthread \<times> thread_pc" where
  "cthread_fsm c = (case ct_signal c of
     STOP_S \<Rightarrow> cthread_wait_on_sign c STOP_S
   | HALT_S \<Rightarrow> cthread_wait_on_sign c HALT_S
   | START_S \<Rightarrow> ((set_exit_flag False c)\<lparr>ct_state := STATE_STARTED\<rparr>, Exec False)
   | SUSPEND_S \<Rightarrow> cthread_wait_on_sign c SUSPEND_S
   | STEP_S \<Rightarrow> cthread_wait_on_sign (set_exit_flag True c) STEP_S)"

definition fsm_after_run :: "bool \<Rightarrow> Cthread \<Rightarrow> thread_pc" where
  "fsm_after_run stepping c =
    (if stepping \<or> exit_flag c then At_Lock
     else Dead (Assert_Failed ''[HSM]: HOT LOOP INVARIANT BROKEN''))"

text \<open>One step of the thread; \<open>turn\<close> is what an instruction of \<open>vcore_run\<close> does to its core.\<close>

definition thread_step :: "(VCore \<Rightarrow> VCore) \<Rightarrow> Cthread \<times> thread_pc \<Rightarrow> Cthread \<times> thread_pc" where
  "thread_step turn cp = (case cp of
     (c, At_Lock) \<Rightarrow> cthread_fsm c
   | (c, Waiting signal) \<Rightarrow> cthread_wait_on_sign c signal
   | (c, Exec b) \<Rightarrow> (c\<lparr>ct_core := turn (ct_core c)\<rparr>, Poll b)
   | (c, Poll b) \<Rightarrow> (c, if exit_flag c then Returned b else Exec b)
   | (c, Returned b) \<Rightarrow> (c, fsm_after_run b c)
   | (c, Dead e) \<Rightarrow> (c, Dead e))"

section \<open>Single operations\<close>

definition run_signal :: "cthread_signal \<Rightarrow> bool" where
  "run_signal g \<longleftrightarrow> g = START_S \<or> g = STOP_S \<or> g = SUSPEND_S"

lemma run_signal_simps [simp]:
  "run_signal START_S" "run_signal STOP_S" "run_signal SUSPEND_S" "\<not> run_signal HALT_S"
  "\<not> run_signal STEP_S"
  by (simp_all add: run_signal_def)

lemma run_signalE: "run_signal g \<Longrightarrow> (g = START_S \<Longrightarrow> P) \<Longrightarrow> (g = STOP_S \<Longrightarrow> P) \<Longrightarrow> (g = SUSPEND_S \<Longrightarrow> P) \<Longrightarrow> P"
  by (auto simp: run_signal_def)

lemma cthread_init_ok:
  "cthread_init state init = Inr c \<Longrightarrow>
     ct_state c = STATE_HALTED \<and> ct_signal c = HALT_S \<and> run_signal (ct_old_signal c)
     \<and> signal_state (ct_old_signal c) = state \<and> \<not> exit_flag c"
  by (cases init)
    (auto simp: cthread_init_def Let_def exit_flag_def vcore_init_def zero_core_def
      split: cthread_state.splits)

lemma signal_hsm_total: "run_signal g \<Longrightarrow> \<exists>c'. cthread_signal_hsm g c = Inr c'"
  by (erule run_signalE) (simp_all add: cthread_signal_hsm_def hsm_next_def Let_def)

lemma signal_hsm_old:
  "run_signal g \<Longrightarrow> run_signal (ct_old_signal c) \<Longrightarrow> cthread_signal_hsm g c = Inr c' \<Longrightarrow>
     run_signal (ct_old_signal c')"
  by (erule run_signalE)
    (auto simp: cthread_signal_hsm_def hsm_next_def hsm_leave_def Let_def thread_simps split: if_splits)

lemma signal_start_eq:
  "cthread_signal_start c = Inr
     (if ct_state c = STATE_STOPPED \<or> ct_state c = STATE_SUSPENDED
      then set_exit_flag False (c\<lparr>ct_signal := START_S, ct_old_signal := START_S,
        ct_state := (if ct_state c = STATE_STOPPED then STATE_START_PENDING else STATE_RESUME_PENDING)\<rparr>)
      else if debug_state (ct_state c) \<and> (ct_old_signal c = STOP_S \<or> ct_old_signal c = SUSPEND_S)
      then c\<lparr>ct_old_signal := START_S\<rparr> else c)"
  by (simp add: cthread_signal_start_def cthread_signal_hsm_def hsm_save_def hsm_leave_def hsm_next_def
      debug_state_def Let_def)

lemma signal_stop_eq:
  "cthread_signal_stop c = Inr
     (if ct_state c = STATE_STARTED
      then set_exit_flag True (c\<lparr>ct_signal := STOP_S, ct_old_signal := STOP_S,
        ct_state := STATE_STOP_PENDING\<rparr>)
      else if debug_state (ct_state c) \<and> ct_old_signal c = START_S
      then c\<lparr>ct_old_signal := STOP_S\<rparr> else c)"
  by (simp add: cthread_signal_stop_def cthread_signal_hsm_def hsm_save_def hsm_leave_def hsm_next_def
      debug_state_def Let_def)

lemma signal_suspend_eq:
  "cthread_signal_suspend c = Inr
     (if ct_state c = STATE_STARTED
      then set_exit_flag True (c\<lparr>ct_signal := SUSPEND_S, ct_old_signal := SUSPEND_S,
        ct_state := STATE_SUSPEND_PENDING\<rparr>)
      else if debug_state (ct_state c) \<and> ct_old_signal c = START_S
      then c\<lparr>ct_old_signal := SUSPEND_S\<rparr> else c)"
  by (simp add: cthread_signal_suspend_def cthread_signal_hsm_def hsm_save_def hsm_leave_def hsm_next_def
      debug_state_def Let_def)

text \<open>
  An HSM request to a core is either accepted at once (start from stopped or suspended, stop
  and suspend from started: the pending state is entered and the exit flag set accordingly), or,
  while the debugger holds the core, remembered as the state to restore exactly when it differs in
  kind from the one already remembered, or ignored; whatever the case, a halted core stays halted.
\<close>

theorem hsm_request:
  "cthread_signal_start c = Inr
     (if ct_state c = STATE_STOPPED \<or> ct_state c = STATE_SUSPENDED
      then set_exit_flag False (c\<lparr>ct_signal := START_S, ct_old_signal := START_S,
        ct_state := (if ct_state c = STATE_STOPPED then STATE_START_PENDING else STATE_RESUME_PENDING)\<rparr>)
      else if debug_state (ct_state c) \<and> (ct_old_signal c = STOP_S \<or> ct_old_signal c = SUSPEND_S)
      then c\<lparr>ct_old_signal := START_S\<rparr> else c)
   \<and> cthread_signal_stop c = Inr
     (if ct_state c = STATE_STARTED
      then set_exit_flag True (c\<lparr>ct_signal := STOP_S, ct_old_signal := STOP_S,
        ct_state := STATE_STOP_PENDING\<rparr>)
      else if debug_state (ct_state c) \<and> ct_old_signal c = START_S
      then c\<lparr>ct_old_signal := STOP_S\<rparr> else c)
   \<and> cthread_signal_suspend c = Inr
     (if ct_state c = STATE_STARTED
      then set_exit_flag True (c\<lparr>ct_signal := SUSPEND_S, ct_old_signal := SUSPEND_S,
        ct_state := STATE_SUSPEND_PENDING\<rparr>)
      else if debug_state (ct_state c) \<and> ct_old_signal c = START_S
      then c\<lparr>ct_old_signal := SUSPEND_S\<rparr> else c)"
  by (simp only: signal_start_eq signal_stop_eq signal_suspend_eq simp_thms)

end
