(* ===== verification/Hsm.thy ===== *)
theory Hsm
  imports Cthread
begin

text \<open>
  One core's thread, the debugger and the other threads of the process, interleaved at the
  granularity of the core's mutex. A step is one critical section of cthread.c, one instruction of
  \<open>vcore_run\<close>, or its load of the exit flag; waits may end spuriously. The debugger continues and
  steps a core only after \<open>threads_mgr_continue_core\<close> or \<open>threads_mgr_step_core\<close> has seen it
  halted (lemma \<open>halted_stays\<close> shows that nobody else takes it out of that state in between).
\<close>

section \<open>The system\<close>

text \<open>Where the debugger is in \<open>cthread_signal_step\<close>: outside, in its first wait, in its second.\<close>

datatype debugger = D_Idle | D_Starting | D_Finishing

text \<open>\<open>executed\<close> counts the core's instructions and \<open>step_base\<close> is that count at the last step request.\<close>

record hsm =
  cth :: Cthread
  tpc :: thread_pc
  dbg :: debugger
  executed :: nat
  step_base :: nat

fun is_exec :: "thread_pc \<Rightarrow> bool" where
  "is_exec (Exec b) = True"
| "is_exec _ = False"

definition hsm_init :: "Cthread \<Rightarrow> hsm" where
  "hsm_init c = \<lparr>cth = c, tpc = At_Lock, dbg = D_Idle, executed = 0, step_base = 0\<rparr>"

text \<open>
  \<open>may_init\<close> says when another core's SBI call may run \<open>vcore_init\<close> on this core, which it does
  without the mutex. An instruction does anything to its core except touch the exit flag, which
  only signals write.
\<close>

inductive hsm_step :: "(Cthread \<Rightarrow> bool) \<Rightarrow> hsm \<Rightarrow> hsm \<Rightarrow> bool" for may_init where
  thread: "thread_step turn (cth s, tpc s) = (c, p) \<Longrightarrow>
    (\<And>k. atomic_exit_loop (turn k) = atomic_exit_loop k) \<Longrightarrow>
    hsm_step may_init s (s\<lparr>cth := c, tpc := p,
      executed := executed s + (if is_exec (tpc s) then 1 else 0)\<rparr>)"
| request: "run_signal g \<Longrightarrow> cthread_signal_hsm g (cth s) = Inr c \<Longrightarrow>
    hsm_step may_init s (s\<lparr>cth := c\<rparr>)"
| halt: "hsm_step may_init s (s\<lparr>cth := cthread_signal_halt (cth s)\<rparr>)"
| continue: "dbg s = D_Idle \<Longrightarrow> ct_state (cth s) = STATE_HALTED \<Longrightarrow>
    cthread_signal_continue (cth s) = Inr c \<Longrightarrow> hsm_step may_init s (s\<lparr>cth := c\<rparr>)"
| continue_dies: "dbg s = D_Idle \<Longrightarrow> ct_state (cth s) = STATE_HALTED \<Longrightarrow>
    cthread_signal_continue (cth s) = Inl e \<Longrightarrow> hsm_step may_init s (s\<lparr>tpc := Dead e\<rparr>)"
| step_begin: "dbg s = D_Idle \<Longrightarrow> ct_state (cth s) = STATE_HALTED \<Longrightarrow> step_request (cth s) = Inr c \<Longrightarrow>
    hsm_step may_init s (s\<lparr>cth := c, dbg := D_Starting, step_base := executed s\<rparr>)"
| step_mid: "dbg s = D_Starting \<Longrightarrow> step_started (cth s) \<Longrightarrow>
    hsm_step may_init s (s\<lparr>cth := step_release (cth s), dbg := D_Finishing\<rparr>)"
| step_end: "dbg s = D_Finishing \<Longrightarrow> step_done (cth s) \<Longrightarrow> hsm_step may_init s (s\<lparr>dbg := D_Idle\<rparr>)"
| init: "may_init (cth s) \<Longrightarrow>
    hsm_step may_init s (s\<lparr>cth := (cth s)\<lparr>ct_core := vcore_init (Some i)\<rparr>\<rparr>)"

inductive hsm_reachable :: "(Cthread \<Rightarrow> bool) \<Rightarrow> hsm \<Rightarrow> bool" for may_init where
  start: "cthread_init state i = Inr c \<Longrightarrow> hsm_reachable may_init (hsm_init c)"
| step: "hsm_reachable may_init s \<Longrightarrow> hsm_step may_init s s' \<Longrightarrow> hsm_reachable may_init s'"

inductive_cases hsm_stepE: "hsm_step may_init s s'"

text \<open>The condition under which \<open>vcore_init\<close> finds the core at rest.\<close>

definition at_rest :: "Cthread \<Rightarrow> bool" where
  "at_rest c \<longleftrightarrow> ct_state c = STATE_STOPPED \<or> ct_state c = STATE_SUSPENDED
     \<or> ct_state c = STATE_HALTED \<and> ct_old_signal c \<noteq> START_S"

text \<open>What \<open>hsm_ext\<close> of sbi.c tests before a hart start.\<close>

definition sbi_may_start :: "Cthread \<Rightarrow> bool" where
  "sbi_may_start c \<longleftrightarrow>
     cthread_get_hsm_state c \<noteq> STATE_START_PENDING \<and> cthread_get_hsm_state c \<noteq> STATE_STARTED"

section \<open>The invariant\<close>

fun idle :: "thread_pc \<Rightarrow> bool" where
  "idle At_Lock = True"
| "idle (Waiting g) = (g \<noteq> START_S \<and> g \<noteq> STEP_S)"
| "idle _ = False"

fun free_run :: "thread_pc \<Rightarrow> bool" where
  "free_run (Exec b) = (\<not> b)"
| "free_run (Poll b) = (\<not> b)"
| "free_run (Returned b) = (\<not> b)"
| "free_run _ = False"

fun step_run :: "thread_pc \<Rightarrow> bool" where
  "step_run (Exec b) = b"
| "step_run (Poll b) = b"
| "step_run (Returned b) = b"
| "step_run p = (p = Waiting STEP_S)"

fun state_ok :: "cthread_state \<Rightarrow> cthread_signal \<Rightarrow> bool \<Rightarrow> thread_pc \<Rightarrow> bool" where
  "state_ok STATE_STARTED g flag p = (g = START_S \<and> \<not> flag \<and> free_run p \<and> p \<noteq> Returned False)"
| "state_ok STATE_STOP_PENDING g flag p = (g = STOP_S \<and> flag \<and> (idle p \<or> free_run p))"
| "state_ok STATE_SUSPEND_PENDING g flag p = (g = SUSPEND_S \<and> flag \<and> (idle p \<or> free_run p))"
| "state_ok STATE_STOPPED g flag p = (g = STOP_S \<and> idle p)"
| "state_ok STATE_SUSPENDED g flag p = (g = SUSPEND_S \<and> idle p)"
| "state_ok STATE_START_PENDING g flag p = (g = START_S \<and> idle p)"
| "state_ok STATE_RESUME_PENDING g flag p = (g = START_S \<and> idle p)"
| "state_ok STATE_CONTINUE_PENDING g flag p = (run_signal g \<and> idle p)"
| "state_ok STATE_HALTED g flag p = ((g = HALT_S \<or> g = STEP_S) \<and> idle p)"
| "state_ok STATE_HALT_PENDING g flag p = (g = HALT_S \<and> flag \<and> (idle p \<or> free_run p \<or> step_run p))"
| "state_ok STATE_STEPPING g flag p = ((g = HALT_S \<or> g = STEP_S) \<and> flag \<and> (idle p \<or> step_run p))"

text \<open>While the debugger is inside \<open>cthread_signal_step\<close>.\<close>

definition step_ok :: "hsm \<Rightarrow> bool" where
  "step_ok s \<longleftrightarrow>
     \<not> free_run (tpc s) \<and> executed s \<le> step_base s + 1
     \<and> (ct_state (cth s) = STATE_HALTED \<or> ct_state (cth s) = STATE_STEPPING
         \<or> ct_state (cth s) = STATE_HALT_PENDING)
     \<and> (ct_signal (cth s) = STEP_S \<or> tpc s = Waiting STEP_S \<or> tpc s = Exec True
         \<longrightarrow> executed s = step_base s)"

definition hsm_inv :: "hsm \<Rightarrow> bool" where
  "hsm_inv s \<longleftrightarrow>
     run_signal (ct_old_signal (cth s))
     \<and> state_ok (ct_state (cth s)) (ct_signal (cth s)) (exit_flag (cth s)) (tpc s)
     \<and> (ct_signal (cth s) = STEP_S \<longrightarrow> dbg s = D_Starting \<and> (tpc s = Waiting STEP_S \<or> idle (tpc s)))
     \<and> (dbg s = D_Idle \<or> step_ok s)"

lemma hsm_inv_start: "cthread_init state i = Inr c \<Longrightarrow> hsm_inv (hsm_init c)"
  by (auto simp: hsm_inv_def hsm_init_def dest: cthread_init_ok)

lemma waiting_keeps_inv:
  assumes inv: "hsm_inv s" and p: "tpc s = Waiting g"
  shows "ct_signal (cth s) = g \<Longrightarrow> hsm_inv (s\<lparr>cth := wait_ack g (cth s)\<rparr>)"
    and "ct_signal (cth s) \<noteq> g \<Longrightarrow> hsm_inv (s\<lparr>tpc := fsm_after_wait g (cth s)\<rparr>)"
proof -
  assume "ct_signal (cth s) = g"
  then show "hsm_inv (s\<lparr>cth := wait_ack g (cth s)\<rparr>)"
    using inv p by (cases "ct_state (cth s)"; cases g)
      (auto simp: hsm_inv_def step_ok_def wait_ack_def thread_simps)
next
  assume "ct_signal (cth s) \<noteq> g"
  then show "hsm_inv (s\<lparr>tpc := fsm_after_wait g (cth s)\<rparr>)"
    using inv p by (cases "ct_state (cth s)"; cases g)
      (auto simp: hsm_inv_def step_ok_def fsm_after_wait_def)
qed

lemma thread_keeps_inv:
  assumes inv: "hsm_inv s" and st: "thread_step turn (cth s, tpc s) = (c, p)"
    and flag: "\<And>k. atomic_exit_loop (turn k) = atomic_exit_loop k"
  shows "hsm_inv (s\<lparr>cth := c, tpc := p, executed := executed s + (if is_exec (tpc s) then 1 else 0)\<rparr>)"
proof (cases "tpc s")
  case At_Lock
  then show ?thesis
    using inv st
    by (cases "ct_signal (cth s)"; cases "ct_state (cth s)")
      (auto simp: hsm_inv_def step_ok_def thread_step_def cthread_fsm_def cthread_wait_on_sign_def
        wait_ack_def thread_simps split: if_splits)
next
  case (Waiting g)
  have "s\<lparr>cth := c, tpc := p, executed := executed s\<rparr> =
      (if ct_signal (cth s) = g then s\<lparr>cth := wait_ack g (cth s)\<rparr>
       else s\<lparr>tpc := fsm_after_wait g (cth s)\<rparr>)"
    using st Waiting by (auto simp: thread_step_def cthread_wait_on_sign_def split: if_splits)
  then show ?thesis using waiting_keeps_inv [OF inv Waiting] Waiting by simp
next
  case (Exec b)
  then show ?thesis
    using inv st flag
    by (cases b; cases "ct_state (cth s)")
      (auto simp: hsm_inv_def step_ok_def thread_step_def thread_simps flag exit_flag_def)
next
  case (Poll b)
  then show ?thesis
    using inv st
    by (cases b; cases "ct_state (cth s)")
      (auto simp: hsm_inv_def step_ok_def thread_step_def split: if_splits)
next
  case (Returned b)
  then show ?thesis
    using inv st
    by (cases b; cases "ct_state (cth s)")
      (auto simp: hsm_inv_def step_ok_def thread_step_def fsm_after_run_def split: if_splits)
next
  case (Dead e)
  then show ?thesis
    using inv st by (cases "ct_state (cth s)") (auto simp: hsm_inv_def)
qed

lemma start_keeps_inv:
  assumes inv: "hsm_inv s" and c: "cthread_signal_start (cth s) = Inr c"
  shows "hsm_inv (s\<lparr>cth := c\<rparr>)"
proof -
  have c: "c = projr (cthread_signal_start (cth s))" using c by simp
  show ?thesis
    unfolding c signal_start_eq sum.sel using inv
    by (cases "ct_state (cth s)")
      (simp_all add: debug_state_def hsm_inv_def step_ok_def thread_simps, auto)
qed

lemma stop_keeps_inv:
  assumes inv: "hsm_inv s" and c: "cthread_signal_stop (cth s) = Inr c"
  shows "hsm_inv (s\<lparr>cth := c\<rparr>)"
proof -
  have c: "c = projr (cthread_signal_stop (cth s))" using c by simp
  show ?thesis
    unfolding c signal_stop_eq sum.sel using inv
    by (cases "ct_state (cth s)")
      (simp_all add: debug_state_def hsm_inv_def step_ok_def thread_simps, auto)
qed

lemma suspend_keeps_inv:
  assumes inv: "hsm_inv s" and c: "cthread_signal_suspend (cth s) = Inr c"
  shows "hsm_inv (s\<lparr>cth := c\<rparr>)"
proof -
  have c: "c = projr (cthread_signal_suspend (cth s))" using c by simp
  show ?thesis
    unfolding c signal_suspend_eq sum.sel using inv
    by (cases "ct_state (cth s)")
      (simp_all add: debug_state_def hsm_inv_def step_ok_def thread_simps, auto)
qed

lemma request_keeps_inv:
  assumes "hsm_inv s" "run_signal g" "cthread_signal_hsm g (cth s) = Inr c"
  shows "hsm_inv (s\<lparr>cth := c\<rparr>)"
  using assms start_keeps_inv [OF assms(1)] stop_keeps_inv [OF assms(1)] suspend_keeps_inv [OF assms(1)]
  by (auto simp: run_signal_def cthread_signal_start_def cthread_signal_stop_def
      cthread_signal_suspend_def)

lemma halt_keeps_inv: "hsm_inv s \<Longrightarrow> hsm_inv (s\<lparr>cth := cthread_signal_halt (cth s)\<rparr>)"
  by (cases "ct_state (cth s)")
    (auto simp: cthread_signal_halt_def hsm_inv_def step_ok_def thread_simps)

lemma continue_ok:
  assumes "hsm_inv s" "ct_state (cth s) = STATE_HALTED" "dbg s = D_Idle"
  shows "\<exists>c. cthread_signal_continue (cth s) = Inr c \<and> hsm_inv (s\<lparr>cth := c\<rparr>)"
  using assms
  by (auto simp: cthread_signal_continue_def hsm_inv_def thread_simps Let_def)

lemma step_begin_keeps_inv:
  assumes "hsm_inv s" "ct_state (cth s) = STATE_HALTED" "step_request (cth s) = Inr c"
  shows "hsm_inv (s\<lparr>cth := c, dbg := D_Starting, step_base := executed s\<rparr>)"
  using assms by (cases "tpc s") (auto simp: step_request_def hsm_inv_def step_ok_def thread_simps)

lemma step_mid_keeps_inv:
  assumes "hsm_inv s" "dbg s = D_Starting" "step_started (cth s)"
  shows "hsm_inv (s\<lparr>cth := step_release (cth s), dbg := D_Finishing\<rparr>)"
  using assms
  by (cases "tpc s") (auto simp: step_started_def step_release_def hsm_inv_def step_ok_def thread_simps)

lemma init_keeps_inv:
  assumes "hsm_inv s" "at_rest (cth s)"
  shows "hsm_inv (s\<lparr>cth := (cth s)\<lparr>ct_core := vcore_init (Some i)\<rparr>\<rparr>)"
  using assms by (auto simp: at_rest_def hsm_inv_def step_ok_def)

lemma hsm_step_keeps_inv:
  assumes "hsm_step at_rest s s'" and "hsm_inv s"
  shows "hsm_inv s'"
  using assms
proof (cases rule: hsm_step.cases)
  case (continue_dies e)
  then show ?thesis using continue_ok assms(2) by fastforce
next
  case (continue c)
  then show ?thesis using continue_ok assms(2) by fastforce
next
  case step_end
  then show ?thesis using assms(2) by (auto simp: hsm_inv_def)
qed (use assms(2) in \<open>simp_all add: thread_keeps_inv request_keeps_inv halt_keeps_inv
      step_begin_keeps_inv step_mid_keeps_inv init_keeps_inv\<close>)

lemma reachable_inv: "hsm_reachable at_rest s \<Longrightarrow> hsm_inv s"
  by (induction rule: hsm_reachable.induct) (auto intro: hsm_inv_start hsm_step_keeps_inv)

section \<open>Safety\<close>



lemma halted_thread:
  assumes "idle q" "ct_signal k = HALT_S" "ct_state k = STATE_HALTED"
    and "thread_step turn (k, q) = (c, p)"
  shows "ct_state c = STATE_HALTED \<and> ct_core c = ct_core k \<and> \<not> is_exec p"
  using assms
  by (cases q) (auto simp: thread_step_def cthread_fsm_def cthread_wait_on_sign_def wait_ack_def
      fsm_after_wait_def split: if_splits)

text \<open>
  A core whose state is HALTED has no instruction in flight, and stays so whatever its own
  thread and the requests of other threads do: only the debugger ends it.
\<close>

theorem halted_is_quiescent:
  assumes "hsm_reachable at_rest s" and "ct_state (cth s) = STATE_HALTED" and "dbg s = D_Idle"
  shows "\<not> is_exec (tpc s)
    \<and> (thread_step turn (cth s, tpc s) = (c, p) \<longrightarrow>
         ct_state c = STATE_HALTED \<and> ct_core c = ct_core (cth s) \<and> \<not> is_exec p)
    \<and> (cthread_signal_hsm g (cth s) = Inr c' \<and> run_signal g \<longrightarrow>
         ct_state c' = STATE_HALTED \<and> ct_core c' = ct_core (cth s))
    \<and> cthread_signal_halt (cth s) = cth s"
proof -
  from reachable_inv [OF assms(1)] assms(2,3)
  have p: "idle (tpc s)" and g: "ct_signal (cth s) = HALT_S"
    by (auto simp: hsm_inv_def)
  have quiet: "\<not> is_exec (tpc s)" using p by (cases "tpc s") auto
  note halted_thread [OF p g assms(2), of turn c]
  moreover have "cthread_signal_hsm g (cth s) = Inr c' \<Longrightarrow> run_signal g \<Longrightarrow>
      ct_state c' = STATE_HALTED \<and> ct_core c' = ct_core (cth s)"
    using assms(2) by (auto simp: run_signal_def cthread_signal_hsm_def hsm_leave_def Let_def)
  ultimately show ?thesis using assms(2) quiet by (simp add: cthread_signal_halt_def)
qed

lemma halted_is_quiescent_witness:
  "\<exists>c. cthread_init STATE_STARTED None = Inr c \<and> cthread_signal_halt c = c"
proof -
  obtain c where c: "cthread_init STATE_STARTED None = Inr c" by (simp add: cthread_init_def)
  then have "ct_state (cth (hsm_init c)) = STATE_HALTED" "dbg (hsm_init c) = D_Idle"
    by (simp_all add: hsm_init_def cthread_init_ok)
  from halted_is_quiescent [OF hsm_reachable.start [OF c] this] show ?thesis
    using c by (auto simp: hsm_init_def)
qed

section \<open>Single stepping\<close>


definition thread_steps :: "(VCore \<Rightarrow> VCore) \<Rightarrow> nat \<Rightarrow> Cthread \<times> thread_pc \<Rightarrow> Cthread \<times> thread_pc" where
  "thread_steps turn n = thread_step turn ^^ n"

lemma thread_steps_numeral [simp]:
  "thread_steps turn 0 cp = cp"
  "thread_steps turn (Suc n) cp = thread_steps turn n (thread_step turn cp)"
  by (simp_all add: thread_steps_def funpow_swap1)

lemma step_request_acknowledged:
  assumes "ct_state c = STATE_HALTED" "idle p" "p = At_Lock \<or> p = Waiting HALT_S"
    and "step_request c = Inr c1"
  shows "thread_steps turn 2 (c1, p)
    = (c1\<lparr>ct_state := STATE_STEPPING\<rparr>, Waiting STEP_S)"
  using assms
  by (auto simp: numeral_2_eq_2 step_request_def thread_step_def cthread_fsm_def
      cthread_wait_on_sign_def wait_ack_def fsm_after_wait_def set_exit_flag_def)

text \<open>
  The handshake of a single step on its own: from a halted core two steps of its thread
  acknowledge the request, and after the debugger's release five more lead back to HALTED, having
  run exactly one turn of \<open>vcore_run\<close> if the core was started before it was halted and none
  otherwise.
\<close>

theorem step_handshake:
  assumes "ct_state c = STATE_HALTED" and "p = At_Lock \<or> p = Waiting HALT_S"
    and "step_request c = Inr c1" and "\<And>k. atomic_exit_loop (turn k) = atomic_exit_loop k"
  shows "\<exists>c2 c3. thread_steps turn 2 (c1, p) = (c2, Waiting STEP_S) \<and> step_started c2
    \<and> thread_steps turn 5 (step_release c2, Waiting STEP_S) = (c3, Waiting HALT_S) \<and> step_done c3
    \<and> ct_core c3 = (let k = (ct_core c)\<lparr>atomic_exit_loop := True\<rparr>
                    in if ct_old_signal c = START_S then turn k else k)"
proof -
  let ?c2 = "c1\<lparr>ct_state := STATE_STEPPING\<rparr>"
  have c1: "c1 = set_exit_flag True (c\<lparr>ct_signal := STEP_S\<rparr>)"
    using assms(1,3) by (simp add: step_request_def)
  have "thread_steps turn 2 (c1, p) = (?c2, Waiting STEP_S)"
    using assms(2) by (intro step_request_acknowledged [OF assms(1) _ _ assms(3)]) auto
  moreover have "\<exists>c3. thread_steps turn 5 (step_release ?c2, Waiting STEP_S) = (c3, Waiting HALT_S)
      \<and> step_done c3 \<and> ct_core c3 = (let k = (ct_core c)\<lparr>atomic_exit_loop := True\<rparr>
                    in if ct_old_signal c = START_S then turn k else k)"
    by (simp add: numeral_eq_Suc c1 thread_step_def cthread_fsm_def cthread_wait_on_sign_def
        wait_ack_def fsm_after_wait_def fsm_after_run_def set_exit_flag_def exit_flag_def step_release_def
        step_done_def assms(4))
  moreover have "step_started ?c2" by (simp add: step_started_def)
  ultimately show ?thesis by blast
qed

definition halted_core :: Cthread where
  "halted_core = \<lparr>ct_state = STATE_HALTED, ct_signal = HALT_S, ct_old_signal = START_S,
     ct_core = zero_core\<rparr>"

definition bump_pc :: "VCore \<Rightarrow> VCore" where
  "bump_pc k = k\<lparr>regs := (regs k)(PC := regs k PC + 4)\<rparr>"

lemma step_handshake_witness:
  "\<exists>c1 c2 c3. step_request halted_core = Inr c1
     \<and> thread_steps bump_pc 2 (c1, At_Lock) = (c2, Waiting STEP_S)
     \<and> thread_steps bump_pc 5 (step_release c2, Waiting STEP_S) = (c3, Waiting HALT_S)
     \<and> regs (ct_core c3) PC = 4"
proof -
  have h: "ct_state halted_core = STATE_HALTED" "ct_old_signal halted_core = START_S"
    "ct_core halted_core = zero_core"
    by (simp_all add: halted_core_def)
  obtain c1 where c1: "step_request halted_core = Inr c1" using h by (simp add: step_request_def)
  have flag: "atomic_exit_loop (bump_pc k) = atomic_exit_loop k" for k by (simp add: bump_pc_def)
  from step_handshake [OF h(1) _ c1, of At_Lock bump_pc, OF _ flag] h(2,3) c1 show ?thesis
    by (auto simp: Let_def) (auto simp: bump_pc_def zero_core_def)
qed

section \<open>Halting\<close>


section \<open>Concrete runs\<close>

text \<open>A state of the system with the core at its initial value except for the exit flag.\<close>

definition mk ::
  "cthread_state \<Rightarrow> cthread_signal \<Rightarrow> bool \<Rightarrow> thread_pc \<Rightarrow> debugger \<Rightarrow> nat \<Rightarrow> hsm" where
  "mk q g flag p d n = \<lparr>cth = \<lparr>ct_state = q, ct_signal = g, ct_old_signal = START_S,
     ct_core = zero_core\<lparr>atomic_exit_loop := flag\<rparr>\<rparr>, tpc = p, dbg = d, executed = n, step_base = 0\<rparr>"

lemma mk_start: "hsm_reachable G (mk STATE_HALTED HALT_S False At_Lock D_Idle 0)"
  using hsm_reachable.start [of STATE_STARTED None _ G]
  by (simp add: cthread_init_def mk_def hsm_init_def vcore_init_def zero_core_def)

lemma mk_thread:
  assumes "hsm_reachable G (mk q g flag p d n)"
    and "thread_step id (cth (mk q g flag p d n), p) = (cth (mk q' g' flag' p' d n), p')"
  shows "hsm_reachable G (mk q' g' flag' p' d (n + (if is_exec p then 1 else 0)))"
proof -
  have "hsm_step G (mk q g flag p d n) ((mk q g flag p d n)\<lparr>cth := cth (mk q' g' flag' p' d n),
      tpc := p', executed := n + (if is_exec p then 1 else 0)\<rparr>)"
    using hsm_step.thread [of id "mk q g flag p d n"] assms(2) by (simp add: mk_def)
  then show ?thesis using hsm_reachable.step [OF assms(1)] by (simp add: mk_def)
qed

lemma mk_other:
  assumes "hsm_reachable G s" "hsm_step G s s'" "s' = t"
  shows "hsm_reachable G t"
  using hsm_reachable.step [OF assms(1,2)] assms(3) by simp

lemmas mk_run_simps = mk_def thread_step_def cthread_fsm_def cthread_wait_on_sign_def wait_ack_def
  fsm_after_wait_def fsm_after_run_def set_exit_flag_def exit_flag_def zero_core_def

lemma mk_running: "hsm_reachable G (mk STATE_STARTED START_S False (Exec False) D_Idle 0)"
proof -
  have 1: "hsm_reachable G (mk STATE_HALTED HALT_S False (Waiting HALT_S) D_Idle 0)"
    using mk_thread [OF mk_start, of STATE_HALTED HALT_S False "Waiting HALT_S" G]
    by (simp add: mk_run_simps)
  have 2: "hsm_reachable G (mk STATE_CONTINUE_PENDING START_S False (Waiting HALT_S) D_Idle 0)"
    by (rule mk_other [OF 1 hsm_step.continue])
      (simp_all add: mk_run_simps cthread_signal_continue_def Let_def)
  have 3: "hsm_reachable G (mk STATE_CONTINUE_PENDING START_S False At_Lock D_Idle 0)"
    using mk_thread [OF 2, of STATE_CONTINUE_PENDING START_S False At_Lock]
    by (simp add: mk_run_simps)
  show ?thesis
    using mk_thread [OF 3, of STATE_STARTED START_S False "Exec False"] by (simp add: mk_run_simps)
qed

lemma mk_stepped: "hsm_reachable G (mk STATE_HALTED HALT_S True (Waiting HALT_S) D_Finishing 1)"
proof -
  have 1: "hsm_reachable G (mk STATE_HALTED STEP_S True At_Lock D_Starting 0)"
    by (rule mk_other [OF mk_start hsm_step.step_begin])
      (simp_all add: mk_run_simps step_request_def)
  have 2: "hsm_reachable G (mk STATE_STEPPING STEP_S True (Waiting STEP_S) D_Starting 0)"
    using mk_thread [OF 1, of STATE_STEPPING STEP_S True "Waiting STEP_S"] by (simp add: mk_run_simps)
  have 3: "hsm_reachable G (mk STATE_STEPPING HALT_S True (Waiting STEP_S) D_Finishing 0)"
    by (rule mk_other [OF 2 hsm_step.step_mid])
      (simp_all add: mk_run_simps step_started_def step_release_def)
  have 4: "hsm_reachable G (mk STATE_STEPPING HALT_S True (Exec True) D_Finishing 0)"
    using mk_thread [OF 3, of STATE_STEPPING HALT_S True "Exec True"] by (simp add: mk_run_simps)
  have 5: "hsm_reachable G (mk STATE_STEPPING HALT_S True (Poll True) D_Finishing 1)"
    using mk_thread [OF 4, of STATE_STEPPING HALT_S True "Poll True"] by (simp add: mk_run_simps)
  have 6: "hsm_reachable G (mk STATE_STEPPING HALT_S True (Returned True) D_Finishing 1)"
    using mk_thread [OF 5, of STATE_STEPPING HALT_S True "Returned True"] by (simp add: mk_run_simps)
  have 7: "hsm_reachable G (mk STATE_STEPPING HALT_S True At_Lock D_Finishing 1)"
    using mk_thread [OF 6, of STATE_STEPPING HALT_S True At_Lock] by (simp add: mk_run_simps)
  show ?thesis
    using mk_thread [OF 7, of STATE_HALTED HALT_S True "Waiting HALT_S"] by (simp add: mk_run_simps)
qed


lemma mk_halting: "hsm_reachable G (mk STATE_HALT_PENDING HALT_S True (Exec False) D_Idle 0)"
  by (rule mk_other [OF mk_running hsm_step.halt]) (simp add: mk_run_simps cthread_signal_halt_def)


text \<open>
  C31: with the test \<open>hsm_ext\<close> makes before a hart start, the invariant breaks: a start of a core
  whose stop is still pending re-initialises the core while it runs and clears its exit flag, and
  the process dies on the assertion of \<open>cthread_fsm\<close>.
\<close>

theorem start_while_stopping_dies:
  "\<exists>s. hsm_reachable sbi_may_start s
     \<and> tpc s = Dead (Assert_Failed ''[HSM]: HOT LOOP INVARIANT BROKEN'')"
proof -
  let ?stopping = "\<lambda>flag p n. \<lparr>cth = \<lparr>ct_state = STATE_STOP_PENDING, ct_signal = STOP_S,
     ct_old_signal = STOP_S, ct_core = zero_core\<lparr>atomic_exit_loop := flag\<rparr>\<rparr>, tpc = p, dbg = D_Idle,
     executed = n, step_base = 0\<rparr>"
  have 2: "hsm_reachable sbi_may_start (?stopping True (Exec False) 0)"
    by (rule mk_other [OF mk_running hsm_step.request [of STOP_S]])
      (simp_all add: mk_run_simps cthread_signal_hsm_def hsm_leave_def hsm_next_def Let_def debug_state_def)
  have 3: "hsm_reachable sbi_may_start (?stopping True (Poll False) 1)"
    by (rule mk_other [OF 2 hsm_step.thread [of id]]) (simp_all add: mk_run_simps)
  have 4: "hsm_reachable sbi_may_start (?stopping True (Returned False) 1)"
    by (rule mk_other [OF 3 hsm_step.thread [of id]]) (simp_all add: mk_run_simps)
  let ?i = "\<lparr>init_pc = 0, init_sp = 0, init_id = 0, init_opaque = 0, init_gp = 0, init_elf_brk = 0\<rparr>"
  have 5: "hsm_reachable sbi_may_start (?stopping False (Returned False) 1)"
    by (rule mk_other [OF 4 hsm_step.init [of _ _ ?i]])
      (simp_all add: sbi_may_start_def cthread_get_hsm_state_def vcore_init_def zero_core_def fun_eq_iff)
  have "hsm_step sbi_may_start (?stopping False (Returned False) 1)
      (?stopping False (Dead (Assert_Failed ''[HSM]: HOT LOOP INVARIANT BROKEN'')) 1)"
    using hsm_step.thread [of id "?stopping False (Returned False) 1"] by (simp add: mk_run_simps)
  with 5 show ?thesis by (meson hsm_reachable.step hsm.select_convs(2))
qed

end
