(* ===== verification/Threads_Mgr.thy ===== *)
theory Threads_Mgr
  imports Hsm
begin

text \<open>
  The manager of all cores' threads (src/src/threads_mgr2.h, threads_mgr2.c) and the part of
  main.c that starts them. The machine is the array \<open>threads_mgr.cthreads\<close> of \<open>ctx.cores\<close>
  entries, the index of the thread that is executing and \<open>ctx.debug\<close>; an index past the array is
  undefined behaviour. \<open>halt_all_n_run_mutex\<close> makes \<open>threads_mgr_halt_cores\<close> and
  \<open>threads_mgr_continue_cores\<close> atomic with respect to each other, as definitions are.
\<close>

record machine =
  cthreads :: "Cthread list"
  me :: nat
  ctx_debug :: bool

abbreviation ctx_cores :: "machine \<Rightarrow> nat" where
  "ctx_cores m \<equiv> length (cthreads m)"

definition out_of_cores :: stop where
  "out_of_cores = Undefined ''access outside cthreads''"

definition on_core :: "nat \<Rightarrow> (Cthread \<Rightarrow> Cthread result) \<Rightarrow> machine \<Rightarrow> machine result" where
  "on_core i f m =
     (if i < ctx_cores m
      then and_then (f (cthreads m ! i)) (\<lambda>c. Inr (m\<lparr>cthreads := (cthreads m)[i := c]\<rparr>))
      else Inl out_of_cores)"

section \<open>Operations\<close>

fun all_halted :: "Cthread list \<Rightarrow> bool" where
  "all_halted [] = True"
| "all_halted (c # cs) = (if cthread_get_state c \<noteq> STATE_HALTED then False else all_halted cs)"

definition threads_mgr_are_halted :: "machine \<Rightarrow> bool" where
  "threads_mgr_are_halted m = all_halted (cthreads m)"

definition zero_init :: VCore_Init where
  "zero_init = \<lparr>init_pc = 0, init_sp = 0, init_id = 0, init_opaque = 0, init_gp = 0, init_elf_brk = 0\<rparr>"

fun init_rest :: "nat list \<Rightarrow> Cthread list \<Rightarrow> Cthread list result" where
  "init_rest [] cs = Inr cs"
| "init_rest (i # is) cs =
     and_then (cthread_init STATE_STOPPED (Some (zero_init\<lparr>init_id := of_nat i\<rparr>)))
       (\<lambda>c. init_rest is (cs @ [c]))"

text \<open>\<open>threads_mgr_init\<close> before it creates the threads; \<open>alloc\<close> says whether \<open>malloc\<close> returned memory. Core 0 is written before the loop over the rest.\<close>

definition threads_mgr_init :: "bool \<Rightarrow> nat \<Rightarrow> bool \<Rightarrow> VCore_Init option \<Rightarrow> machine result" where
  "threads_mgr_init alloc cores debug core0_init =
     (if \<not> alloc then Inl (Crash ''OOM'')
      else if cores = 0 then Inl out_of_cores
      else and_then (cthread_init STATE_STARTED core0_init) (\<lambda>c0.
             and_then (init_rest [1..<cores] [c0]) (\<lambda>cs.
               Inr \<lparr>cthreads = cs, me = 0, ctx_debug = debug\<rparr>)))"

text \<open>The end of \<open>threads_mgr_init\<close>: the threads are created one after the other.\<close>

fun run_all :: "(nat \<Rightarrow> pthread_calls) \<Rightarrow> nat list \<Rightarrow> unit result" where
  "run_all calls [] = Inr ()"
| "run_all calls (i # is) = and_then (cthread_run (calls i)) (\<lambda>_. run_all calls is)"

definition threads_mgr_init_run :: "bool \<Rightarrow> (nat \<Rightarrow> pthread_calls) \<Rightarrow> nat \<Rightarrow> bool \<Rightarrow> VCore_Init option
    \<Rightarrow> machine result" where
  "threads_mgr_init_run alloc calls cores debug core0_init =
     and_then (threads_mgr_init alloc cores debug core0_init) (\<lambda>m.
     and_then (run_all calls [0..<cores]) (\<lambda>_. Inr m))"

definition threads_mgr_halt_cores :: "machine \<Rightarrow> machine" where
  "threads_mgr_halt_cores m = m\<lparr>cthreads := map cthread_signal_halt (cthreads m)\<rparr>"

definition threads_mgr_continue_core :: "nat \<Rightarrow> machine \<Rightarrow> machine result" where
  "threads_mgr_continue_core i m =
     (if \<not> ctx_debug m then Inl (Assert_Failed ''ctx.debug'')
      else if \<not> i < ctx_cores m then Inl out_of_cores
      else if cthread_get_state (cthreads m ! i) \<noteq> STATE_HALTED
      then Inl (Crash ''CONTINUE CORE BROKEN INVARIANT.'')
      else on_core i cthread_signal_continue m)"

text \<open>Up to the first wait of \<open>cthread_signal_step\<close>; theory \<open>Hsm\<close> has the rest.\<close>

definition threads_mgr_step_core :: "nat \<Rightarrow> machine \<Rightarrow> machine result" where
  "threads_mgr_step_core i m =
     (if \<not> ctx_debug m then Inl (Assert_Failed ''ctx.debug'')
      else if \<not> i < ctx_cores m then Inl out_of_cores
      else if cthread_get_state (cthreads m ! i) \<noteq> STATE_HALTED
      then Inl (Crash ''CONTINUE CORE BROKEN INVARIANT.'')
      else on_core i step_request m)"

fun continue_list :: "Cthread list \<Rightarrow> Cthread list result" where
  "continue_list [] = Inr []"
| "continue_list (c # cs) =
     and_then (cthread_signal_continue c) (\<lambda>c'. and_then (continue_list cs) (\<lambda>cs'. Inr (c' # cs')))"

text \<open>\<open>busy\<close>: \<open>pthread_mutex_trylock\<close> found a halt of all cores going on.\<close>

definition threads_mgr_continue_cores :: "bool \<Rightarrow> machine \<Rightarrow> machine result" where
  "threads_mgr_continue_cores busy m =
     (if busy then Inr m
      else if \<not> all_halted (cthreads m) then Inl (Crash ''CONTINUE ALL BROKEN INVARIANT.'')
      else and_then (continue_list (cthreads m)) (\<lambda>cs. Inr (m\<lparr>cthreads := cs\<rparr>)))"

text \<open>
  The end of \<open>main\<close>: without the debugger only core 0 is continued. With it the stub runs the
  manager's operations.
\<close>

definition main_start :: "machine \<Rightarrow> machine result" where
  "main_start m = (if ctx_debug m then Inr m else on_core 0 cthread_signal_continue m)"

section \<open>Properties\<close>

lemma all_halted_iff: "all_halted cs \<longleftrightarrow> (\<forall>c\<in>set cs. ct_state c = STATE_HALTED)"
  by (induction cs) (auto simp: cthread_get_state_def)

definition wf_machine :: "machine \<Rightarrow> bool" where
  "wf_machine m \<longleftrightarrow> (\<forall>c\<in>set (cthreads m). run_signal (ct_old_signal c))"

definition continued :: "Cthread \<Rightarrow> Cthread" where
  "continued c = (set_exit_flag (ct_old_signal c \<noteq> START_S) (c\<lparr>ct_signal := ct_old_signal c\<rparr>))
     \<lparr>ct_state := STATE_CONTINUE_PENDING\<rparr>"

lemma continued_simps [thread_simps]:
  "ct_signal (continued c) = ct_old_signal c" "exit_flag (continued c) = (ct_old_signal c \<noteq> START_S)"
  "ct_state (continued c) = STATE_CONTINUE_PENDING" "ct_old_signal (continued c) = ct_old_signal c"
  by (simp_all add: continued_def thread_simps)

lemma continue_halted:
  "ct_state c = STATE_HALTED \<Longrightarrow> run_signal (ct_old_signal c) \<Longrightarrow>
     cthread_signal_continue c = Inr (continued c)"
  by (auto simp: cthread_signal_continue_def continued_def run_signal_def Let_def)

lemma continue_list_halted:
  "(\<forall>c\<in>set cs. ct_state c = STATE_HALTED \<and> run_signal (ct_old_signal c)) \<Longrightarrow>
     continue_list cs = Inr (map continued cs)"
  by (induction cs) (auto simp: continue_halted)

definition stopped_core :: "nat \<Rightarrow> Cthread" where
  "stopped_core i = \<lparr>ct_state = STATE_HALTED, ct_signal = HALT_S,
     ct_old_signal = STOP_S, ct_core = vcore_init (Some (zero_init\<lparr>init_id := of_nat i\<rparr>))\<rparr>"

lemma stopped_core_simps:
  "ct_state (stopped_core i) = STATE_HALTED" "ct_old_signal (stopped_core i) = STOP_S"
  "core_idx (ct_core (stopped_core i)) = of_nat i" "regs (ct_core (stopped_core i)) 10 = of_nat i"
  "cthread_get_hsm_state (stopped_core i) = STATE_STOPPED"
  by (simp_all add: stopped_core_def vcore_init_def zero_init_def cthread_get_hsm_state_def)

lemma init_rest_eq: "init_rest is cs = Inr (cs @ map stopped_core is)"
  by (induction "is" arbitrary: cs) (simp_all add: cthread_init_def stopped_core_def)

text \<open>
  \<open>threads_mgr_init\<close> leaves every core halted, core 0 to be restored to started, the others to
  stopped with their index in A0 and \<open>core_idx\<close>; continuing all of them from there is accepted and
  restores exactly those states, with the exit flag of core 0 clear and of the others set.
\<close>

theorem init_then_continue:
  assumes "threads_mgr_init True cores debug (Some i0) = Inr m" and "0 < cores"
  shows "ctx_cores m = cores \<and> threads_mgr_are_halted m
    \<and> cthread_get_hsm_state (cthreads m ! 0) = STATE_STARTED
    \<and> (\<forall>i. 0 < i \<and> i < cores \<longrightarrow> cthread_get_hsm_state (cthreads m ! i) = STATE_STOPPED
          \<and> core_idx (ct_core (cthreads m ! i)) = of_nat i
          \<and> regs (ct_core (cthreads m ! i)) A0 = of_nat i)
    \<and> (\<exists>m'. threads_mgr_continue_cores False m = Inr m' \<and> ctx_cores m' = cores
         \<and> (\<forall>i<cores. ct_signal (cthreads m' ! i) = (if i = 0 then START_S else STOP_S)
               \<and> exit_flag (cthreads m' ! i) = (i \<noteq> 0)))"
proof -
  let ?c0 = "\<lparr>ct_state = STATE_HALTED, ct_signal = HALT_S, ct_old_signal = START_S,
     ct_core = vcore_init (Some i0)\<rparr>"
  have cs: "cthreads m = ?c0 # map stopped_core [1..<cores]"
    using assms by (auto simp: threads_mgr_init_def cthread_init_def init_rest_eq)
  then have halted: "\<forall>c\<in>set (cthreads m). ct_state c = STATE_HALTED \<and> run_signal (ct_old_signal c)"
    by (auto simp: stopped_core_simps)
  have len: "ctx_cores m = cores" using cs assms(2) by simp
  have hsm0: "cthread_get_hsm_state (cthreads m ! 0) = STATE_STARTED"
    by (simp add: cs cthread_get_hsm_state_def)
  have len': "length (map continued (cthreads m)) = cores" using len by simp
  have cont: "threads_mgr_continue_cores False m = Inr (m\<lparr>cthreads := map continued (cthreads m)\<rparr>)"
    using halted by (simp add: threads_mgr_continue_cores_def all_halted_iff continue_list_halted)
  have nth_rest: "cthreads m ! i = stopped_core i" if "0 < i" "i < cores" for i
    using that by (simp add: cs nth_Cons')
  have olds: "ct_old_signal (cthreads m ! i) = (if i = 0 then START_S else STOP_S)" if "i < cores" for i
    using that nth_rest [of i] by (cases "i = 0") (simp_all add: cs stopped_core_simps)
  have "\<forall>i<cores. ct_signal (map continued (cthreads m) ! i) = (if i = 0 then START_S else STOP_S)
      \<and> exit_flag (map continued (cthreads m) ! i) = (i \<noteq> 0)"
    using len olds by (simp add: continued_simps)
  moreover have "\<forall>i. 0 < i \<and> i < cores \<longrightarrow> cthread_get_hsm_state (cthreads m ! i) = STATE_STOPPED
      \<and> core_idx (ct_core (cthreads m ! i)) = of_nat i \<and> regs (ct_core (cthreads m ! i)) A0 = of_nat i"
    by (simp add: nth_rest stopped_core_simps)
  ultimately show ?thesis
    using halted len cont hsm0 len' by (simp add: threads_mgr_are_halted_def all_halted_iff)
qed

lemma init_then_continue_witness:
  "\<exists>m m'. threads_mgr_init True 2 True (Some zero_init) = Inr m
     \<and> threads_mgr_continue_cores False m = Inr m' \<and> ct_signal (cthreads m' ! 1) = STOP_S"
proof -
  have "\<exists>m. threads_mgr_init True 2 True (Some zero_init) = Inr m"
    by (simp add: threads_mgr_init_def cthread_init_def init_rest_eq)
  then obtain m where m: "threads_mgr_init True 2 True (Some zero_init) = Inr m" by blast
  from init_then_continue [OF m] m show ?thesis by force
qed

text \<open>
  \<open>threads_mgr_halt_cores\<close> leaves every core halted or about to halt, is idempotent, touches no
  register and keeps the states that a later continue restores; on cores that have all reached
  HALTED the continue never crashes and restores each of them.
\<close>

theorem halt_all_then_continue:
  assumes "wf_machine m"
  shows "(\<forall>c\<in>set (cthreads (threads_mgr_halt_cores m)).
        ct_state c = STATE_HALTED \<or> ct_state c = STATE_HALT_PENDING)
    \<and> threads_mgr_halt_cores (threads_mgr_halt_cores m) = threads_mgr_halt_cores m
    \<and> map ct_old_signal (cthreads (threads_mgr_halt_cores m)) = map ct_old_signal (cthreads m)
    \<and> map (regs \<circ> ct_core) (cthreads (threads_mgr_halt_cores m)) = map (regs \<circ> ct_core) (cthreads m)
    \<and> (threads_mgr_are_halted m \<longrightarrow> threads_mgr_continue_cores False m =
        Inr (m\<lparr>cthreads := map continued (cthreads m)\<rparr>))"
  using assms
  by (auto simp: threads_mgr_halt_cores_def cthread_signal_halt_def thread_simps
      threads_mgr_are_halted_def threads_mgr_continue_cores_def all_halted_iff wf_machine_def
      continue_list_halted)

definition two_cores :: machine where
  "two_cores = \<lparr>cthreads = [halted_core, halted_core\<lparr>ct_old_signal := STOP_S\<rparr>], me = 0, ctx_debug = True\<rparr>"

lemma halt_all_then_continue_witness:
  "\<exists>m'. threads_mgr_continue_cores False two_cores = Inr m' \<and> ctx_cores m' = 2"
proof -
  have "wf_machine two_cores" "threads_mgr_are_halted two_cores"
    by (simp_all add: wf_machine_def two_cores_def halted_core_def threads_mgr_are_halted_def
        cthread_get_state_def)
  with halt_all_then_continue [of two_cores] show ?thesis by (auto simp: two_cores_def)
qed

end
