(* ===== verification/Sbi.thy ===== *)
theory Sbi
  imports Threads_Mgr
begin

text \<open>
  The supervisor binary interface (src/src/supervisor/sbi.c): the base and the hart state
  management extension. The pointer \<open>core\<close> of the code points into the calling thread's entry of
  \<open>threads_mgr.cthreads\<close>, so a call works on the machine, the caller being \<open>me\<close>; \<open>mem_sz\<close> stands for
  \<open>ctx.memory_size\<close>. The unlocked \<open>vcore_init\<close> of another core is the \<open>init\<close> step of theory
  \<open>Hsm\<close>.
\<close>

section \<open>The caller's registers\<close>

definition areg :: "machine \<Rightarrow> nat \<Rightarrow> u32" where
  "areg m i = regs (ct_core (cthreads m ! me m)) i"

definition set_areg :: "nat \<Rightarrow> u32 \<Rightarrow> machine \<Rightarrow> machine" where
  "set_areg i v m = m\<lparr>cthreads := (cthreads m)[me m := (cthreads m ! me m)
     \<lparr>ct_core := (ct_core (cthreads m ! me m))
       \<lparr>regs := (regs (ct_core (cthreads m ! me m)))(i := v)\<rparr>\<rparr>]\<rparr>"

definition set_core :: "nat \<Rightarrow> VCore \<Rightarrow> machine \<Rightarrow> machine" where
  "set_core i k m = m\<lparr>cthreads := (cthreads m)[i := (cthreads m ! i)\<lparr>ct_core := k\<rparr>]\<rparr>"

section \<open>Constants\<close>

abbreviation (input) BASE_EID :: u32 where "BASE_EID \<equiv> 0x10"
abbreviation (input) HSM_EID :: u32 where "HSM_EID \<equiv> 0x48534D"

definition supported_ext :: "u32 list" where
  "supported_ext = [BASE_EID, HSM_EID]"

datatype sbi_errors =
    SBI_SUCCESS | SBI_ERR_FAILED | SBI_ERR_NOT_SUPPORTED | SBI_ERR_INVALID_PARAM | SBI_ERR_DENIED
  | SBI_ERR_INVALID_ADDRESS | SBI_ERR_ALREADY_AVAILABLE

fun sbi_num :: "sbi_errors \<Rightarrow> u32" where
  "sbi_num SBI_SUCCESS = 0"
| "sbi_num SBI_ERR_FAILED = - 1"
| "sbi_num SBI_ERR_NOT_SUPPORTED = - 2"
| "sbi_num SBI_ERR_INVALID_PARAM = - 3"
| "sbi_num SBI_ERR_DENIED = - 4"
| "sbi_num SBI_ERR_INVALID_ADDRESS = - 5"
| "sbi_num SBI_ERR_ALREADY_AVAILABLE = - 6"

abbreviation (input) HSM_RETENTIVE_SUSPEND :: u32 where "HSM_RETENTIVE_SUSPEND \<equiv> 0"
abbreviation (input) HSM_NON_RETENTIVE_SUSPEND :: u32 where "HSM_NON_RETENTIVE_SUSPEND \<equiv> 0x80000000"

section \<open>The extensions\<close>

definition base_ext :: "machine \<Rightarrow> machine" where
  "base_ext m =
    (let fid = areg m A6; success = set_areg A0 (sbi_num SBI_SUCCESS)
     in if fid = 0 then success (set_areg A1 0x03000000 m)
        else if fid = 3 then
          (let found = list_ex (\<lambda>ext. areg m A0 = ext) supported_ext
           in success (set_areg A0 (if found then 1 else 0) m))
        else if fid = 1 \<or> fid = 2 \<or> fid = 4 \<or> fid = 5 \<or> fid = 6 then success (set_areg A1 0 m)
        else set_areg A0 (sbi_num SBI_ERR_NOT_SUPPORTED) m)"

definition hart_init :: "u32 \<Rightarrow> u32 \<Rightarrow> u32 \<Rightarrow> VCore_Init" where
  "hart_init pc hart_id opaque =
     zero_init\<lparr>init_pc := pc, init_id := hart_id, init_opaque := opaque\<rparr>"

definition hsm_start :: "nat \<Rightarrow> machine \<Rightarrow> machine result" where
  "hsm_start mem_sz m =
    (let hart_id = areg m A0; start_addr = areg m A1; opaque = areg m A2
     in if \<not> unat hart_id < ctx_cores m then Inr (set_areg A0 (sbi_num SBI_ERR_INVALID_PARAM) m)
        else if \<not> unat start_addr < mem_sz then Inr (set_areg A0 (sbi_num SBI_ERR_INVALID_ADDRESS) m)
        else (let state = cthread_get_hsm_state (cthreads m ! unat hart_id)
              in if state = STATE_START_PENDING \<or> state = STATE_STARTED
                 then Inr (set_areg A0 (sbi_num SBI_ERR_ALREADY_AVAILABLE) m)
                 else and_then
                   (on_core (unat hart_id) cthread_signal_start
                     (set_core (unat hart_id) (vcore_init (Some (hart_init start_addr hart_id opaque))) m))
                   (\<lambda>m. Inr (set_areg A0 (sbi_num SBI_SUCCESS) m))))"

definition hsm_stop :: "machine \<Rightarrow> machine result" where
  "hsm_stop m =
     and_then (on_core (unat (core_idx (ct_core (cthreads m ! me m)))) cthread_signal_stop m)
       (\<lambda>m. Inr (set_areg A0 (sbi_num SBI_SUCCESS) m))"

definition hsm_status :: "machine \<Rightarrow> machine result" where
  "hsm_status m =
    (let hart_id = areg m A0
     in if \<not> unat hart_id < ctx_cores m then Inr (set_areg A0 (sbi_num SBI_ERR_INVALID_PARAM) m)
        else Inr (set_areg A0 (sbi_num SBI_SUCCESS)
               (set_areg A1 (state_num (cthread_get_hsm_state (cthreads m ! unat hart_id))) m)))"

text \<open>The suspend type is read from A0, the register that also gives \<open>hart_id\<close>.\<close>

definition hsm_suspend :: "nat \<Rightarrow> machine \<Rightarrow> machine result" where
  "hsm_suspend mem_sz m =
    (let hart_id = areg m A0; start_addr = areg m A1; opaque = areg m A2; suspend_type = areg m A0
     in if \<not> unat start_addr < mem_sz then Inr (set_areg A0 (sbi_num SBI_ERR_INVALID_ADDRESS) m)
        else if suspend_type = HSM_RETENTIVE_SUSPEND then
          and_then (on_core (unat hart_id) cthread_signal_suspend m)
            (\<lambda>m. Inr (set_areg A0 (sbi_num SBI_SUCCESS) m))
        else if suspend_type = HSM_NON_RETENTIVE_SUSPEND then
          (if unat hart_id < ctx_cores m
           then Inr (set_areg A0 (sbi_num SBI_SUCCESS)
                  (set_core (unat hart_id) (vcore_init (Some (hart_init start_addr hart_id opaque))) m))
           else Inl out_of_cores)
        else Inr (set_areg A0 (sbi_num SBI_ERR_INVALID_PARAM) m))"

definition hsm_ext :: "nat \<Rightarrow> machine \<Rightarrow> machine result" where
  "hsm_ext mem_sz m =
    (let fid = areg m A6
     in if fid = 0 then hsm_start mem_sz m
        else if fid = 1 then hsm_stop m
        else if fid = 2 then hsm_status m
        else if fid = 3 then hsm_suspend mem_sz m
        else Inr (set_areg A0 (sbi_num SBI_ERR_NOT_SUPPORTED) m))"

definition emu_sbi_call :: "nat \<Rightarrow> machine \<Rightarrow> machine result" where
  "emu_sbi_call mem_sz m =
    (let eid = areg m A7
     in if eid = BASE_EID then Inr (base_ext m)
        else if eid = HSM_EID then hsm_ext mem_sz m
        else Inr (set_areg A0 (sbi_num SBI_ERR_NOT_SUPPORTED) m))"

section \<open>Rewriting\<close>

lemma set_areg_simps [thread_simps]:
  "me (set_areg i v m) = me m" "ctx_cores (set_areg i v m) = ctx_cores m"
  "ctx_debug (set_areg i v m) = ctx_debug m"
  "j \<noteq> me m \<Longrightarrow> cthreads (set_areg i v m) ! j = cthreads m ! j"
  by (simp_all add: set_areg_def)

lemma set_areg_thread [thread_simps]:
  assumes "j < ctx_cores m"
  shows "ct_state (cthreads (set_areg i v m) ! j) = ct_state (cthreads m ! j)"
    "ct_signal (cthreads (set_areg i v m) ! j) = ct_signal (cthreads m ! j)"
    "ct_old_signal (cthreads (set_areg i v m) ! j) = ct_old_signal (cthreads m ! j)"
    "exit_flag (cthreads (set_areg i v m) ! j) = exit_flag (cthreads m ! j)"
  using assms by (cases "j = me m"; simp add: set_areg_def exit_flag_def)+

lemma areg_set_areg [thread_simps]:
  "me m < ctx_cores m \<Longrightarrow> areg (set_areg i v m) j = (if j = i then v else areg m j)"
  by (simp add: areg_def set_areg_def)

lemma on_core_simps:
  assumes "on_core i f m = Inr m'"
  shows "me m' = me m" "ctx_cores m' = ctx_cores m" "ctx_debug m' = ctx_debug m"
    "\<exists>c. i < ctx_cores m \<and> f (cthreads m ! i) = Inr c \<and> cthreads m' ! i = c"
    "j \<noteq> i \<Longrightarrow> cthreads m' ! j = cthreads m ! j"
  using assms by (auto simp: on_core_def result_simps split: if_splits)

lemma signal_core_regs:
  "cthread_signal_hsm g c = Inr c' \<Longrightarrow> regs (ct_core c') = regs (ct_core c)
     \<and> core_idx (ct_core c') = core_idx (ct_core c)"
  by (auto simp: cthread_signal_hsm_def Let_def thread_simps split: if_splits option.splits)

lemma set_core_simps [thread_simps]:
  "me (set_core i k m) = me m" "ctx_cores (set_core i k m) = ctx_cores m"
  "ctx_debug (set_core i k m) = ctx_debug m"
  "i < ctx_cores m \<Longrightarrow> cthreads (set_core i k m) ! j =
     (if j = i then (cthreads m ! i)\<lparr>ct_core := k\<rparr> else cthreads m ! j)"
  by (simp_all add: set_core_def)

lemma areg_on_core:
  assumes "on_core i f m = Inr m'" and "i \<noteq> me m"
  shows "areg m' r = areg m r"
  using on_core_simps(1) [OF assms(1)] on_core_simps(5) [OF assms(1), of "me m"] assms(2)
  by (simp add: areg_def)

section \<open>Hart start\<close>

lemma hsm_start_success:
  assumes "hsm_start mem_sz m = Inr m'" and "me m < ctx_cores m" and "areg m' A0 = 0"
  obtains m1 where "unat (areg m A0) < ctx_cores m" "unat (areg m A1) < mem_sz"
    "cthread_get_hsm_state (cthreads m ! unat (areg m A0)) \<notin> {STATE_START_PENDING, STATE_STARTED}"
    "on_core (unat (areg m A0)) cthread_signal_start
       (set_core (unat (areg m A0)) (vcore_init (Some (hart_init (areg m A1) (areg m A0) (areg m A2)))) m)
       = Inr m1"
    "m' = set_areg A0 0 m1"
  using assms
  by (auto simp: hsm_start_def Let_def result_simps thread_simps split: if_splits)

lemma start_core:
  "cthread_signal_start c = Inr c' \<Longrightarrow> regs (ct_core c') = regs (ct_core c)
     \<and> core_idx (ct_core c') = core_idx (ct_core c)"
  by (auto simp: cthread_signal_start_def dest: signal_core_regs)


definition start_call :: machine where
  "start_call = \<lparr>cthreads =
     [\<lparr>ct_state = STATE_STARTED, ct_signal = START_S, ct_old_signal = START_S,
       ct_core = zero_core\<lparr>regs := (\<lambda>_. 0)(A0 := 1, A1 := 0x80, A2 := 7, A7 := HSM_EID)\<rparr>\<rparr>,
      stopped_core 1], me = 0, ctx_debug = False\<rparr>"

lemma start_call_simps:
  "areg start_call 10 = 1" "areg start_call 11 = 0x80" "areg start_call 12 = 7"
  "areg start_call 16 = 0" "areg start_call 17 = 0x48534D" "me start_call = 0"
  "ctx_cores start_call = 2" "cthreads start_call ! Suc 0 = stopped_core 1"
  by (simp_all add: start_call_def areg_def)

lemma start_call_result: "\<exists>m'. emu_sbi_call 4096 start_call = Inr m' \<and> areg m' A0 = 0"
  by (simp add: emu_sbi_call_def hsm_ext_def hsm_start_def Let_def start_call_simps stopped_core_simps
      on_core_def signal_start_eq thread_simps set_core_def)


text \<open>
  Without the debugger a hart start has no effect on execution: \<open>threads_mgr_init\<close> leaves the
  secondary cores halted and \<open>main\<close> continues core 0 only, so the request is remembered for a
  continue that never comes. The caller gets success, the target stays HALTED with its HALT signal.
\<close>

theorem hart_start_leaves_secondary_halted:
  assumes "threads_mgr_init True cores False (Some i0) = Inr m0" and "main_start m0 = Inr m1"
    and "0 < k" "k < cores" "cores \<le> 2 ^ 32"
    and "m = m1\<lparr>cthreads := c0 # tl (cthreads m1)\<rparr>"
    and "regs (ct_core c0) A7 = HSM_EID" "regs (ct_core c0) A6 = 0" "regs (ct_core c0) A0 = of_nat k"
    and "unat (regs (ct_core c0) A1) < mem_sz"
  shows "\<exists>m'. emu_sbi_call mem_sz m = Inr m' \<and> areg m' A0 = 0
    \<and> ct_state (cthreads m' ! k) = STATE_HALTED \<and> ct_signal (cthreads m' ! k) = HALT_S
    \<and> ct_old_signal (cthreads m' ! k) = START_S"
proof -
  obtain c where "m0 = \<lparr>cthreads = c # map stopped_core [1..<cores], me = 0, ctx_debug = False\<rparr>"
    using assms(1) by (auto simp: threads_mgr_init_def cthread_init_def init_rest_eq split: if_splits)
  then have tl: "tl (cthreads m1) = map stopped_core [1..<cores]" and "me m1 = 0"
    using assms(2) by (auto simp: main_start_def on_core_def result_simps)
  then have m: "me m = 0" "ctx_cores m = cores" "cthreads m ! k = stopped_core k" "cthreads m ! 0 = c0"
    using assms(3,4,6) by (simp_all add: nth_Cons')
  have k: "unat (of_nat k :: u32) = k"
    using assms(4,5) by (simp add: unat_of_nat take_bit_nat_eq_self)
  have regs: "areg m A7 = HSM_EID" "areg m A6 = 0" "areg m A0 = of_nat k" "unat (areg m A1) < mem_sz"
    using assms(7-10) m by (simp_all add: areg_def)
  let ?m1 = "set_core k (vcore_init (Some (hart_init (areg m A1) (of_nat k) (areg m A2)))) m"
  have "on_core k cthread_signal_start ?m1 =
      Inr (?m1\<lparr>cthreads := (cthreads ?m1)[k := (cthreads ?m1 ! k)\<lparr>ct_old_signal := START_S\<rparr>]\<rparr>)"
    using assms(4) m
    by (simp add: on_core_def signal_start_eq thread_simps stopped_core_simps debug_state_def)
  then show ?thesis
    using regs m k assms(3,4)
    by (simp add: emu_sbi_call_def hsm_ext_def hsm_start_def Let_def stopped_core_simps thread_simps)
       (simp add: set_core_def stopped_core_def)
qed

lemma hart_start_leaves_secondary_halted_witness:
  "\<exists>m m'. emu_sbi_call 4096 m = Inr m' \<and> areg m' A0 = 0 \<and> ct_state (cthreads m' ! 1) = STATE_HALTED"
proof -
  obtain m0 where m0: "threads_mgr_init True 2 False (Some zero_init) = Inr m0"
    by (simp add: threads_mgr_init_def cthread_init_def init_rest_eq)
  then have "\<exists>m1. main_start m0 = Inr m1"
    by (auto simp: threads_mgr_init_def cthread_init_def init_rest_eq main_start_def on_core_def
        cthread_signal_continue_def Let_def)
  then obtain m1 where m1: "main_start m0 = Inr m1" by blast
  from hart_start_leaves_secondary_halted [OF m0 m1, of 1 _ "cthreads start_call ! 0" 4096]
  show ?thesis by (fastforce simp: start_call_def)
qed

section \<open>The other calls\<close>

text \<open>
  An unknown extension or function changes nothing but A0, which becomes NOT_SUPPORTED. The
  probe of an extension always answers A0 = 0 and leaves A1 alone, so its result is lost. A
  retentive suspend acts on core 0 whichever core calls it, and a non-retentive one reaches past
  the array of cores.
\<close>

theorem sbi_other_calls:
  assumes "me m < ctx_cores m"
  shows "(areg m A7 \<notin> {BASE_EID, HSM_EID} \<or> areg m A7 = BASE_EID \<and> 6 < areg m A6
        \<or> areg m A7 = HSM_EID \<and> 3 < areg m A6
      \<longrightarrow> emu_sbi_call mem_sz m = Inr (set_areg A0 (- 2) m))
    \<and> (areg m A7 = BASE_EID \<and> areg m A6 = 3 \<longrightarrow> (\<exists>m'. emu_sbi_call mem_sz m = Inr m'
        \<and> (\<forall>r. areg m' r = (if r = A0 then 0 else areg m r))))
    \<and> (areg m A7 = HSM_EID \<and> areg m A6 = 3 \<and> areg m A0 = 0 \<and> unat (areg m A1) < mem_sz \<longrightarrow>
        emu_sbi_call mem_sz m = and_then (on_core 0 cthread_signal_suspend m)
          (\<lambda>m. Inr (set_areg A0 0 m)))
    \<and> (areg m A7 = HSM_EID \<and> areg m A6 = 3 \<and> areg m A0 = HSM_NON_RETENTIVE_SUSPEND
        \<and> unat (areg m A1) < mem_sz \<and> ctx_cores m \<le> 2 ^ 31 \<longrightarrow>
        emu_sbi_call mem_sz m = Inl out_of_cores)"
  using assms
  by (auto simp: emu_sbi_call_def hsm_ext_def hsm_suspend_def base_ext_def Let_def thread_simps)

lemma sbi_other_calls_witness:
  "\<exists>m'. emu_sbi_call 4096 (set_areg A7 0x10 (set_areg A6 3 start_call)) = Inr m' \<and> areg m' A0 = 0"
  using sbi_other_calls [of "set_areg A7 0x10 (set_areg A6 3 start_call)" 4096]
  by (auto simp: thread_simps start_call_simps)

text \<open>
  Hart status answers a value of the SBI specification (0 to 6) for every core in every
  state, except while a continue is pending, when it answers 11, which SBI does not define.
\<close>

theorem hart_status_values:
  assumes "me m < ctx_cores m" and "areg m A7 = HSM_EID" and "areg m A6 = 2"
    and "unat (areg m A0) < ctx_cores m" and "run_signal (ct_old_signal (cthreads m ! unat (areg m A0)))"
  shows "\<exists>m'. emu_sbi_call mem_sz m = Inr m' \<and> areg m' A0 = 0
    \<and> (areg m' A1 \<le> 6 \<longleftrightarrow> ct_state (cthreads m ! unat (areg m A0)) \<noteq> STATE_CONTINUE_PENDING)
    \<and> (\<forall>r. r \<notin> {A0, A1} \<longrightarrow> areg m' r = areg m r)"
proof -
  have "(state_num (cthread_get_hsm_state c) \<le> 6) = (ct_state c \<noteq> STATE_CONTINUE_PENDING)"
    if "run_signal (ct_old_signal c)" for c
    using that by (cases "ct_state c") (auto simp: cthread_get_hsm_state_def run_signal_def)
  then show ?thesis
    using assms by (simp add: emu_sbi_call_def hsm_ext_def hsm_status_def Let_def thread_simps)
qed

lemma hart_status_values_witness:
  "\<exists>m'. emu_sbi_call 4096 (set_areg A6 2 start_call) = Inr m' \<and> areg m' A1 \<le> 6"
  using hart_status_values [of "set_areg A6 2 start_call" 4096]
  by (auto simp: thread_simps start_call_simps stopped_core_simps)

end
