(* ===== verification/Trap.thy ===== *)
theory Trap
  imports Vcore
begin

text \<open>
  Traps and interrupts of the SUPERVISOR build (src/src/supervisor/csr.h, trap.c): the CSR field
  macros, \<open>dispatch_trap\<close> and \<open>check_interrupts\<close>. The \<open>SET_\<close> and \<open>RESET_\<close> macros of csr.h are
  expressions; \<open>dispatch_trap\<close> writes them as statements, so their values are computed and
  dropped, which the \<open>let\<close>s of the definition below keep visible.
\<close>

unbundle bit_operations_syntax

section \<open>CSR fields (csr.h)\<close>

definition SATP_MODE :: "u32 \<Rightarrow> bool" where "SATP_MODE satp \<longleftrightarrow> satp AND push_bit 31 1 \<noteq> 0"
definition SATP_PPN :: "u32 \<Rightarrow> u32" where "SATP_PPN satp = satp AND 0x3FFFFF"

definition SET_SSTATUS_SIE :: "u32 \<Rightarrow> u32" where
  "SET_SSTATUS_SIE sstatus = sstatus OR push_bit 1 1"
definition RESET_SSTATUS_SIE :: "u32 \<Rightarrow> u32" where
  "RESET_SSTATUS_SIE sstatus = sstatus AND NOT (push_bit 1 1)"
definition SET_SSTATUS_SPIE :: "u32 \<Rightarrow> u32" where
  "SET_SSTATUS_SPIE sstatus = sstatus OR push_bit 5 1"
definition SET_SSTATUS_SPP :: "u32 \<Rightarrow> u32" where
  "SET_SSTATUS_SPP sstatus = sstatus OR push_bit 8 1"
definition RESET_SSTATUS_SPP :: "u32 \<Rightarrow> u32" where
  "RESET_SSTATUS_SPP sstatus = sstatus AND NOT (push_bit 8 1)"

definition SSTATUS_SIE :: "u32 \<Rightarrow> bool" where "SSTATUS_SIE s \<longleftrightarrow> s AND push_bit 1 1 \<noteq> 0"
definition SSTATUS_MXR :: "u32 \<Rightarrow> bool" where "SSTATUS_MXR s \<longleftrightarrow> s AND push_bit 19 1 \<noteq> 0"
definition SSTATUS_SUM :: "u32 \<Rightarrow> bool" where "SSTATUS_SUM s \<longleftrightarrow> s AND push_bit 18 1 \<noteq> 0"

definition SIP_SSIP :: "u32 \<Rightarrow> bool" where "SIP_SSIP s \<longleftrightarrow> s AND push_bit 1 1 \<noteq> 0"
definition SIP_STIP :: "u32 \<Rightarrow> bool" where "SIP_STIP s \<longleftrightarrow> s AND push_bit 5 1 \<noteq> 0"
definition SIP_SEIP :: "u32 \<Rightarrow> bool" where "SIP_SEIP s \<longleftrightarrow> s AND push_bit 9 1 \<noteq> 0"
definition SIE_SSIE :: "u32 \<Rightarrow> bool" where "SIE_SSIE s \<longleftrightarrow> s AND push_bit 1 1 \<noteq> 0"
definition SIE_STIE :: "u32 \<Rightarrow> bool" where "SIE_STIE s \<longleftrightarrow> s AND push_bit 5 1 \<noteq> 0"
definition SIE_SEIE :: "u32 \<Rightarrow> bool" where "SIE_SEIE s \<longleftrightarrow> s AND push_bit 9 1 \<noteq> 0"

definition STVEC_MODE :: "u32 \<Rightarrow> u32" where "STVEC_MODE stvec = stvec AND 0x3"
definition STVEC_BASE :: "u32 \<Rightarrow> u32" where "STVEC_BASE stvec = stvec AND 0xFFFFFFFC"

abbreviation (input) STVEC_MODE_DIRECT :: u32 where "STVEC_MODE_DIRECT \<equiv> 0"
abbreviation (input) STVEC_MODE_VECTORED :: u32 where "STVEC_MODE_VECTORED \<equiv> 1"
abbreviation (input) RESET_FAULT_VAL :: u32 where "RESET_FAULT_VAL \<equiv> 0"

section \<open>Dispatch\<close>

definition GET_INTERRUPT_CODE :: "trap_code \<Rightarrow> u32" where
  "GET_INTERRUPT_CODE code = code_of code AND 0x7FFFFFFF"

definition stvec_bug :: stop where
  "stvec_bug = Assert_Failed ''THERE IS A BUG IN STVEC MODE''"

definition enter_supervisor :: "'w hart \<Rightarrow> 'w hart" where
  "enter_supervisor h = h\<lparr>core := (core h)\<lparr>mode := SUPERVISOR_MODE\<rparr>\<rparr>"

definition dispatch_trap :: "'w trap_fn" where
  "dispatch_trap h code faulting_val =
    (let h = (if SSTATUS_SIE (reg h SSTATUS)
              then (let _ = SET_SSTATUS_SPIE (reg h SSTATUS); _ = RESET_SSTATUS_SIE (reg h SSTATUS) in h)
              else (let _ = SET_SSTATUS_SPIE (reg h SSTATUS) in h));
         h = set_reg SCAUSE (code_of code) h;
         h = (if mode (core h) = SUPERVISOR_MODE
              then (let _ = SET_SSTATUS_SPP (reg h SSTATUS) in h)
              else (let _ = RESET_SSTATUS_SPP (reg h SSTATUS) in enter_supervisor h));
         h = set_reg SEPC (reg h PC) h
     in if sint (code_of code) \<ge> 0
        then (let h = set_reg STVAL faulting_val h
              in Inr (set_reg PC (STVEC_BASE (reg h STVEC)) h))
        else if STVEC_MODE (reg h STVEC) = STVEC_MODE_DIRECT
        then Inr (set_reg PC (STVEC_BASE (reg h STVEC)) h)
        else if STVEC_MODE (reg h STVEC) = STVEC_MODE_VECTORED
        then Inr (set_reg PC (STVEC_BASE (reg h STVEC) + GET_INTERRUPT_CODE code * 4) h)
        else Inl stvec_bug)"

definition check_interrupts :: "'w hart \<Rightarrow> 'w hart result" where
  "check_interrupts h =
    (if ll_sc_flag (core h) then Inr h
     else if mode (core h) = SUPERVISOR_MODE \<and> \<not> SSTATUS_SIE (reg h SSTATUS) then Inr h
     else and_then
       (if SIE_SEIE (reg h SIE) \<and> SIP_SEIP (reg h SIP)
        then dispatch_trap h SUPERVISOR_EXTERNAL_INTERRUPT RESET_FAULT_VAL else Inr h) (\<lambda>h.
     and_then
       (if SIE_SSIE (reg h SIE) \<and> SIP_SSIP (reg h SIP)
        then dispatch_trap h SUPERVISOR_SOFTWARE_INTERRUPT RESET_FAULT_VAL else Inr h) (\<lambda>h.
       (if SIE_STIE (reg h SIE) \<and> SIP_STIP (reg h SIP)
        then dispatch_trap h SUPERVISOR_TIMER_INTERRUPT RESET_FAULT_VAL else Inr h))))"

section \<open>What a dispatch does\<close>

fun is_exception :: "trap_code \<Rightarrow> bool" where
  "is_exception SUPERVISOR_SOFTWARE_INTERRUPT = False"
| "is_exception SUPERVISOR_TIMER_INTERRUPT = False"
| "is_exception SUPERVISOR_EXTERNAL_INTERRUPT = False"
| "is_exception SUPERVISOR_COUNTER_OVEFLOW_INTERRUPT = False"
| "is_exception _ = True"

lemma sint_code: "sint (code_of code) \<ge> 0 \<longleftrightarrow> is_exception code"
  by (cases code) simp_all

lemma enter_supervisor_simps [hart_simps]:
  "reg (enter_supervisor h) i = reg h i" "ram (enter_supervisor h) = ram h"
  "world (enter_supervisor h) = world h" "mode (core (enter_supervisor h)) = SUPERVISOR_MODE"
  "ll_sc_flag (core (enter_supervisor h)) = ll_sc_flag (core h)"
  "atomic_exit_loop (core (enter_supervisor h)) = atomic_exit_loop (core h)"
  "core_idx (core (enter_supervisor h)) = core_idx (core h)"
  "reserved (core (enter_supervisor h)) = reserved (core h)"
  by (simp_all add: enter_supervisor_def reg_def)

lemma enter_supervisor_set_reg [hart_simps]:
  "enter_supervisor (set_reg i v h) = set_reg i v (enter_supervisor h)"
  by (simp add: enter_supervisor_def set_reg_def)

lemma enter_supervisor_id: "mode (core h) = SUPERVISOR_MODE \<Longrightarrow> enter_supervisor h = h"
  by (simp add: enter_supervisor_def)

definition handler_pc :: "u32 \<Rightarrow> trap_code \<Rightarrow> u32" where
  "handler_pc stvec code =
     (if is_exception code \<or> STVEC_MODE stvec = 0 then STVEC_BASE stvec
      else STVEC_BASE stvec + 4 * (code_of code AND 0x7FFFFFFF))"

definition stvec_ok :: "u32 \<Rightarrow> bool" where
  "stvec_ok stvec \<longleftrightarrow> STVEC_MODE stvec = 0 \<or> STVEC_MODE stvec = 1"

definition trapped :: "'w hart \<Rightarrow> trap_code \<Rightarrow> u32 \<Rightarrow> 'w hart" where
  "trapped h code v =
    (let g = set_reg SEPC (reg h PC) (set_reg SCAUSE (code_of code) (enter_supervisor h))
     in set_reg PC (handler_pc (reg h STVEC) code) (if is_exception code then set_reg STVAL v g else g))"

lemma dispatch_trap_eq:
  "dispatch_trap h code v =
    (if is_exception code \<or> stvec_ok (reg h STVEC) then Inr (trapped h code v) else Inl stvec_bug)"
  by (cases "mode (core h)")
    (auto simp: dispatch_trap_def trapped_def sint_code handler_pc_def stvec_ok_def hart_simps Let_def
      GET_INTERRUPT_CODE_def mult.commute enter_supervisor_id)

lemma trapped_simps [hart_simps]:
  "ram (trapped h code v) = ram h" "world (trapped h code v) = world h"
  "mode (core (trapped h code v)) = SUPERVISOR_MODE"
  "ll_sc_flag (core (trapped h code v)) = ll_sc_flag (core h)"
  "atomic_exit_loop (core (trapped h code v)) = atomic_exit_loop (core h)"
  "core_idx (core (trapped h code v)) = core_idx (core h)"
  by (simp_all add: trapped_def Let_def hart_simps)

lemma reg_trapped [hart_simps]:
  "reg (trapped h code v) i =
     (if i = PC then handler_pc (reg h STVEC) code
      else if i = SEPC then reg h PC
      else if i = SCAUSE then code_of code
      else if i = STVAL \<and> is_exception code then v
      else reg h i)"
  by (simp add: trapped_def Let_def hart_simps)

text \<open>
  \<open>dispatch_trap\<close> saves the PC in SEPC and the cause in SCAUSE, for exceptions the faulting
  value in STVAL, enters supervisor mode and jumps to the handler STVEC selects, and changes no
  other register, SSTATUS included: the previous privilege and interrupt-enable bits are not
  saved and interrupts are not disabled. It fails only for an interrupt under a reserved STVEC mode.
\<close>

theorem dispatch_trap_effect:
  "dispatch_trap h code v =
    (if is_exception code \<or> stvec_ok (reg h STVEC) then Inr (trapped h code v) else Inl stvec_bug)
   \<and> reg (trapped h code v) SEPC = reg h PC \<and> reg (trapped h code v) SCAUSE = code_of code
   \<and> reg (trapped h code v) PC = handler_pc (reg h STVEC) code
   \<and> reg (trapped h code v) STVAL = (if is_exception code then v else reg h STVAL)
   \<and> mode (core (trapped h code v)) = SUPERVISOR_MODE
   \<and> reg (trapped h code v) SSTATUS = reg h SSTATUS
   \<and> {i. reg (trapped h code v) i \<noteq> reg h i} \<subseteq> {PC, SEPC, SCAUSE, STVAL}
   \<and> ram (trapped h code v) = ram h \<and> world (trapped h code v) = world h"
  by (auto simp: dispatch_trap_eq hart_simps split: if_splits)

section \<open>Polling for interrupts\<close>

definition interrupts_enabled :: "'w hart \<Rightarrow> bool" where
  "interrupts_enabled h \<longleftrightarrow>
     \<not> ll_sc_flag (core h) \<and> (mode (core h) = SUPERVISOR_MODE \<longrightarrow> SSTATUS_SIE (reg h SSTATUS))"

text \<open>The enabled and pending interrupts, in the order the manual gives them.\<close>

definition pending :: "'w hart \<Rightarrow> trap_code list" where
  "pending h =
    (if SIE_SEIE (reg h SIE) \<and> SIP_SEIP (reg h SIP) then [SUPERVISOR_EXTERNAL_INTERRUPT] else [])
    @ (if SIE_SSIE (reg h SIE) \<and> SIP_SSIP (reg h SIP) then [SUPERVISOR_SOFTWARE_INTERRUPT] else [])
    @ (if SIE_STIE (reg h SIE) \<and> SIP_STIP (reg h SIP) then [SUPERVISOR_TIMER_INTERRUPT] else [])"

definition take_all :: "trap_code list \<Rightarrow> 'w hart \<Rightarrow> 'w hart" where
  "take_all codes h = fold (\<lambda>c h. trapped h c 0) codes h"

lemma take_all_simps [simp]:
  "take_all [] h = h" "take_all (c # cs) h = take_all cs (trapped h c 0)"
  by (simp_all add: take_all_def)

lemma take_all_keeps:
  "i \<notin> {PC, SEPC, SCAUSE, STVAL} \<Longrightarrow> reg (take_all cs h) i = reg h i"
  "ll_sc_flag (core (take_all cs h)) = ll_sc_flag (core h)"
  "mode (core (take_all cs h)) = (if cs = [] then mode (core h) else SUPERVISOR_MODE)"
  "ram (take_all cs h) = ram h" "world (take_all cs h) = world h"
  "atomic_exit_loop (core (take_all cs h)) = atomic_exit_loop (core h)"
  "core_idx (core (take_all cs h)) = core_idx (core h)"
  by (induction cs arbitrary: h) (auto simp: hart_simps)

lemma take_all_last:
  "cs \<noteq> [] \<Longrightarrow> reg (take_all cs h) PC = handler_pc (reg h STVEC) (last cs)
     \<and> reg (take_all cs h) SCAUSE = code_of (last cs)"
  by (induction cs arbitrary: h) (auto simp: hart_simps)

lemma take_all_sepc:
  "reg (take_all (cs @ [c]) h) SEPC = reg (take_all cs h) PC"
  by (induction cs arbitrary: h) (auto simp: hart_simps)

lemma check_interrupts_eq:
  assumes "stvec_ok (reg h STVEC)"
  shows "check_interrupts h = Inr (if interrupts_enabled h then take_all (pending h) h else h)"
  using assms
  by (auto simp: check_interrupts_def interrupts_enabled_def pending_def dispatch_trap_eq hart_simps)

lemma check_interrupts_keeps:
  assumes "check_interrupts h = Inr h'"
  shows "ram h' = ram h" "world h' = world h" "atomic_exit_loop (core h') = atomic_exit_loop (core h)"
    "core_idx (core h') = core_idx (core h)" "reg h' STVEC = reg h STVEC"
    "mode (core h) = SUPERVISOR_MODE \<Longrightarrow> mode (core h') = SUPERVISOR_MODE"
  using assms
  by (auto simp: check_interrupts_def dispatch_trap_eq hart_simps result_simps split: if_splits)

text \<open>
  When interrupts are enabled and several are pending, \<open>check_interrupts\<close> dispatches all of
  them in one poll: the core starts in the handler of the last, with SEPC pointing at the handler
  of the one before it, so the interrupted PC is in no register any more. With a single interrupt
  pending SEPC is the interrupted PC, and with interrupts disabled nothing happens.
\<close>

theorem check_interrupts_effect:
  assumes "stvec_ok (reg h STVEC)"
  shows "(\<not> interrupts_enabled h \<longrightarrow> check_interrupts h = Inr h)
   \<and> (interrupts_enabled h \<longrightarrow> (\<exists>h'. check_interrupts h = Inr h'
      \<and> (pending h \<noteq> [] \<longrightarrow> reg h' PC = handler_pc (reg h STVEC) (last (pending h))
           \<and> reg h' SCAUSE = code_of (last (pending h)))
      \<and> (\<forall>c. pending h = [c] \<longrightarrow> reg h' SEPC = reg h PC)
      \<and> (\<forall>cs b c. pending h = cs @ [b, c] \<longrightarrow> reg h' SEPC = handler_pc (reg h STVEC) b)))"
proof -
  have "reg (take_all (cs @ [b, c]) h) SEPC = handler_pc (reg h STVEC) b" for cs b c
    using take_all_sepc [of "cs @ [b]" c h] take_all_last [of "cs @ [b]" h] by simp
  then show ?thesis
    using check_interrupts_eq [OF assms] take_all_last [of "pending h" h]
    by (auto simp: hart_simps)
qed

definition irq_hart :: "unit hart" where
  "irq_hart = \<lparr>core = zero_core\<lparr>regs := (\<lambda>_. 0)(PC := 0x100, STVEC := 0x2001, SSTATUS := 2,
     SIE := 0x222, SIP := 0x220)\<rparr>, ram = \<lparr>mem_bytes = (\<lambda>_. 0), mem_size = 4096\<rparr>, world = ()\<rparr>"

lemma irq_hart_pending:
  "pending irq_hart = [] @ [SUPERVISOR_EXTERNAL_INTERRUPT, SUPERVISOR_TIMER_INTERRUPT]"
  "interrupts_enabled irq_hart" "stvec_ok (reg irq_hart STVEC)" "reg irq_hart STVEC = 0x2001"
  "reg irq_hart PC = 0x100"
  by (simp_all add: pending_def interrupts_enabled_def stvec_ok_def irq_hart_def reg_def zero_core_def
      SIE_SEIE_def SIP_SEIP_def SIE_SSIE_def SIP_SSIP_def SIE_STIE_def SIP_STIP_def SSTATUS_SIE_def
      STVEC_MODE_def)

lemma check_interrupts_effect_witness:
  "\<exists>h'. check_interrupts irq_hart = Inr h' \<and> reg h' SEPC = 0x2024 \<and> reg h' PC = 0x2014"
proof -
  note eff = check_interrupts_effect [OF irq_hart_pending(3)]
  then obtain h' where "check_interrupts irq_hart = Inr h'"
    and "reg h' PC = handler_pc 0x2001 SUPERVISOR_TIMER_INTERRUPT"
    and "reg h' SEPC = handler_pc 0x2001 SUPERVISOR_EXTERNAL_INTERRUPT"
    using irq_hart_pending by fastforce
  then show ?thesis by (simp add: handler_pc_def STVEC_BASE_def STVEC_MODE_def)
qed

end
