(* ===== verification/Supervisor.thy ===== *)
theory Supervisor
  imports Contract Sbi Trap
begin

text \<open>
  The SUPERVISOR build: SYSTEM instructions (src/src/supervisor/cpu_supervisor.c) and the platform
  the interpreter is linked against. The running core is the \<open>core\<close> of the hart; its entry in the
  machine is brought up to date before a call that goes through \<open>threads_mgr\<close> and read back after
  it, since in the code both are the same object.
\<close>

unbundle bit_operations_syntax

type_synonym sv_hart = "machine hart"

section \<open>The hart as an entry of the machine\<close>

definition flush :: "sv_hart \<Rightarrow> machine" where
  "flush h = set_core (me (world h)) (core h) (world h)"

definition reload :: "sv_hart \<Rightarrow> machine \<Rightarrow> sv_hart" where
  "reload h m = h\<lparr>core := ct_core (cthreads m ! me m), world := m\<rparr>"

section \<open>Environment calls\<close>

abbreviation (input) ECALL :: u32 where "ECALL \<equiv> 0"
abbreviation (input) EBREAK :: u32 where "EBREAK \<equiv> 1"

definition sv_env :: "sv_hart \<Rightarrow> u32 \<Rightarrow> sv_hart result" where
  "sv_env h ins =
    (let imm = I_IMM ins
     in if imm = ECALL then
          and_then
            (if mode (core h) = SUPERVISOR_MODE
             then and_then (emu_sbi_call (mem_size (ram h)) (flush h)) (\<lambda>m. Inr (reload h m))
             else dispatch_trap h ECALL_U_MODE (reg h PC))
            (\<lambda>h. Inr (add_pc 4 h))
        else if imm = EBREAK then
          (if ctx_debug (world h) then Inr (reload h (threads_mgr_halt_cores (flush h)))
           else dispatch_trap h BRKPT (reg h PC))
        else dispatch_trap h ILL_INS ins)"

section \<open>Control and status registers\<close>

abbreviation (input) CSRRW :: u32 where "CSRRW \<equiv> 0x001"
abbreviation (input) CSRRS :: u32 where "CSRRS \<equiv> 0x010"
abbreviation (input) CSRRC :: u32 where "CSRRC \<equiv> 0x011"
abbreviation (input) CSRRWI :: u32 where "CSRRWI \<equiv> 0x101"
abbreviation (input) CSRRSI :: u32 where "CSRRSI \<equiv> 0x110"
abbreviation (input) CSRRCI :: u32 where "CSRRCI \<equiv> 0x111"

abbreviation (input) STVEC_ADDR :: u32 where "STVEC_ADDR \<equiv> 0x105"
abbreviation (input) SIE_ADDR :: u32 where "SIE_ADDR \<equiv> 0x104"
abbreviation (input) SIP_ADDR :: u32 where "SIP_ADDR \<equiv> 0x144"

definition csr_index :: "u32 \<Rightarrow> nat option" where
  "csr_index csr_addr =
    (if csr_addr = 0x100 then Some SSTATUS
     else if csr_addr = SIE_ADDR then Some SIE
     else if csr_addr = STVEC_ADDR then Some STVEC
     else if csr_addr = 0x106 then Some SCOUNTEREN
     else if csr_addr = 0x10B then Some SENVCFG
     else if csr_addr = 0x140 then Some SSCRATCH
     else if csr_addr = 0x141 then Some SEPC
     else if csr_addr = 0x142 then Some SCAUSE
     else if csr_addr = 0x143 then Some STVAL
     else if csr_addr = SIP_ADDR then Some SIP
     else if csr_addr = 0x180 then Some SATP
     else None)"

definition GET_CSR_ACCESS :: "u32 \<Rightarrow> u32" where "GET_CSR_ACCESS csr_addr = csr_addr AND 0xC00"
definition GET_CSR_PRIVILEGE :: "u32 \<Rightarrow> u32" where "GET_CSR_PRIVILEGE csr_addr = csr_addr AND 0x300"

definition wild_pointer :: stop where
  "wild_pointer = Undefined ''csr is uninitialised''"

text \<open>\<open>*rd = *csr; *csr = f(*csr)\<close> through the pointer \<open>csr\<close>, \<open>None\<close> when it was never set.\<close>

definition csr_swap :: "nat option \<Rightarrow> nat \<Rightarrow> (u32 \<Rightarrow> u32) \<Rightarrow> sv_hart \<Rightarrow> sv_hart result" where
  "csr_swap csr rd f h = (case csr of
     None \<Rightarrow> Inl wild_pointer
   | Some i \<Rightarrow> (let h1 = set_reg rd (reg h i) h in Inr (set_reg i (f (reg h1 i)) h1)))"

definition csr_mask :: "u32 \<Rightarrow> u32 \<Rightarrow> u32" where
  "csr_mask csr_addr v =
    (let v = (if csr_addr = SIP_ADDR then v AND push_bit 1 1 else v)
     in if csr_addr = SIE_ADDR then v AND (push_bit 9 1 OR push_bit 5 1 OR push_bit 1 1) else v)"

definition csr_access :: "sv_hart \<Rightarrow> u32 \<Rightarrow> nat option \<Rightarrow> sv_hart result" where
  "csr_access h ins csr =
    (let func = FUNC ins; csr_addr = I_IMM ins; rs1_val = reg h (unat (RS1 ins)); rs1_imm = RS1 ins;
         rd = unat (RD ins)
     in if GET_CSR_ACCESS csr_addr = 0xC00 \<and> (func = CSRRS \<or> func = CSRRC) \<and> RS1 ins \<noteq> 0
        then dispatch_trap h ILL_INS ins
        else if GET_CSR_ACCESS csr_addr = 0xC00 \<and> (func = CSRRSI \<or> func = CSRRCI) \<and> rs1_val \<noteq> 0
        then dispatch_trap h ILL_INS ins
        else
          (let rs1_val = csr_mask csr_addr rs1_val; rs1_imm = csr_mask csr_addr rs1_imm
           in and_then
             (if func = CSRRW then csr_swap csr rd (\<lambda>_. rs1_val) h
              else if func = CSRRS then csr_swap csr rd (\<lambda>old. old OR rs1_val) h
              else if func = CSRRC then csr_swap csr rd (\<lambda>old. old AND NOT rs1_val) h
              else if func = CSRRWI then csr_swap csr rd (\<lambda>_. rs1_imm) h
              else if func = CSRRSI then csr_swap csr rd (\<lambda>old. old OR rs1_imm) h
              else if func = CSRRCI then csr_swap csr rd (\<lambda>old. old AND NOT rs1_imm) h
              else Inr h)
             (\<lambda>h. if csr_addr = STVEC_ADDR then
                     (case csr of
                        None \<Rightarrow> Inl wild_pointer
                      | Some i \<Rightarrow> if STVEC_MODE (reg h i) \<ge> 2
                                  then Inr (set_reg i (reg h i AND NOT 0x3) h) else Inr h)
                   else Inr h)))"

definition vcore_sys_type :: "sv_hart \<Rightarrow> u32 \<Rightarrow> sv_hart result" where
  "vcore_sys_type h ins =
    (let func = FUNC ins; imm = I_IMM ins
     in if func = 0 then sv_env h ins
        else if GET_CSR_PRIVILEGE imm = 0x100 then
          (if mode (core h) \<noteq> SUPERVISOR_MODE then dispatch_trap h ILL_INS ins
           else (case csr_index imm of
                   None \<Rightarrow> dispatch_trap h ILL_INS ins
                 | Some i \<Rightarrow> csr_access h ins (Some i)))
        else if GET_CSR_PRIVILEGE imm = 0 then csr_access h ins None
        else dispatch_trap h ILL_INS ins)"

definition supervisor :: "machine platform" where
  "supervisor = \<lparr>plat_trap = dispatch_trap, plat_sys = vcore_sys_type, plat_irq = check_interrupts\<rparr>"

lemma supervisor_simps [simp]:
  "plat_trap supervisor = dispatch_trap" "plat_sys supervisor = vcore_sys_type"
  "plat_irq supervisor = check_interrupts"
  by (simp_all add: supervisor_def)

section \<open>The contracts of the interpreter\<close>

interpretation sv_trap: trap_contract supervisor
  by unfold_locales (auto simp: dispatch_trap_eq hart_simps split: if_splits)

lemma csr_swap_ram: "csr_swap csr rd f h = Inr h' \<Longrightarrow> ram h' = ram h"
  by (auto simp: csr_swap_def Let_def hart_simps split: option.splits)

lemma dispatch_ram: "dispatch_trap h code v = Inr h' \<Longrightarrow> ram h' = ram h"
  by (auto simp: dispatch_trap_eq hart_simps split: if_splits)

lemma sys_ram: "vcore_sys_type h ins = Inr h' \<Longrightarrow> ram h' = ram h"
  by (auto simp: vcore_sys_type_def sv_env_def csr_access_def Let_def result_simps hart_simps
      reload_def split: if_splits option.splits dest!: csr_swap_ram dispatch_ram)

interpretation sv_sized: sized_platform supervisor
  by unfold_locales (simp_all add: sys_ram check_interrupts_keeps)

section \<open>What every instruction keeps\<close>

definition core_ok :: "VCore \<Rightarrow> bool" where
  "core_ok k \<longleftrightarrow> stvec_ok (regs k STVEC) \<and> mode k = SUPERVISOR_MODE"

definition own_ok :: "machine \<Rightarrow> bool" where
  "own_ok m \<longleftrightarrow> me m < ctx_cores m \<and> core_ok (ct_core (cthreads m ! me m))"

definition sv_ok :: "sv_hart \<Rightarrow> bool" where
  "sv_ok h \<longleftrightarrow> core_ok (core h) \<and> me (world h) < ctx_cores (world h)"

lemma core_ok_init: "core_ok (vcore_init i)"
  by (cases i) (simp_all add: core_ok_def vcore_init_def zero_core_def stvec_ok_def STVEC_MODE_def)

lemma own_ok_set_areg: "own_ok m \<Longrightarrow> i \<noteq> STVEC \<Longrightarrow> own_ok (set_areg i v m)"
  by (simp add: own_ok_def set_areg_def core_ok_def)

lemma own_ok_set_core: "own_ok m \<Longrightarrow> i < ctx_cores m \<Longrightarrow> core_ok k \<Longrightarrow> own_ok (set_core i k m)"
  by (simp add: own_ok_def thread_simps)

lemma signal_core_ok:
  "cthread_signal_hsm g c = Inr c' \<Longrightarrow> core_ok (ct_core c') = core_ok (ct_core c)"
  by (auto simp: cthread_signal_hsm_def Let_def set_exit_flag_def core_ok_def
      split: if_splits option.splits)

lemma own_ok_signal:
  assumes "on_core i (cthread_signal_hsm g) m = Inr m'" and "own_ok m"
  shows "own_ok m'"
  using on_core_simps [OF assms(1)] assms(2) signal_core_ok
  by (cases "i = me m") (auto simp: own_ok_def)

lemma hsm_signals:
  "cthread_signal_start = cthread_signal_hsm START_S" "cthread_signal_stop = cthread_signal_hsm STOP_S"
  "cthread_signal_suspend = cthread_signal_hsm SUSPEND_S"
  by (simp_all add: fun_eq_iff cthread_signal_start_def cthread_signal_stop_def cthread_signal_suspend_def)

lemma hsm_own_ok:
  "own_ok m \<Longrightarrow> hsm_start mem_sz m = Inr m' \<Longrightarrow> own_ok m'"
  "own_ok m \<Longrightarrow> hsm_stop m = Inr m' \<Longrightarrow> own_ok m'"
  "own_ok m \<Longrightarrow> hsm_status m = Inr m' \<Longrightarrow> own_ok m'"
  "own_ok m \<Longrightarrow> hsm_suspend mem_sz m = Inr m' \<Longrightarrow> own_ok m'"
  unfolding hsm_start_def hsm_stop_def hsm_status_def hsm_suspend_def Let_def hsm_signals
  by (auto simp: result_simps split: if_splits
      intro!: own_ok_set_areg elim!: own_ok_signal intro: own_ok_set_core core_ok_init)

lemma base_own_ok: "own_ok m \<Longrightarrow> own_ok (base_ext m)"
  by (simp add: base_ext_def Let_def own_ok_set_areg)

lemma hsm_ext_own_ok: "own_ok m \<Longrightarrow> hsm_ext mem_sz m = Inr m' \<Longrightarrow> own_ok m'"
  by (auto simp: hsm_ext_def Let_def own_ok_set_areg split: if_splits intro: hsm_own_ok)

lemma sbi_own_ok: "emu_sbi_call mem_sz m = Inr m' \<Longrightarrow> own_ok m \<Longrightarrow> own_ok m'"
  by (auto simp: emu_sbi_call_def Let_def base_own_ok own_ok_set_areg split: if_splits
      intro: hsm_ext_own_ok)

lemma on_core_not_bug: "run_signal g \<Longrightarrow> on_core i (cthread_signal_hsm g) m \<noteq> Inl stvec_bug"
  using signal_hsm_total [of g "cthreads m ! i"]
  by (auto simp: on_core_def out_of_cores_def stvec_bug_def result_simps)

lemma sbi_not_bug: "emu_sbi_call mem_sz m \<noteq> Inl stvec_bug"
  using on_core_not_bug [of START_S] on_core_not_bug [of STOP_S] on_core_not_bug [of SUSPEND_S]
  by (auto simp: emu_sbi_call_def hsm_ext_def hsm_start_def hsm_stop_def hsm_status_def
      hsm_suspend_def Let_def result_simps hsm_signals out_of_cores_def stvec_bug_def)

lemma own_ok_flush: "sv_ok h \<Longrightarrow> own_ok (flush h)"
  by (simp add: sv_ok_def flush_def own_ok_def thread_simps)

lemma sv_ok_reload: "own_ok m \<Longrightarrow> sv_ok (reload h m)"
  by (simp add: sv_ok_def reload_def own_ok_def)

lemma own_ok_halt: "own_ok m \<Longrightarrow> own_ok (threads_mgr_halt_cores m)"
  by (simp add: own_ok_def threads_mgr_halt_cores_def cthread_signal_halt_def set_exit_flag_def core_ok_def)

lemma sv_ok_set_reg: "sv_ok h \<Longrightarrow> i \<noteq> STVEC \<Longrightarrow> sv_ok (set_reg i v h)"
  by (simp add: sv_ok_def core_ok_def set_reg_def)

lemma sv_ok_trapped: "sv_ok h \<Longrightarrow> sv_ok (trapped h code v)"
proof -
  have "regs (core (trapped h code v)) STVEC = regs (core h) STVEC"
    using reg_trapped [of h code v STVEC] by (simp add: reg_def)
  then show "sv_ok h \<Longrightarrow> sv_ok (trapped h code v)"
    by (simp add: sv_ok_def core_ok_def hart_simps)
qed

lemma sv_ok_dispatch: "sv_ok h \<Longrightarrow> dispatch_trap h code v = Inr h' \<Longrightarrow> sv_ok h'"
  by (auto simp: dispatch_trap_eq sv_ok_trapped split: if_splits)

lemma dispatch_not_bug: "sv_ok h \<Longrightarrow> dispatch_trap h code v \<noteq> Inl stvec_bug"
  by (auto simp: dispatch_trap_eq sv_ok_def core_ok_def reg_def)

lemma sv_ok_swap:
  assumes "csr_swap csr rd f h = Inr h'" "sv_ok h" "rd < 32" "csr \<noteq> Some STVEC"
  shows "sv_ok h'"
  using assms by (auto simp: csr_swap_def Let_def intro!: sv_ok_set_reg split: option.splits)

lemma stvec_cleared: "stvec_ok (v AND NOT 0x3)"
proof -
  have "(v AND NOT 0x3) AND 0x3 = (0 :: u32)"
    by (metis and.assoc and.right_neutral bit.conj_cancel_left bit.conj_zero_right)
  then show ?thesis by (simp add: stvec_ok_def STVEC_MODE_def)
qed

lemma csr_index_bounds: "csr_index a = Some i \<Longrightarrow> SATP \<le> i \<and> i \<le> SENVCFG"
  by (auto simp: csr_index_def split: if_splits)

lemma csr_index_stvec: "csr_index a = Some i \<Longrightarrow> (i = STVEC) = (a = STVEC_ADDR)"
  by (auto simp: csr_index_def split: if_splits)

text \<open>A swap through any CSR pointer, followed by the WARL fix, leaves a legal STVEC.\<close>

definition warl_fix :: "u32 \<Rightarrow> nat option \<Rightarrow> sv_hart \<Rightarrow> sv_hart result" where
  "warl_fix csr_addr csr h =
     (if csr_addr = STVEC_ADDR then
        (case csr of
           None \<Rightarrow> Inl wild_pointer
         | Some i \<Rightarrow> if STVEC_MODE (reg h i) \<ge> 2
                     then Inr (set_reg i (reg h i AND NOT 0x3) h) else Inr h)
      else Inr h)"

lemma stvec_small: "\<not> STVEC_MODE v \<ge> 2 \<Longrightarrow> stvec_ok v"
proof -
  assume "\<not> STVEC_MODE v \<ge> 2"
  then have "unat (STVEC_MODE v) < 2" by (simp add: word_le_nat_alt)
  then have "unat (STVEC_MODE v) = 0 \<or> unat (STVEC_MODE v) = 1" by linarith
  then show "stvec_ok v" by (auto simp: stvec_ok_def word_unat_eq_iff)
qed

lemma sv_ok_swap_fix:
  assumes "and_then (csr_swap csr rd f h) (warl_fix a csr) = Inr h'" and "sv_ok h" and "rd < 32"
    and csr: "\<And>i. csr = Some i \<Longrightarrow> csr_index a = Some i"
  shows "sv_ok h'"
proof -
  from assms(1) obtain i h1 where i: "csr = Some i" and h1: "csr_swap csr rd f h = Inr h1"
    and h': "warl_fix a csr h1 = Inr h'"
    by (auto simp: result_simps csr_swap_def split: option.splits)
  show ?thesis
  proof (cases "i = STVEC")
    case False
    then have "sv_ok h1" using sv_ok_swap [OF h1 assms(2,3)] i by simp
    moreover have "a \<noteq> STVEC_ADDR" using csr_index_stvec [OF csr [OF i]] False by simp
    ultimately show ?thesis using h' by (simp add: warl_fix_def)
  next
    case True
    then have a: "a = STVEC_ADDR" using csr_index_stvec [OF csr [OF i]] by simp
    have "mode (core h1) = SUPERVISOR_MODE \<and> me (world h1) < ctx_cores (world h1)"
      using h1 i assms(2) by (auto simp: csr_swap_def Let_def hart_simps sv_ok_def core_ok_def)
    then show ?thesis
      using h' a i True stvec_small [of "reg h1 STVEC"] stvec_cleared [of "reg h1 STVEC"]
      by (auto simp: warl_fix_def sv_ok_def core_ok_def set_reg_def reg_def split: if_splits)
  qed
qed

lemma sv_ok_fix: "sv_ok h \<Longrightarrow> warl_fix a csr h = Inr h' \<Longrightarrow> (\<And>i. csr = Some i \<Longrightarrow> csr_index a = Some i) \<Longrightarrow> sv_ok h'"
proof -
  assume ok: "sv_ok h" and wf: "warl_fix a csr h = Inr h'"
    and csr: "\<And>i. csr = Some i \<Longrightarrow> csr_index a = Some i"
  have "STVEC_MODE (reg h STVEC) = 0 \<or> STVEC_MODE (reg h STVEC) = 1"
    using ok by (simp add: sv_ok_def core_ok_def stvec_ok_def reg_def)
  then have "\<not> STVEC_MODE (reg h STVEC) \<ge> 2" by (auto simp: word_le_nat_alt)
  then show "sv_ok h'"
    using wf ok csr csr_index_stvec [of a]
    by (auto simp: warl_fix_def split: if_splits option.splits)
qed

lemma sv_ok_access:
  assumes "csr_access h ins csr = Inr h'" and "sv_ok h"
    and "\<And>i. csr = Some i \<Longrightarrow> csr_index (I_IMM ins) = Some i"
  shows "sv_ok h'"
  using assms RD_less [of ins]
  unfolding csr_access_def Let_def warl_fix_def [symmetric]
  by (auto split: if_splits dest: sv_ok_dispatch sv_ok_swap_fix sv_ok_fix)

lemma wild_not_bug: "wild_pointer \<noteq> stvec_bug"
  by (simp add: wild_pointer_def stvec_bug_def)

lemma access_not_bug: "sv_ok h \<Longrightarrow> csr_access h ins csr \<noteq> Inl stvec_bug"
  by (auto simp: csr_access_def Let_def result_simps csr_swap_def dispatch_not_bug wild_not_bug
      split: option.splits)

lemma sv_ok_env: "sv_env h ins = Inr h' \<Longrightarrow> sv_ok h \<Longrightarrow> sv_ok h'"
  by (auto simp: sv_env_def Let_def result_simps add_pc_def split: if_splits
      intro!: sv_ok_set_reg intro: sv_ok_reload own_ok_halt own_ok_flush sbi_own_ok sv_ok_dispatch)

lemma sv_ok_sys: "vcore_sys_type h ins = Inr h' \<Longrightarrow> sv_ok h \<Longrightarrow> sv_ok h'"
  by (auto simp: vcore_sys_type_def Let_def split: if_splits option.splits
      dest: sv_ok_env sv_ok_dispatch sv_ok_access)

lemma sys_not_bug: "sv_ok h \<Longrightarrow> vcore_sys_type h ins \<noteq> Inl stvec_bug"
  by (auto simp: vcore_sys_type_def sv_env_def Let_def result_simps sbi_not_bug dispatch_not_bug
      access_not_bug split: option.splits)

lemma sv_ok_interrupts:
  assumes "check_interrupts h = Inr h'" "sv_ok h"
  shows "sv_ok h'"
  using check_interrupts_keeps [OF assms(1)] assms(2) by (auto simp: sv_ok_def core_ok_def reg_def)

lemma interrupts_not_bug: "sv_ok h \<Longrightarrow> check_interrupts h \<noteq> Inl stvec_bug"
  by (simp add: check_interrupts_eq sv_ok_def core_ok_def reg_def)

lemma bug_distinct: "stvec_bug \<noteq> Exit 1" "stvec_bug \<noteq> out_of_vmem" "stvec_bug \<noteq> Out_Of_Fuel"
  by (simp_all add: stvec_bug_def out_of_vmem_def)

lemma sv_ok_updates:
  "sv_ok h \<Longrightarrow> sv_ok (h\<lparr>ram := m\<rparr>)"
  "sv_ok h \<Longrightarrow> sv_ok (h\<lparr>core := (core h)\<lparr>ll_sc_flag := b, reserved := v\<rparr>\<rparr>)"
  by (simp_all add: sv_ok_def core_ok_def)

interpretation sv: platform_invariant supervisor sv_ok stvec_bug
  by unfold_locales
    (simp_all only: supervisor_simps bug_distinct not_False_eq_True,
      (rule sv_ok_set_reg sv_ok_updates, assumption, simp
        | erule sv_ok_updates dispatch_not_bug sys_not_bug interrupts_not_bug
        | erule (1) sv_ok_dispatch | rule sv_ok_sys, assumption, assumption
        | rule sv_ok_interrupts, assumption, assumption)+)

end
