(* ===== verification/Isa_Exec.thy ===== *)
theory Isa_Exec
  imports Isa
begin

text \<open>
  Whole instructions: \<open>vcore_exec\<close>, the opcode switch of \<open>vcore_run\<close>, run on the instruction words
  of the RISC-V formats, does what the manual says, for every operand and every register index.
  What the lemmas about single fields prove bit by bit is put together here once per format.
\<close>

unbundle bit_operations_syntax

section \<open>Fetching the fields of an encoded instruction\<close>

lemma unat_field [decode_simps]: "unat (ucast (r :: 5 word) :: u32) = unat r"
  using unsigned_less [of r, where ?'a=nat] by (simp add: unsigned_ucast_eq take_bit_nat_eq_self)

lemma not_compressed: "x AND 3 = 3 \<Longrightarrow> \<not> IS_COMPRESSED x"
  by (simp add: IS_COMPRESSED_def)

lemma opcode_low: "OPCODE_TYPE x AND 3 = x AND 3"
proof (rule bit_word_eqI)
  fix n assume "n < LENGTH(32)"
  have "bit (3 :: u32) n \<longleftrightarrow> n < 2"
    using bit_mask_iff [of 2 n, where ?'a = "32 word"] \<open>n < LENGTH(32)\<close>
    by (simp add: mask_eq_exp_minus_1)
  then show "bit (OPCODE_TYPE x AND 3) n = bit (x AND 3) n"
    by (auto simp: bit_and_iff bit_OPCODE_TYPE)
qed

lemma opcode_not_compressed: "OPCODE_TYPE x AND 3 = 3 \<Longrightarrow> \<not> IS_COMPRESSED x"
  by (simp add: opcode_low not_compressed)

lemma exec_dispatch:
  assumes "OPCODE_TYPE ins = op"
  shows
    "op = R_TYPE \<Longrightarrow> vcore_exec plat h ins = vcore_r_type (plat_trap plat) h ins"
    "op = IR_TYPE \<Longrightarrow> vcore_exec plat h ins = vcore_ir_type (plat_trap plat) h ins"
    "op = IL_TYPE \<Longrightarrow> vcore_exec plat h ins = vcore_il_type (plat_trap plat) h ins"
    "op = S_TYPE \<Longrightarrow> vcore_exec plat h ins = vcore_s_type (plat_trap plat) h ins"
    "op = B_TYPE \<Longrightarrow> vcore_exec plat h ins = vcore_b_type (plat_trap plat) h ins"
    "op = J_TYPE \<Longrightarrow> vcore_exec plat h ins = vcore_j_type h ins"
    "op = IJ_TYPE \<Longrightarrow> vcore_exec plat h ins = vcore_ij_type h ins"
    "op = LUI_TYPE \<Longrightarrow> vcore_exec plat h ins = vcore_lui_type h ins"
    "op = AUIPC_TYPE \<Longrightarrow> vcore_exec plat h ins = vcore_auipc_type h ins"
    "op = A_TYPE \<Longrightarrow> vcore_exec plat h ins = vcore_a_type (plat_trap plat) h ins"
    "op = SYS_TYPE \<Longrightarrow> vcore_exec plat h ins = plat_sys plat h ins"
  using assms opcode_not_compressed [of ins] by (simp_all add: vcore_exec_def)

section \<open>Register-register instructions\<close>

lemma all_ones: "(- 1 :: u32) = 0xFFFFFFFF"
  by simp

lemma least_word: "(- 2147483648 :: u32) = 2147483648"
  by simp

lemma smod_1: "(2147483648 :: int) smod 1 = 0"
  by (simp add: signed_modulo_int_def)

lemma r_type_reference:
  "R_FUNC ins = rop_func op \<Longrightarrow> vcore_r_type trap h ins =
     Inr (add_pc 4 (set_reg (unat (RD ins))
       (rv32_op op (reg h (unat (RS1 ins))) (reg h (unat (RS2 ins)))) h))"
  apply (cases "reg h (unat (RS2 ins)) = 0 \<and> op \<in> {R_DIV, R_DIVU, R_REM, R_REMU}")
  subgoal
    by (auto simp: vcore_r_type_def Let_def rop_func_values simp flip: all_ones)
  subgoal
    using r_switch_reference [of "reg h (unat (RS2 ins))" op "reg h (unat (RS1 ins))"]
    by (cases op) (auto simp: vcore_r_type_def Let_def rop_func_values sdiv_overflow least_word smod_1)
  done

text \<open>
  C1: a register-register instruction of RV32IM, executed by the core, writes the value of the
  manual's operation to \<open>rd\<close>, advances the PC by 4 and changes nothing else; for all 18
  operations and all operands, division by zero and the signed overflow included.
\<close>

theorem r_type_executes:
  "vcore_exec plat h (enc_R (rop_f7 op) rs2 rs1 (rop_f3 op) rd 0x33) =
     Inr (add_pc 4 (set_reg (unat rd) (rv32_op op (reg h (unat rs1)) (reg h (unat rs2))) h))"
  using r_type_reference [of "enc_R (rop_f7 op) rs2 rs1 (rop_f3 op) rd 0x33" op "plat_trap plat" h]
  by (simp add: exec_dispatch opcode_fields decode_simps rop_func_def)

section \<open>Register-immediate instructions\<close>

datatype iop = ADDI | SLTI | SLTIU | XORI | ORI | ANDI

fun iop_rop :: "iop \<Rightarrow> rop" where
  "iop_rop ADDI = R_ADD" | "iop_rop SLTI = R_SLT" | "iop_rop SLTIU = R_SLTU"
| "iop_rop XORI = R_XOR" | "iop_rop ORI = R_OR" | "iop_rop ANDI = R_AND"

datatype sop = SLLI | SRLI | SRAI

fun sop_rop :: "sop \<Rightarrow> rop" where
  "sop_rop SLLI = R_SLL" | "sop_rop SRLI = R_SRL" | "sop_rop SRAI = R_SRA"

lemma R_FUNC_low: "R_FUNC x AND 7 = FUNC x"
  by (rule bit_word_eqI) (simp only: bit_and_iff bit_R_FUNC bit_FUNC bit_low_mask, auto)

lemma not_shift_func:
  "FUNC x \<noteq> 5 \<Longrightarrow> FUNC x \<noteq> 1 \<Longrightarrow> R_FUNC x \<noteq> SRA_F \<and> R_FUNC x \<noteq> SRL_F \<and> R_FUNC x \<noteq> SLL_F"
  using R_FUNC_low [of x] by auto

lemma ir_type_reference:
  "FUNC ins = ucast (rop_f3 (iop_rop op)) \<Longrightarrow> vcore_ir_type trap h ins =
     Inr (add_pc 4 (set_reg (unat (RD ins))
       (rv32_op (iop_rop op) (reg h (unat (RS1 ins))) (I_IMM ins)) h))"
  using not_shift_func [of ins]
  by (cases op) (simp_all add: vcore_ir_type_def Let_def word_less_def)

lemma shift_imm_rs2: "unat (RS2 ins AND 31) = unat (RS2 ins)"
proof -
  have "RS2 ins AND 31 = RS2 ins"
    by (rule bit_word_eqI) (simp only: bit_and_iff bit_RS2 bit_low_mask, auto)
  then show ?thesis by simp
qed

lemma shift_type_reference:
  "R_FUNC ins = rop_func (sop_rop op) \<Longrightarrow> vcore_ir_type trap h ins =
     Inr (add_pc 4 (set_reg (unat (RD ins))
       (rv32_op (sop_rop op) (reg h (unat (RS1 ins))) (RS2 ins)) h))"
  using RS2_less [of ins]
  by (cases op)
    (simp_all add: vcore_ir_type_def Let_def rop_func_values shift_imm_rs2 sll_mult srl_div sra_div)

text \<open>
  C28: a register-immediate instruction computes the same operation as its register-register
  sibling on the sign-extended immediate, and a shift by an immediate on the 5-bit amount.
\<close>

theorem ir_type_executes:
  "vcore_exec plat h (enc_I imm rs1 (rop_f3 (iop_rop op)) rd 0x13) =
     Inr (add_pc 4 (set_reg (unat rd) (rv32_op (iop_rop op) (reg h (unat rs1)) (scast imm)) h))
   \<and> vcore_exec plat h (enc_R (rop_f7 (sop_rop sh)) amount rs1 (rop_f3 (sop_rop sh)) rd 0x13) =
     Inr (add_pc 4 (set_reg (unat rd) (rv32_op (sop_rop sh) (reg h (unat rs1)) (ucast amount)) h))"
  using ir_type_reference [of "enc_I imm rs1 (rop_f3 (iop_rop op)) rd 0x13" op "plat_trap plat" h]
    shift_type_reference [of "enc_R (rop_f7 (sop_rop sh)) amount rs1 (rop_f3 (sop_rop sh)) rd 0x13"
      sh "plat_trap plat" h]
  by (simp add: exec_dispatch opcode_fields decode_simps rop_func_def I_IMM_enc)

section \<open>Branches\<close>

datatype bop = B_EQ | B_NE | B_LT | B_GE | B_LTU | B_GEU

fun bop_f3 :: "bop \<Rightarrow> 3 word" where
  "bop_f3 B_EQ = 0" | "bop_f3 B_NE = 1" | "bop_f3 B_LT = 4" | "bop_f3 B_GE = 5"
| "bop_f3 B_LTU = 6" | "bop_f3 B_GEU = 7"

fun bop_taken :: "bop \<Rightarrow> u32 \<Rightarrow> u32 \<Rightarrow> bool" where
  "bop_taken B_EQ a b \<longleftrightarrow> uint a = uint b"
| "bop_taken B_NE a b \<longleftrightarrow> uint a \<noteq> uint b"
| "bop_taken B_LT a b \<longleftrightarrow> sint a < sint b"
| "bop_taken B_GE a b \<longleftrightarrow> \<not> sint a < sint b"
| "bop_taken B_LTU a b \<longleftrightarrow> uint a < uint b"
| "bop_taken B_GEU a b \<longleftrightarrow> \<not> uint a < uint b"

lemma b_type_reference:
  "FUNC ins = ucast (bop_f3 op) \<Longrightarrow> vcore_b_type trap h ins =
     Inr (add_pc (if bop_taken op (reg h (unat (RS1 ins))) (reg h (unat (RS2 ins)))
                  then B_IMM ins else 4) h)"
  by (cases op) (auto simp: vcore_b_type_def Let_def word_less_def word_le_def simp flip: word_uint_eq_iff)

text \<open>
  C29: a conditional branch moves the PC by the encoded byte offset exactly when the manual's
  signed or unsigned comparison of the two registers holds, by 4 otherwise, and writes nothing
  else.
\<close>

theorem b_type_executes:
  "vcore_exec plat h (enc_B offset rs2 rs1 (bop_f3 op) 0x63) =
     Inr (add_pc (if bop_taken op (reg h (unat rs1)) (reg h (unat rs2)) then 2 * scast offset else 4) h)"
  using b_type_reference [of "enc_B offset rs2 rs1 (bop_f3 op) 0x63" op "plat_trap plat" h]
  by (simp add: exec_dispatch opcode_fields decode_simps B_IMM_enc)

section \<open>Jumps and upper immediates\<close>

text \<open>
  The link register of a jump receives the address of the next instruction. JAL jumps by the
  encoded offset; JALR jumps to \<open>rs1 + imm\<close> with the value \<open>rs1\<close> had before, except when \<open>rd\<close>
  is \<open>rs1\<close>: the code overwrites the register first and jumps relative to the return address.
  LUI and AUIPC write the shifted immediate and its sum with the PC.
\<close>

theorem jumps_execute:
  "vcore_exec plat h (enc_J off20 rd 0x6F) =
     Inr (set_reg PC (reg h PC + 2 * scast off20) (set_reg (unat rd) (reg h PC + 4) h))
   \<and> vcore_exec plat h (enc_I imm rs1 0 rd 0x67) =
     Inr (set_reg PC ((if rd = rs1 then reg h PC + 4 else reg h (unat rs1)) + scast imm)
       (set_reg (unat rd) (reg h PC + 4) h))
   \<and> vcore_exec plat h (enc_U imm20 rd 0x37) =
     Inr (add_pc 4 (set_reg (unat rd) (push_bit 12 (ucast imm20)) h))
   \<and> vcore_exec plat h (enc_U imm20 rd 0x17) =
     Inr (add_pc 4 (set_reg (unat rd) (reg h PC + push_bit 12 (ucast imm20)) h))"
proof -
  have small: "unat (r :: 5 word) \<noteq> 32" for r
    using unsigned_less [of r, where ?'a=nat] by simp
  have same: "unat r = unat r' \<longleftrightarrow> r = r'" for r r' :: "5 word"
    by (simp add: word_unat_eq_iff)
  show ?thesis
    by (simp add: exec_dispatch opcode_fields decode_simps vcore_j_type_def vcore_ij_type_def
        vcore_lui_type_def vcore_auipc_type_def I_IMM_enc J_IMM_enc U_IMM_enc Let_def add_pc_def
        hart_simps small same eq_commute [of rs1] eq_commute [of "32 :: nat"])
qed

end
