(* ===== verification/Isa_Mem.thy ===== *)
theory Isa_Mem
  imports Isa_Exec
begin

text \<open>
  Loads, stores and atomics as whole instructions: sign and zero extension, a store read back by a
  load, the read-modify-write operations against the manual's, and the LR/SC pair as the code
  implements it.
\<close>

unbundle bit_operations_syntax

section \<open>Sign extension\<close>

lemma top_bit_nat: "n < 2 ^ Suc k \<Longrightarrow> bit (n :: nat) k \<longleftrightarrow> 2 ^ k \<le> n"
proof -
  assume n: "n < 2 ^ Suc k"
  then have "n div 2 ^ k < 2" by (simp add: less_mult_imp_div_less)
  then have "odd (n div 2 ^ k) \<longleftrightarrow> n div 2 ^ k \<noteq> 0"
    by (metis One_nat_def even_zero less_2_cases odd_one)
  then show ?thesis by (simp add: bit_iff_odd div_eq_0_iff not_less)
qed

lemma top_bit: "LENGTH('a) = Suc k \<Longrightarrow> bit (w :: 'a::len word) k \<longleftrightarrow> 2 ^ k \<le> unat w"
  using top_bit_nat [of "unat w" k] unsigned_less [of w, where ?'a=nat]
  by (simp add: bit_unsigned_iff)

lemma bit_ones_above:
  "bit (0xFFFFFF00 :: u32) n \<longleftrightarrow> 8 \<le> n \<and> n < 32" "bit (0xFFFF0000 :: u32) n \<longleftrightarrow> 16 \<le> n \<and> n < 32"
proof -
  have "(0xFFFFFF00 :: u32) = push_bit 8 (mask 24)" "(0xFFFF0000 :: u32) = push_bit 16 (mask 16)"
    by (simp_all add: mask_eq_exp_minus_1)
  then show "bit (0xFFFFFF00 :: u32) n \<longleftrightarrow> 8 \<le> n \<and> n < 32"
    "bit (0xFFFF0000 :: u32) n \<longleftrightarrow> 16 \<le> n \<and> n < 32"
    by (simp_all only: bit_push_bit_iff bit_mask_iff possible_bit_word) auto
qed

lemma bit_scast_byte: "bit (scast (b :: u8) :: u32) n \<longleftrightarrow> n < 32 \<and> bit b (if n < 8 then n else 7)"
  by (rule linorder_cases [of n 7]) (auto simp: bit_simps min_def dest: bit_imp_le_length)

lemma bit_scast_half: "bit (scast (b :: u16) :: u32) n \<longleftrightarrow> n < 32 \<and> bit b (if n < 16 then n else 15)"
  by (rule linorder_cases [of n 15]) (auto simp: bit_simps min_def dest: bit_imp_le_length)

lemma sign_extend_byte:
  "(if (ucast b :: u32) \<ge> 0x80 then ucast b OR 0xFFFFFF00 else ucast b) = (scast (b :: u8) :: u32)"
proof -
  have "0x80 \<le> (ucast b :: u32) \<longleftrightarrow> bit b 7"
    using top_bit [of 7 b] unsigned_less [of b, where ?'a=nat]
    by (simp add: word_le_nat_alt unsigned_ucast_eq take_bit_nat_eq_self)
  then show ?thesis
    by (intro bit_word_eqI, cases "bit b 7")
      (simp_all only: if_True if_False bit_or_iff bit_ones_above bit_scast_byte bit_ucast_iff,
        auto dest: bit_imp_le_length)
qed

lemma sign_extend_half:
  "(if (ucast b :: u32) \<ge> 0x8000 then ucast b OR 0xFFFF0000 else ucast b) = (scast (b :: u16) :: u32)"
proof -
  have "0x8000 \<le> (ucast b :: u32) \<longleftrightarrow> bit b 15"
    using top_bit [of 15 b] unsigned_less [of b, where ?'a=nat]
    by (simp add: word_le_nat_alt unsigned_ucast_eq take_bit_nat_eq_self)
  then show ?thesis
    by (intro bit_word_eqI, cases "bit b 15")
      (simp_all only: if_True if_False bit_or_iff bit_ones_above bit_scast_half bit_ucast_iff,
        auto dest: bit_imp_le_length)
qed

section \<open>Loads\<close>

lemma l_type_reference:
  "FUNC ins = LB \<Longrightarrow> vcore_il_type trap h ins =
    and_then (mem_rb (ram h) (reg h (unat (RS1 ins)) + I_IMM ins))
      (\<lambda>b. Inr (add_pc 4 (set_reg (unat (RD ins)) (scast b) h)))"
  "FUNC ins = LH \<Longrightarrow> vcore_il_type trap h ins =
    and_then (mem_rh (ram h) (reg h (unat (RS1 ins)) + I_IMM ins))
      (\<lambda>b. Inr (add_pc 4 (set_reg (unat (RD ins)) (scast b) h)))"
  "FUNC ins = LW \<Longrightarrow> vcore_il_type trap h ins =
    and_then (mem_rw (ram h) (reg h (unat (RS1 ins)) + I_IMM ins))
      (\<lambda>v. Inr (add_pc 4 (set_reg (unat (RD ins)) v h)))"
  "FUNC ins = LBU \<Longrightarrow> vcore_il_type trap h ins =
    and_then (mem_rb (ram h) (reg h (unat (RS1 ins)) + I_IMM ins))
      (\<lambda>b. Inr (add_pc 4 (set_reg (unat (RD ins)) (ucast b) h)))"
  "FUNC ins = LHU \<Longrightarrow> vcore_il_type trap h ins =
    and_then (mem_rh (ram h) (reg h (unat (RS1 ins)) + I_IMM ins))
      (\<lambda>b. Inr (add_pc 4 (set_reg (unat (RD ins)) (ucast b) h)))"
  unfolding vcore_il_type_def Let_def sign_extend_byte sign_extend_half by simp_all

text \<open>
  A load accesses the byte, half-word or word at \<open>rs1 + imm\<close> (sign-extended, wrapping at 32
  bits) and writes it to \<open>rd\<close> sign-extended (LB, LH), zero-extended (LBU, LHU) or as it is (LW).
\<close>

theorem loads_execute:
  "vcore_exec plat h (enc_I imm rs1 0 rd 0x03) =
     and_then (mem_rb (ram h) (reg h (unat rs1) + scast imm))
       (\<lambda>b. Inr (add_pc 4 (set_reg (unat rd) (scast b) h)))
   \<and> vcore_exec plat h (enc_I imm rs1 1 rd 0x03) =
     and_then (mem_rh (ram h) (reg h (unat rs1) + scast imm))
       (\<lambda>b. Inr (add_pc 4 (set_reg (unat rd) (scast b) h)))
   \<and> vcore_exec plat h (enc_I imm rs1 2 rd 0x03) =
     and_then (mem_rw (ram h) (reg h (unat rs1) + scast imm))
       (\<lambda>v. Inr (add_pc 4 (set_reg (unat rd) v h)))
   \<and> vcore_exec plat h (enc_I imm rs1 4 rd 0x03) =
     and_then (mem_rb (ram h) (reg h (unat rs1) + scast imm))
       (\<lambda>b. Inr (add_pc 4 (set_reg (unat rd) (ucast b) h)))
   \<and> vcore_exec plat h (enc_I imm rs1 5 rd 0x03) =
     and_then (mem_rh (ram h) (reg h (unat rs1) + scast imm))
       (\<lambda>b. Inr (add_pc 4 (set_reg (unat rd) (ucast b) h)))"
  by (simp add: exec_dispatch opcode_fields decode_simps l_type_reference I_IMM_enc)

section \<open>Stores\<close>

lemma s_type_reference:
  "FUNC ins = SB \<Longrightarrow> vcore_s_type trap h ins =
    and_then (mem_wb (ram h) (reg h (unat (RS1 ins)) + S_IMM ins) (ucast (reg h (unat (RS2 ins)))))
      (\<lambda>m. Inr (add_pc 4 (h\<lparr>ram := m\<rparr>)))"
  "FUNC ins = SH \<Longrightarrow> vcore_s_type trap h ins =
    and_then (mem_wh (ram h) (reg h (unat (RS1 ins)) + S_IMM ins) (ucast (reg h (unat (RS2 ins)))))
      (\<lambda>m. Inr (add_pc 4 (h\<lparr>ram := m\<rparr>)))"
  "FUNC ins = SW \<Longrightarrow> vcore_s_type trap h ins =
    and_then (mem_ww (ram h) (reg h (unat (RS1 ins)) + S_IMM ins) (reg h (unat (RS2 ins))))
      (\<lambda>m. Inr (add_pc 4 (h\<lparr>ram := m\<rparr>)))"
  unfolding vcore_s_type_def Let_def by simp_all

lemma store_word_exec:
  "vcore_exec plat h (enc_S imm rs2 rs1 2 0x23) =
    and_then (mem_ww (ram h) (reg h (unat rs1) + scast imm) (reg h (unat rs2)))
      (\<lambda>m. Inr (add_pc 4 (h\<lparr>ram := m\<rparr>)))"
  "vcore_exec plat h (enc_S imm rs2 rs1 1 0x23) =
    and_then (mem_wh (ram h) (reg h (unat rs1) + scast imm) (ucast (reg h (unat rs2))))
      (\<lambda>m. Inr (add_pc 4 (h\<lparr>ram := m\<rparr>)))"
  "vcore_exec plat h (enc_S imm rs2 rs1 0 0x23) =
    and_then (mem_wb (ram h) (reg h (unat rs1) + scast imm) (ucast (reg h (unat rs2))))
      (\<lambda>m. Inr (add_pc 4 (h\<lparr>ram := m\<rparr>)))"
  by (simp_all add: exec_dispatch opcode_fields decode_simps s_type_reference S_IMM_enc)

lemma load_word_exec:
  "vcore_exec plat h (enc_I imm rs1 2 rd 0x03) =
    and_then (mem_rw (ram h) (reg h (unat rs1) + scast imm))
      (\<lambda>v. Inr (add_pc 4 (set_reg (unat rd) v h)))"
  "vcore_exec plat h (enc_I imm rs1 1 rd 0x03) =
    and_then (mem_rh (ram h) (reg h (unat rs1) + scast imm))
      (\<lambda>b. Inr (add_pc 4 (set_reg (unat rd) (scast b) h)))"
  "vcore_exec plat h (enc_I imm rs1 4 rd 0x03) =
    and_then (mem_rb (ram h) (reg h (unat rs1) + scast imm))
      (\<lambda>b. Inr (add_pc 4 (set_reg (unat rd) (ucast b) h)))"
  by (simp_all add: exec_dispatch opcode_fields decode_simps l_type_reference I_IMM_enc)

lemma reg_after_store: "i \<noteq> PC \<Longrightarrow> reg (add_pc 4 (h\<lparr>ram := m\<rparr>)) i = reg h i"
  by (simp add: hart_simps)

lemma field_index [simp]: "unat (r :: 5 word) \<noteq> 32" "(32 :: nat) \<noteq> unat r"
  using unsigned_less [of r, where ?'a=nat] by simp_all


text \<open>A hart and a platform for the examples: 4 KiB of memory, x5 an address in it, x6 data.\<close>

definition sample_plat :: "unit platform" where
  "sample_plat = \<lparr>plat_trap = (\<lambda>h code v. Inr h), plat_sys = (\<lambda>h ins. Inr h), plat_irq = Inr\<rparr>"

definition sample_hart :: "unit hart" where
  "sample_hart = \<lparr>core = zero_core\<lparr>regs := (\<lambda>_. 0)(5 := 0x100, 6 := 0x8000FF92)\<rparr>,
     ram = \<lparr>mem_bytes = (\<lambda>_. 0), mem_size = 4096\<rparr>, world = ()\<rparr>"

lemma sample_hart_simps [simp]:
  "reg sample_hart 5 = 0x100" "reg sample_hart 6 = 0x8000FF92" "mem_size (ram sample_hart) = 4096"
  "reg sample_hart 32 = 0" "ll_sc_flag (core sample_hart) = False"
  by (simp_all add: sample_hart_def reg_def zero_core_def)


section \<open>Atomic read-modify-write\<close>

datatype amop = A_SWAP | A_ADD | A_XOR | A_AND | A_OR | A_MIN | A_MAX | A_MINU | A_MAXU

text \<open>The manual's \<open>funct5\<close>, except for \<open>A_OR\<close>, for which the code tests \<open>0x0A\<close>, not \<open>0x08\<close>.\<close>

fun amop_f5 :: "amop \<Rightarrow> 5 word" where
  "amop_f5 A_SWAP = 0x01" | "amop_f5 A_ADD = 0x00" | "amop_f5 A_XOR = 0x04" | "amop_f5 A_AND = 0x0C"
| "amop_f5 A_OR = 0x0A" | "amop_f5 A_MIN = 0x10" | "amop_f5 A_MAX = 0x14" | "amop_f5 A_MINU = 0x18"
| "amop_f5 A_MAXU = 0x1C"

fun amop_val :: "amop \<Rightarrow> u32 \<Rightarrow> u32 \<Rightarrow> u32" where
  "amop_val A_SWAP old v = v"
| "amop_val A_ADD old v = word_of_int (uint old + uint v)"
| "amop_val A_XOR old v = old XOR v"
| "amop_val A_AND old v = old AND v"
| "amop_val A_OR old v = old OR v"
| "amop_val A_MIN old v = word_of_int (min (sint old) (sint v))"
| "amop_val A_MAX old v = word_of_int (max (sint old) (sint v))"
| "amop_val A_MINU old v = word_of_int (min (uint old) (uint v))"
| "amop_val A_MAXU old v = word_of_int (max (uint old) (uint v))"

definition enc_A :: "5 word \<Rightarrow> bool \<Rightarrow> bool \<Rightarrow> 5 word \<Rightarrow> 5 word \<Rightarrow> 5 word \<Rightarrow> u32" where
  "enc_A f5 aq rl rs2 rs1 rd =
     enc_R (push_bit 2 (ucast f5) OR push_bit 1 (of_bool aq) OR of_bool rl) rs2 rs1 2 rd 0x2F"

lemma f7_of_f5:
  "drop_bit 2 (push_bit 2 (ucast (f5 :: 5 word)) OR push_bit 1 (of_bool aq) OR of_bool rl :: 7 word) = ucast f5"
proof (rule bit_word_eqI)
  fix n assume "n < LENGTH(7)"
  show "bit (drop_bit 2 (push_bit 2 (ucast f5) OR push_bit 1 (of_bool aq) OR of_bool rl :: 7 word)) n
      \<longleftrightarrow> bit (ucast f5 :: 7 word) n"
    using \<open>n < LENGTH(7)\<close>
    by (simp only: bit_drop_bit_eq o_apply bit_or_iff bit_push_bit_iff bit_of_bool_iff bit_ucast_iff)
      (auto dest: bit_imp_le_length)
qed

lemma A_fields [decode_simps]:
  "A_FUNC (enc_A f5 aq rl rs2 rs1 rd) = push_bit 4 (ucast f5) OR 2"
  "RD (enc_A f5 aq rl rs2 rs1 rd) = ucast rd" "RS1 (enc_A f5 aq rl rs2 rs1 rd) = ucast rs1"
  "RS2 (enc_A f5 aq rl rs2 rs1 rd) = ucast rs2" "OPCODE_TYPE (enc_A f5 aq rl rs2 rs1 rd) = 0x2F"
proof -
  have "(ucast (ucast f5 :: 7 word) :: u32) = ucast f5"
    by (rule bit_word_eqI) (auto simp: bit_simps dest: bit_imp_le_length)
  then show "A_FUNC (enc_A f5 aq rl rs2 rs1 rd) = push_bit 4 (ucast f5) OR 2"
    unfolding enc_A_def A_FUNC_enc f7_of_f5 by simp
qed (simp_all add: enc_A_def R_fields opcode_fields)

lemma mem_pick_as_fetch:
  "mem_pick keep m a v = fetch_op (\<lambda>old v. if keep old v then old else v) m a v"
proof (cases "mem_rw m a")
  case (Inr old)
  then obtain m' where "mem_ww m a old = Inr m'"
    using word_cell.rd_Inr_in_mem word_cell.wr_in by blast
  moreover from this have "m' = m" by (rule mem_ww_same [OF Inr])
  ultimately show ?thesis using Inr by (simp add: mem_pick_alone fetch_op_def)
qed (simp add: mem_pick_alone fetch_op_def)

lemma pick_values:
  "(if uint old > uint v then old else v) = word_of_int (max (uint old) (uint v))"
  "(if uint old < uint v then old else v) = word_of_int (min (uint old) (uint v))"
  "(if sint old > sint v then old else v) = word_of_int (max (sint old) (sint v))"
  "(if sint old < sint v then old else v) = word_of_int (min (sint old) (sint v))"
  for old v :: u32
  by (simp_all add: max_def min_def)

lemma amop_fetch:
  "mem_aswp m a v mo = fetch_op (amop_val A_SWAP) m a v"
  "mem_aadd m a v mo = fetch_op (amop_val A_ADD) m a v"
  "mem_axor m a v mo = fetch_op (amop_val A_XOR) m a v"
  "mem_aand m a v mo = fetch_op (amop_val A_AND) m a v"
  "mem_aor m a v mo = fetch_op (amop_val A_OR) m a v"
  "mem_amin m a v mo = fetch_op (amop_val A_MIN) m a v"
  "mem_amax m a v mo = fetch_op (amop_val A_MAX) m a v"
  "mem_aminu m a v mo = fetch_op (amop_val A_MINU) m a v"
  "mem_amaxu m a v mo = fetch_op (amop_val A_MAXU) m a v"
  unfolding mem_aswp_def mem_aadd_def mem_axor_def mem_aand_def mem_aor_def mem_amin_def mem_amax_def
    mem_aminu_def mem_amaxu_def mem_pick_as_fetch word_less_def
  by (simp_all only: pick_values fetch_op_def amop_val.simps) (simp_all)


section \<open>LR, SC and the memory order\<close>

lemma bits_1_2: "bit (1 :: u32) n \<longleftrightarrow> n = 0" "bit (2 :: u32) n \<longleftrightarrow> n = 1"
proof -
  show "bit (1 :: u32) n \<longleftrightarrow> n = 0" by (rule bit_1_iff)
  have "(2 :: u32) = push_bit 1 1" by simp
  then show "bit (2 :: u32) n \<longleftrightarrow> n = 1"
    by (simp only: bit_push_bit_iff bit_1_iff possible_bit_word) auto
qed

lemma and_single_bit: "n < 32 \<Longrightarrow> (x AND push_bit n 1 \<noteq> 0) \<longleftrightarrow> bit (x :: u32) n"
  by (simp add: bit_iff_and_push_bit_not_eq_0)

lemma order_bits:
  "AQ_BIT (enc_A f5 aq rl rs2 rs1 rd) = rl" "RL_BIT (enc_A f5 aq rl rs2 rs1 rd) = aq"
  unfolding AQ_BIT_def RL_BIT_def
  by (simp_all only: and_single_bit, unfold enc_A_def enc_R_def)
    (simp_all add: bit_simps short_bits)

text \<open>
  C32: LR reserves the word it reads but does not write \<open>rd\<close>. An SC that follows stores \<open>rs2\<close> and
  writes 0 to \<open>rd\<close> whatever the word holds by then, so a store of another core in between is
  overwritten; without a reservation it writes 1 to \<open>rd\<close> and leaves the PC where it is. The two
  ordering bits are read in each other's place: \<open>aq\<close> alone gives RELEASE, \<open>rl\<close> alone ACQUIRE.
\<close>

theorem lr_sc_execute:
  "vcore_exec plat h (enc_A 2 aq rl rs2 rs1 rd) =
     and_then (mem_rw (ram h) (reg h (unat rs1))) (\<lambda>v.
       Inr (add_pc 4 (h\<lparr>core := (core h)\<lparr>ll_sc_flag := True, reserved := v\<rparr>\<rparr>)))
   \<and> vcore_exec plat h (enc_A 3 aq rl rs2 rs1 rd) =
     (if ll_sc_flag (core h)
      then and_then (mem_ww (ram h) (reg h (unat rs1)) (reg h (unat rs2))) (\<lambda>m.
        Inr (add_pc 4 (set_reg (unat rd) 0 (h\<lparr>core := (core h)\<lparr>ll_sc_flag := False\<rparr>, ram := m\<rparr>))))
      else Inr (set_reg (unat rd) 1 h))
   \<and> memorder_of (enc_A f5 aq rl rs2 rs1 rd) =
     (if aq \<and> rl then ACQ_REL else if aq then RELEASE else if rl then ACQUIRE else RELAXED)"
proof -
  have "and_then (mem_rw m a) (\<lambda>_. mem_ww m a v) = mem_ww m a v" for m a v
    using word_cell.rd_in [of m a] word_cell.rd_out [of m a] word_cell.wr_out [of m a v]
    by (cases "in_mem m a 4") auto
  then show ?thesis
    by (simp add: exec_dispatch decode_simps vcore_a_type_def Let_def mem_aread_def mem_cas_alone
        memorder_of_def order_bits)
qed

lemma sc_iter:
  assumes "mem_rw (ram h) (reg h PC) = Inr (enc_A 3 aq rl rs2 rs1 rd)"
    and "\<not> ll_sc_flag (core h)" and "\<not> atomic_exit_loop (core h)" and "plat_irq plat = Inr"
  shows "vcore_iter plat id h = Inr (False, set_reg (unat rd) 1 (set_reg ZERO 0 h))"
  using assms
  by (simp add: vcore_iter_def Let_def hart_simps exec_dispatch decode_simps vcore_a_type_def)

text \<open>
  An SC without a reservation is executed for ever: after any number of turns of the loop
  the core is still at the same instruction (as long as no interrupt or signal moves it).
\<close>

theorem sc_without_reservation_spins:
  assumes "mem_rw (ram h) (reg h PC) = Inr (enc_A 3 aq rl rs2 rs1 rd)"
    and "\<not> ll_sc_flag (core h)" and "\<not> atomic_exit_loop (core h)" and "plat_irq plat = Inr"
  shows "\<exists>h'. vcore_run plat (replicate n id) h = Inr (False, h')
    \<and> reg h' PC = reg h PC \<and> ram h' = ram h"
  using assms(1-3)
proof (induction n arbitrary: h)
  case (Suc n)
  let ?h = "set_reg (unat rd) 1 (set_reg ZERO 0 h)"
  have "\<exists>h'. vcore_run plat (replicate n id) ?h = Inr (False, h')
      \<and> reg h' PC = reg ?h PC \<and> ram h' = ram ?h"
    by (rule Suc.IH) (use Suc.prems in \<open>simp_all add: hart_simps\<close>)
  then show ?case
    unfolding replicate_Suc vcore_run.simps sc_iter [OF Suc.prems assms(4)] and_then.simps
    by (auto simp: hart_simps)
qed simp

definition sc_hart :: "unit hart" where
  "sc_hart = sample_hart\<lparr>ram := store_bytes (ram sample_hart) 0
     (bytes_of_word (enc_A 3 False False 6 5 7))\<rparr>"

lemma sc_hart_fetch: "mem_rw (ram sc_hart) (reg sc_hart PC) = Inr (enc_A 3 False False 6 5 7)"
proof -
  have "load_bytes (store_bytes m 0 (bytes_of_word w)) 0 4 = bytes_of_word w" for m and w :: u32
    using load_store_same [of m 0 "bytes_of_word w"] by simp
  then show ?thesis
    by (simp add: sc_hart_def hart_simps mem_rw_def mem_rb_ptr_s_def in_mem_def mem_simps)
qed

lemma sc_without_reservation_spins_witness:
  "\<exists>h'. vcore_run sample_plat (replicate 5 id) sc_hart = Inr (False, h') \<and> reg h' PC = 0"
proof -
  have "plat_irq sample_plat = Inr" "\<not> ll_sc_flag (core sc_hart)" "\<not> atomic_exit_loop (core sc_hart)"
    "reg sc_hart PC = 0"
    by (simp_all add: sample_plat_def sc_hart_def sample_hart_def zero_core_def reg_def)
  then show ?thesis
    using sc_without_reservation_spins [OF sc_hart_fetch, of sample_plat 5] by auto
qed

end
