(* ===== verification/Sv_Props.thy ===== *)
theory Sv_Props
  imports Supervisor Isa_Mem
begin

text \<open>
  The properties of the SUPERVISOR build that the contracts of theory \<open>Contract\<close> and the instruction
  semantics of \<open>Isa\<close> give: what a run keeps, what a CSR instruction does, how traps enter the handler.
\<close>

unbundle bit_operations_syntax

section \<open>A sample machine\<close>

text \<open>One started core with 4 KiB of memory; the word at address 0 is the instruction to run.\<close>

definition sv_sample :: "u32 \<Rightarrow> sv_hart" where
  "sv_sample ins = \<lparr>core = zero_core\<lparr>regs := (\<lambda>_. 0)(5 := 0x100, 6 := 7, STVEC := 0x200)\<rparr>,
     ram = store_bytes \<lparr>mem_bytes = (\<lambda>_. 0), mem_size = 4096\<rparr> 0 (bytes_of_word ins),
     world = \<lparr>cthreads = [\<lparr>ct_state = STATE_STARTED, ct_signal = START_S, ct_old_signal = START_S,
       ct_core = zero_core\<rparr>], me = 0, ctx_debug = False\<rparr>\<rparr>"

lemma sv_sample_ok: "sv_ok (sv_sample ins)"
  by (simp add: sv_ok_def sv_sample_def core_ok_def zero_core_def stvec_ok_def STVEC_MODE_def)

lemma sv_sample_simps [simp]:
  "reg (sv_sample ins) 32 = 0" "reg (sv_sample ins) 5 = 0x100" "reg (sv_sample ins) 6 = 7"
  "reg (sv_sample ins) 37 = 0x200" "reg (sv_sample ins) 34 = 0"
  "mode (core (sv_sample ins)) = SUPERVISOR_MODE" "ll_sc_flag (core (sv_sample ins)) = False"
  "atomic_exit_loop (core (sv_sample ins)) = False" "mem_size (ram (sv_sample ins)) = 4096"
  by (simp_all add: sv_sample_def reg_def zero_core_def store_bytes_size)

lemma sv_sample_fetch: "mem_rw (ram (sv_sample ins)) (reg (sv_sample ins) PC) = Inr ins"
proof -
  have "load_bytes (store_bytes m 0 (bytes_of_word w)) 0 4 = bytes_of_word w" for m and w :: u32
    using load_store_same [of m 0 "bytes_of_word w"] by simp
  then show ?thesis by (simp add: mem_rw_def mem_rb_ptr_s_def in_mem_def) (simp add: sv_sample_def)
qed

section \<open>Runs\<close>

text \<open>
  C3: from a supervisor-mode hart with a legal STVEC no run, whatever the instructions and whatever
  the rest of the process does that keeps these two facts, fails the assertion of \<open>dispatch_trap\<close>
  on STVEC's mode, leaves supervisor mode or writes an illegal STVEC.
\<close>

theorem supervisor_run_safe:
  assumes "sv_ok h" and "\<And>env g. env \<in> set envs \<Longrightarrow> sv_ok g \<Longrightarrow> sv_ok (env g)"
  shows "vcore_run supervisor envs h \<noteq> Inl stvec_bug
    \<and> (\<forall>stop h'. vcore_run supervisor envs h = Inr (stop, h') \<longrightarrow>
         mode (core h') = SUPERVISOR_MODE \<and> stvec_ok (reg h' STVEC))"
proof -
  have "vcore_run supervisor envs h \<noteq> Inl stvec_bug
    \<and> (\<forall>stop h'. vcore_run supervisor envs h = Inr (stop, h') \<longrightarrow> sv_ok h')"
    by (rule sv.run_invariant) (use assms in auto)
  then show ?thesis by (auto simp: sv_ok_def core_ok_def reg_def)
qed

lemma supervisor_run_safe_witness:
  "vcore_run supervisor [id, id, id] (sv_sample 0xFFFFFFFF) \<noteq> Inl stvec_bug"
  using supervisor_run_safe [OF sv_sample_ok, of "[id, id, id]"] by simp

text \<open>
  An instruction other than SYSTEM changes no general register but its \<open>rd\<close>, and the memory
  only if it is a store or an atomic; no run changes the size of the memory.
\<close>

theorem supervisor_frame:
  assumes "vcore_exec supervisor h ins = Inr h'" and "vcore_run supervisor envs g = Inr (stop, g')"
    and "\<And>env k. env \<in> set envs \<Longrightarrow> mem_size (ram (env k)) = mem_size (ram k)"
  shows "(OPCODE_TYPE ins \<noteq> SYS_TYPE \<longrightarrow> (\<forall>i < 32. i \<noteq> unat (RD ins) \<longrightarrow> reg h' i = reg h i))
    \<and> (OPCODE_TYPE ins \<notin> {SYS_TYPE, S_TYPE, A_TYPE} \<longrightarrow> ram h' = ram h)
    \<and> mem_size (ram g') = mem_size (ram g)"
proof -
  have "mem_size (ram g') = mem_size (ram g)"
    by (rule sv_sized.run_size [OF assms(2)]) (rule assms(3))
  then show ?thesis
    using sv_trap.exec_frame [OF assms(1)] sv_trap.exec_ram [OF assms(1)] by (auto simp: frame_def)
qed

lemma supervisor_frame_witness:
  "\<exists>h'. vcore_exec supervisor (sv_sample 0) (enc_R 0 6 5 0 7 0x33) = Inr h' \<and> reg h' 6 = 7"
proof -
  have ex: "vcore_exec supervisor (sv_sample 0) (enc_R 0 6 5 0 7 0x33) =
      Inr (add_pc 4 (set_reg 7 0x107 (sv_sample 0)))"
    using r_type_reference [of "enc_R 0 6 5 0 7 0x33" R_ADD "plat_trap supervisor" "sv_sample 0"]
    by (simp add: exec_dispatch opcode_fields decode_simps rop_func_def)
  from supervisor_frame [OF this, of "[]" "sv_sample 0" False "sv_sample 0"] ex show ?thesis
    by (simp add: opcode_fields hart_simps)
qed

section \<open>CSR instructions\<close>

lemma unat_f3: "unat (ucast (f :: 3 word) :: u32) = unat f"
  using unsigned_less [of f, where ?'a=nat] by (simp add: unsigned_ucast_eq take_bit_nat_eq_self)

lemma f3_values: "(ucast (f :: 3 word) :: u32) = 1 \<longleftrightarrow> f = 1" "(ucast (f :: 3 word) :: u32) = 0 \<longleftrightarrow> f = 0"
  by (simp_all add: word_unat_eq_iff unat_f3)

lemma func_small: "FUNC x \<noteq> 0x10" "FUNC x \<noteq> 0x11" "FUNC x \<noteq> 0x101" "FUNC x \<noteq> 0x110" "FUNC x \<noteq> 0x111"
  using FUNC_less [of x] by auto

lemma csr_index_level:
  "csr_index x = Some i \<Longrightarrow> GET_CSR_PRIVILEGE x = 0x100 \<and> GET_CSR_ACCESS x \<noteq> 0xC00"
  by (auto simp: csr_index_def GET_CSR_PRIVILEGE_def GET_CSR_ACCESS_def split: if_splits)

definition csr_legal :: "nat \<Rightarrow> u32 \<Rightarrow> u32" where
  "csr_legal i v = (if i = STVEC \<and> STVEC_MODE v \<ge> 2 then v AND NOT 0x3 else v)"

lemma csr_exec:
  assumes csr: "csr_index (scast a) = Some i" and "mode (core h) = SUPERVISOR_MODE"
    and "f3 \<noteq> 0" and "stvec_ok (reg h STVEC)"
  shows "vcore_exec supervisor h (enc_I a rs1 f3 rd 0x73) =
    Inr (if f3 = 1 then set_reg i (csr_legal i (csr_mask (scast a) (reg h (unat rs1))))
                          (set_reg (unat rd) (reg h i) h)
         else h)"
proof -
  let ?ins = "enc_I a rs1 f3 rd 0x73"
  have rd: "unat rd \<noteq> i"
    using csr_index_bounds [OF csr] unsigned_less [of rd, where ?'a=nat] by auto
  have mode: "\<not> STVEC_MODE (reg h 37) \<ge> 2"
    using assms(4) by (auto simp: stvec_ok_def word_le_nat_alt)
  have func: "FUNC ?ins \<noteq> 0" "(FUNC ?ins = 1) = (f3 = 1)"
    using assms(3) by (simp_all add: I_fields f3_values)
  have "vcore_exec supervisor h ?ins = csr_access h ?ins (Some i)"
    using csr_index_level [OF csr] csr assms(2) func(1)
    by (simp add: exec_dispatch opcode_fields vcore_sys_type_def Let_def I_IMM_enc)
  also have "\<dots> = Inr (if f3 = 1 then set_reg i (csr_legal i (csr_mask (scast a) (reg h (unat rs1))))
                          (set_reg (unat rd) (reg h i) h) else h)"
    using csr_index_level [OF csr] csr_index_stvec [OF csr] func func_small [of ?ins] rd mode
    by (auto simp: csr_access_def Let_def I_IMM_enc csr_swap_def csr_legal_def hart_simps I_fields
        decode_simps)
  finally show ?thesis .
qed

text \<open>
  On the eleven supervisor CSRs the code knows, CSRRW writes the old value to \<open>rd\<close> and the
  (for SIE and SIP masked) value of \<open>rs1\<close> to the CSR, STVEC forced to a legal mode. The other five CSR
  instructions have function codes the code's constants do not match and do nothing at all. None of
  the six advances the PC.
\<close>

theorem csr_instruction:
  assumes "csr_index (scast a) = Some i" and "mode (core h) = SUPERVISOR_MODE"
    and "f3 \<noteq> 0" and "stvec_ok (reg h STVEC)"
  shows "vcore_exec supervisor h (enc_I a rs1 f3 rd 0x73) =
      Inr (if f3 = 1 then set_reg i (csr_legal i (csr_mask (scast a) (reg h (unat rs1))))
                            (set_reg (unat rd) (reg h i) h)
           else h)
    \<and> (\<forall>h'. vcore_exec supervisor h (enc_I a rs1 f3 rd 0x73) = Inr h' \<longrightarrow> reg h' PC = reg h PC)"
  using csr_exec [OF assms] csr_index_bounds [OF assms(1)] by (auto simp: hart_simps)

lemma csr_instruction_witness:
  "vcore_exec supervisor (sv_sample 0) (enc_I 0x105 5 1 7 0x73) =
     Inr (set_reg STVEC 0x100 (set_reg 7 0x200 (sv_sample 0)))"
proof -
  have "csr_index (scast (0x105 :: 12 word)) = Some STVEC" "stvec_ok (reg (sv_sample 0) STVEC)"
    by (simp_all add: csr_index_def stvec_ok_def STVEC_MODE_def)
  from csr_instruction [OF this(1) _ _ this(2), of 1 5 7] show ?thesis
    by (simp add: csr_mask_def csr_legal_def STVEC_MODE_def)
qed

text \<open>
  So a CSRRS, CSRRC or immediate CSR instruction is executed for ever: with interrupts disabled
  the core is in the same state after any number of turns.
\<close>

theorem csr_set_spins:
  assumes "mem_rw (ram h) (reg h PC) = Inr (enc_I a rs1 f3 rd 0x73)" and "reg h ZERO = 0"
    and "csr_index (scast a) = Some i" and "mode (core h) = SUPERVISOR_MODE"
    and "f3 \<noteq> 0" "f3 \<noteq> 1" and "stvec_ok (reg h STVEC)" and "\<not> interrupts_enabled h"
    and "\<not> atomic_exit_loop (core h)"
  shows "vcore_run supervisor (replicate n id) h = Inr (False, h)"
proof -
  have "set_reg ZERO 0 h = h"
    using assms(2) by (cases h) (auto simp: set_reg_def reg_def fun_upd_idem)
  then have "vcore_iter supervisor id h = Inr (False, h)"
    using csr_exec [OF assms(3,4,5,7), of rs1 rd] assms(1,6,8,9) check_interrupts_eq [OF assms(7)]
    by (simp add: vcore_iter_def)
  then show ?thesis by (induction n) simp_all
qed

lemma csr_set_spins_witness:
  "vcore_run supervisor (replicate 3 id) (sv_sample (enc_I 0x100 5 2 0 0x73)) =
     Inr (False, sv_sample (enc_I 0x100 5 2 0 0x73))"
  by (rule csr_set_spins [OF sv_sample_fetch, where i = SSTATUS])
    (simp_all add: csr_index_def stvec_ok_def STVEC_MODE_def interrupts_enabled_def SSTATUS_SIE_def,
      simp_all add: sv_sample_def reg_def)

section \<open>Traps from instructions\<close>


end
