(* ===== verification/Vm.thy ===== *)
theory Vm
  imports Trap
begin

text \<open>
  The page-table walk (src/src/supervisor/vm.h, vm.c). Nothing in the program calls it yet. The
  bit-fields of \<open>PTE\<close> are laid out from the least significant bit, as gcc does on x86-64; the
  pointer arithmetic on \<open>pte_array\<close> scales an index that is not shifted down.
\<close>

unbundle bit_operations_syntax

section \<open>Page-table entries\<close>

datatype op_type = MEM_INS_FETCH | MEM_READ | MEM_WRITE

fun op_code :: "op_type \<Rightarrow> trap_code" where
  "op_code MEM_INS_FETCH = INS_PAGE_FAULT"
| "op_code MEM_READ = LOAD_PAGE_FAULT"
| "op_code MEM_WRITE = STORE_AMO_PAGE_FAULT"

definition pte_ppn :: "u32 \<Rightarrow> u32" where "pte_ppn pte = take_bit 22 pte"
definition pte_d :: "u32 \<Rightarrow> bool" where "pte_d pte = bit pte 24"
definition pte_a :: "u32 \<Rightarrow> bool" where "pte_a pte = bit pte 25"
definition pte_u :: "u32 \<Rightarrow> bool" where "pte_u pte = bit pte 27"
definition pte_x :: "u32 \<Rightarrow> bool" where "pte_x pte = bit pte 28"
definition pte_w :: "u32 \<Rightarrow> bool" where "pte_w pte = bit pte 29"
definition pte_r :: "u32 \<Rightarrow> bool" where "pte_r pte = bit pte 30"
definition pte_v :: "u32 \<Rightarrow> bool" where "pte_v pte = bit pte 31"

abbreviation (input) PAGE_SIZE :: u32 where "PAGE_SIZE \<equiv> 4096"

definition GET_PPN1 :: "u32 \<Rightarrow> u32" where "GET_PPN1 ppn = ppn AND 0x3FFC00"
definition GET_PPN0 :: "u32 \<Rightarrow> u32" where "GET_PPN0 ppn = ppn AND 0x3FF"
definition GET_ADDR_LAST_10 :: "u32 \<Rightarrow> u32" where "GET_ADDR_LAST_10 addr = addr AND 0xFFC00000"
definition GET_VP_OFFSET :: "u32 \<Rightarrow> u32" where "GET_VP_OFFSET addr = addr AND 0xFFF"
definition GET_MEGAPAGE_VP_OFFSET :: "u32 \<Rightarrow> u32" where
  "GET_MEGAPAGE_VP_OFFSET addr = addr AND 0x3FFFFF"

definition TREE_WALK_TRAPPED :: u64 where "TREE_WALK_TRAPPED = 0xFFFFFFFFFFFFFFFF"

section \<open>The walk\<close>

text \<open>\<open>pte_array + (GET_ADDR_LAST_10(tmp_addr) * sizeof(PTE))\<close>: in bytes, scaled a second time.\<close>

definition read_pte :: "memory \<Rightarrow> u32 \<Rightarrow> u32 \<Rightarrow> u32 result" where
  "read_pte m pp_addr tmp_addr =
    (let p = unat pp_addr + 4 * (unat (GET_ADDR_LAST_10 tmp_addr) * 4)
     in if p + 4 \<le> mem_size m then Inr (word_of_bytes (load_bytes m p 4)) else Inl out_of_vmem)"

definition perm_fault :: "u32 \<Rightarrow> op_type \<Rightarrow> u32 \<Rightarrow> bool" where
  "perm_fault sstatus op pte \<longleftrightarrow>
     \<not> SSTATUS_MXR sstatus \<and> op = MEM_READ \<and> \<not> pte_r pte
     \<or> op = MEM_INS_FETCH \<and> \<not> pte_x pte \<or> op = MEM_WRITE \<and> \<not> pte_w pte"

definition mode_fault :: "execution_mode \<Rightarrow> u32 \<Rightarrow> op_type \<Rightarrow> u32 \<Rightarrow> bool" where
  "mode_fault md sstatus op pte \<longleftrightarrow>
     (\<not> SSTATUS_SUM sstatus \<or> op = MEM_INS_FETCH) \<and> pte_u pte \<and> md = SUPERVISOR_MODE
     \<or> \<not> pte_u pte \<and> md = USER_MODE"

definition walk_trap :: "'w hart \<Rightarrow> op_type \<Rightarrow> u32 \<Rightarrow> ('w hart \<times> u64) result" where
  "walk_trap h op addr =
     and_then (dispatch_trap h (op_code op) addr) (\<lambda>h'. Inr (h', TREE_WALK_TRAPPED))"

text \<open>The \<open>for\<close> loop: the argument counts the levels left, so the first turn has 2 of them.\<close>

fun walk_levels :: "nat \<Rightarrow> 'w hart \<Rightarrow> u32 \<Rightarrow> op_type \<Rightarrow> u32 \<Rightarrow> u32 \<Rightarrow> ('w hart \<times> u64) result" where
  "walk_levels 0 h addr op pp_addr tmp_addr = walk_trap h op addr"
| "walk_levels (Suc level) h addr op pp_addr tmp_addr =
    and_then (read_pte (ram h) pp_addr tmp_addr) (\<lambda>pte.
      if \<not> pte_v pte \<or> \<not> pte_r pte \<and> pte_w pte then walk_trap h op addr
      else if pte_r pte \<or> pte_x pte then
        (if perm_fault (reg h SSTATUS) op pte then walk_trap h op addr
         else if mode_fault (mode (core h)) (reg h SSTATUS) op pte then walk_trap h op addr
         else if level > 0 \<and> GET_PPN0 (pte_ppn pte) \<noteq> 0 then walk_trap h op addr
         else if \<not> pte_a pte \<or> \<not> pte_d pte \<and> op = MEM_WRITE then walk_trap h op addr
         else if level > 0
         then Inr (h, push_bit 12 (ucast (GET_PPN1 (pte_ppn pte))) OR ucast (GET_MEGAPAGE_VP_OFFSET addr))
         else Inr (h, push_bit 12 (ucast (pte_ppn pte)) OR ucast (GET_VP_OFFSET addr)))
      else walk_levels level h addr op (pte_ppn pte * PAGE_SIZE) (push_bit 10 tmp_addr))"

definition vm_tree_walk :: "'w hart \<Rightarrow> u32 \<Rightarrow> op_type \<Rightarrow> ('w hart \<times> u64) result" where
  "vm_tree_walk h addr op =
    (if \<not> SATP_MODE (reg h SATP) then Inl (Assert_Failed ''SATP_MODE'')
     else let pp_addr = SATP_PPN (reg h SATP) * PAGE_SIZE
          in if \<not> unat pp_addr < mem_size (ram h) then Inl (Assert_Failed ''pp_addr < ctx.memory_size'')
             else walk_levels 2 h addr op pp_addr addr)"

section \<open>Soundness of a translation\<close>

text \<open>Every check of the RISC-V privileged manual on a leaf entry.\<close>

definition leaf_allows :: "'w hart \<Rightarrow> op_type \<Rightarrow> u32 \<Rightarrow> bool" where
  "leaf_allows h op pte \<longleftrightarrow>
     pte_v pte \<and> pte_a pte \<and> (pte_w pte \<longrightarrow> pte_r pte)
     \<and> (case op of MEM_READ \<Rightarrow> pte_r pte \<or> SSTATUS_MXR (reg h SSTATUS) \<and> pte_x pte
          | MEM_WRITE \<Rightarrow> pte_w pte \<and> pte_d pte | MEM_INS_FETCH \<Rightarrow> pte_x pte)
     \<and> (case mode (core h) of USER_MODE \<Rightarrow> pte_u pte
          | SUPERVISOR_MODE \<Rightarrow> pte_u pte \<longrightarrow> SSTATUS_SUM (reg h SSTATUS) \<and> op \<noteq> MEM_INS_FETCH)"

definition translation :: "nat \<Rightarrow> u32 \<Rightarrow> u32 \<Rightarrow> u64" where
  "translation level pte addr =
     (if level = 0 then push_bit 12 (ucast (pte_ppn pte)) OR ucast (take_bit 12 addr)
      else push_bit 12 (ucast (pte_ppn pte)) OR ucast (take_bit 22 addr))"

lemma walk_trap_eq: "walk_trap h op addr = Inr (trapped h (op_code op) addr, TREE_WALK_TRAPPED)"
  by (cases op) (simp_all add: walk_trap_def dispatch_trap_eq)

lemma low_masks:
  "x AND 0xFFF = take_bit 12 (x :: u32)" "x AND 0x3FFFFF = take_bit 22 x" "x AND 0x3FF = take_bit 10 x"
  by (simp_all add: take_bit_eq_mask mask_eq_exp_minus_1)

lemma bit_ppn1_mask: "bit (0x3FFC00 :: u32) n \<longleftrightarrow> 10 \<le> n \<and> n < 22"
proof -
  have "(0x3FFC00 :: u32) = push_bit 10 (mask 12)" by (simp add: mask_eq_exp_minus_1)
  then show ?thesis by (simp only: bit_push_bit_iff bit_mask_iff possible_bit_word) auto
qed

lemma ppn1_aligned:
  assumes "GET_PPN0 (pte_ppn pte) = 0"
  shows "GET_PPN1 (pte_ppn pte) = pte_ppn pte"
proof (rule bit_word_eqI)
  fix n assume "n < LENGTH(32)"
  have "n < 10 \<Longrightarrow> \<not> bit (pte_ppn pte) n"
    using assms bit_take_bit_iff [of 10 "pte_ppn pte" n] by (simp add: GET_PPN0_def low_masks)
  then show "bit (GET_PPN1 (pte_ppn pte)) n = bit (pte_ppn pte) n"
    by (simp only: GET_PPN1_def bit_and_iff bit_ppn1_mask pte_ppn_def bit_take_bit_iff)
      (metis not_less)
qed

lemma translation_bound: "translation level pte addr \<noteq> TREE_WALK_TRAPPED"
proof
  assume "translation level pte addr = TREE_WALK_TRAPPED"
  then have "bit (translation level pte addr) 40" by (simp add: TREE_WALK_TRAPPED_def)
  then show False
    by (auto simp: translation_def pte_ppn_def bit_or_iff bit_push_bit_iff bit_ucast_iff
        bit_take_bit_iff split: if_splits dest: bit_imp_le_length)
qed

lemma walk_step:
  assumes "walk_levels (Suc level) h addr op pp tmp = Inr (h', pa)"
  shows "pa = TREE_WALK_TRAPPED \<and> h' = trapped h (op_code op) addr
    \<or> (\<exists>pte. read_pte (ram h) pp tmp = Inr pte \<and> h' = h \<and> leaf_allows h op pte
            \<and> pa = translation level pte addr)
    \<or> (\<exists>pte. walk_levels level h addr op (pte_ppn pte * PAGE_SIZE) (push_bit 10 tmp) = Inr (h', pa))"
  using assms
  by (cases op; cases "mode (core h)")
    (auto simp: result_simps walk_trap_eq leaf_allows_def translation_def ppn1_aligned perm_fault_def
      mode_fault_def GET_VP_OFFSET_def GET_MEGAPAGE_VP_OFFSET_def low_masks split: if_splits)

lemma walk_sound:
  "walk_levels level h addr op pp tmp = Inr (h', pa) \<Longrightarrow>
     pa = TREE_WALK_TRAPPED \<and> h' = trapped h (op_code op) addr
     \<or> pa \<noteq> TREE_WALK_TRAPPED \<and> h' = h
       \<and> (\<exists>l q t pte. l < level \<and> read_pte (ram h) q t = Inr pte \<and> leaf_allows h op pte
            \<and> pa = translation l pte addr)"
proof (induction level arbitrary: pp tmp)
  case (Suc level)
  from walk_step [OF Suc.prems] consider
    "pa = TREE_WALK_TRAPPED" "h' = trapped h (op_code op) addr"
    | pte where "read_pte (ram h) pp tmp = Inr pte" "h' = h" "leaf_allows h op pte"
        "pa = translation level pte addr"
    | pte where "walk_levels level h addr op (pte_ppn pte * PAGE_SIZE) (push_bit 10 tmp) = Inr (h', pa)"
    by blast
  then show ?case
  proof cases
    case 2
    then show ?thesis using translation_bound [of level pte addr] by (metis lessI)
  next
    case 3
    from Suc.IH [OF this] show ?thesis using less_SucI by blast
  qed blast
qed (simp add: walk_trap_eq)

text \<open>
  C17: a walk that returns an address has changed nothing and took it from a valid, accessed
  leaf entry that permits the access in the current mode (write: writable and dirty; fetch:
  executable and never a user page in supervisor mode; user mode: user pages only), with the page
  offset of the virtual address; otherwise it returns the trap marker, having dispatched the page
  fault of the access with the virtual address as faulting value.
\<close>

theorem vm_tree_walk_sound:
  assumes "vm_tree_walk h addr op = Inr (h', pa)"
  shows "pa = TREE_WALK_TRAPPED \<and> h' = trapped h (op_code op) addr
    \<or> pa \<noteq> TREE_WALK_TRAPPED \<and> h' = h
      \<and> (\<exists>l q t pte. l < 2 \<and> read_pte (ram h) q t = Inr pte \<and> leaf_allows h op pte
           \<and> pa = translation l pte addr)"
proof -
  obtain pp where walk: "walk_levels 2 h addr op pp addr = Inr (h', pa)"
    using assms by (auto simp: vm_tree_walk_def Let_def split: if_splits)
  show ?thesis by (rule walk_sound [OF walk])
qed

text \<open>One page table at address 4096 whose first entry is a readable megapage of PPN 1024.\<close>

definition vm_hart :: "unit hart" where
  "vm_hart = \<lparr>core = zero_core\<lparr>regs := (\<lambda>_. 0)(SATP := 0x80000001)\<rparr>,
     ram = store_bytes \<lparr>mem_bytes = (\<lambda>_. 0), mem_size = 65536\<rparr> 4096
       (bytes_of_word (0xC2000400 :: u32)), world = ()\<rparr>"

lemma vm_hart_walk: "vm_tree_walk vm_hart 0x123456 MEM_READ = Inr (vm_hart, 0x523456)"
proof -
  have "load_bytes (store_bytes m 4096 (bytes_of_word w)) 4096 4 = bytes_of_word w" for m and w :: u32
    using load_store_same [of m 4096 "bytes_of_word w"] by simp
  then have "read_pte (ram vm_hart) 4096 0x123456 = Inr 0xC2000400"
    by (simp add: read_pte_def vm_hart_def mem_simps GET_ADDR_LAST_10_def)
  then show ?thesis
    by (simp add: vm_tree_walk_def numeral_2_eq_2 Let_def)
      (simp add: vm_hart_def reg_def zero_core_def SATP_MODE_def SATP_PPN_def pte_v_def pte_r_def
        pte_x_def pte_w_def pte_a_def pte_ppn_def pte_u_def perm_fault_def mode_fault_def GET_PPN0_def
        GET_PPN1_def GET_MEGAPAGE_VP_OFFSET_def mem_simps)
qed

lemma vm_tree_walk_sound_witness:
  "\<exists>q t pte. read_pte (ram vm_hart) q t = Inr pte \<and> leaf_allows vm_hart MEM_READ pte"
  using vm_tree_walk_sound [OF vm_hart_walk] by (auto simp: TREE_WALK_TRAPPED_def)

section \<open>The index of an entry\<close>

lemma bit_top10_mask: "bit (0xFFC00000 :: u32) n \<longleftrightarrow> 22 \<le> n \<and> n < 32"
proof -
  have "(0xFFC00000 :: u32) = push_bit 22 (mask 10)" by (simp add: mask_eq_exp_minus_1)
  then show ?thesis by (simp only: bit_push_bit_iff bit_mask_iff possible_bit_word) auto
qed

lemma top_bits_kept: "unat (GET_ADDR_LAST_10 addr) div 2 ^ 28 = unat addr div 2 ^ 28"
proof -
  have "drop_bit 28 (GET_ADDR_LAST_10 addr) = drop_bit 28 addr"
    by (rule bit_word_eqI)
      (simp only: GET_ADDR_LAST_10_def bit_drop_bit_eq o_apply bit_and_iff bit_top10_mask,
        auto dest: bit_imp_le_length)
  then have "unat (drop_bit 28 (GET_ADDR_LAST_10 addr)) = unat (drop_bit 28 addr)" by simp
  then show ?thesis unfolding unat_drop_bit_eq by (simp add: drop_bit_eq_div)
qed

text \<open>
  The entry index keeps the top ten address bits in place and is scaled twice, so for every
  virtual address from 0x10000000 on the walk reads beyond 4 GiB of guest memory: undefined
  behaviour of the host process, for every page table.
\<close>

theorem vm_index_beyond_memory:
  assumes "SATP_MODE (reg h SATP)" "unat (SATP_PPN (reg h SATP) * PAGE_SIZE) < mem_size (ram h)"
    and "mem_size (ram h) \<le> 2 ^ 32" and "0x10000000 \<le> addr"
  shows "vm_tree_walk h addr op = Inl out_of_vmem"
proof -
  have "1 \<le> unat addr div 2 ^ 28"
    using assms(4) by (simp add: word_le_nat_alt less_eq_div_iff_mult_less_eq)
  then have "1 \<le> unat (GET_ADDR_LAST_10 addr) div 2 ^ 28"
    by (simp only: top_bits_kept)
  then have "0x10000000 \<le> unat (GET_ADDR_LAST_10 addr)"
    by (simp add: less_eq_div_iff_mult_less_eq)
  then have "2 ^ 32 \<le> unat (GET_ADDR_LAST_10 addr) * 16" by simp
  then have "read_pte (ram h) pp addr = Inl out_of_vmem" for pp
    using assms(3) by (simp add: read_pte_def)
  then show ?thesis using assms(1,2) by (simp add: vm_tree_walk_def numeral_2_eq_2 Let_def)
qed

lemma vm_index_beyond_memory_witness: "vm_tree_walk vm_hart 0x40000000 MEM_READ = Inl out_of_vmem"
  by (rule vm_index_beyond_memory)
    (simp_all add: vm_hart_def reg_def zero_core_def SATP_MODE_def SATP_PPN_def mem_simps)

end
