(* ===== verification/Sdl.thy ===== *)
theory Sdl
  imports Memory
begin

text \<open>
  The SDL device of the USER build (src/src/sdl.c): the initialisation and its error codes, the
  palette and the frame buffer, and the event ring shared with the guest. The SDL library is a
  parameter: whether each of its calls succeeds (\<open>sdl_lib\<close>) and the events in its queue.
\<close>

unbundle bit_operations_syntax

section \<open>Host pointers into the guest's memory\<close>

text \<open>
  The device gets pointers \<open>MAP_ADDR(reg)\<close> and offsets them in the host's address space, so an
  address here is a number that never wraps at 32 bits.
\<close>

definition peek :: "memory \<Rightarrow> nat \<Rightarrow> nat \<Rightarrow> u8 list result" where
  "peek m p n = (if p + n \<le> mem_size m then Inr (load_bytes m p n) else Inl out_of_vmem)"

definition poke :: "memory \<Rightarrow> nat \<Rightarrow> u8 list \<Rightarrow> memory result" where
  "poke m p bs = (if p + length bs \<le> mem_size m then Inr (store_bytes m p bs) else Inl out_of_vmem)"

section \<open>State\<close>

datatype sdl_err = BUFF_SZ_POW_OF_2 | NOT_POS_H | NOT_POS_W | BUFF_SZ_ZERO

fun sdl_err_num :: "sdl_err \<Rightarrow> int" where
  "sdl_err_num BUFF_SZ_POW_OF_2 = 0"
| "sdl_err_num NOT_POS_H = 1"
| "sdl_err_num NOT_POS_W = 2"
| "sdl_err_num BUFF_SZ_ZERO = 3"

type_synonym SDL_Event = "u8 list"

text \<open>
  The file's static variables; \<open>None\<close> is a null pointer. \<open>sdl_queue\<close> is the library's event queue
  and \<open>sdl_screen\<close> what was last presented.
\<close>

record sdl =
  s_texture :: bool
  s_palette :: "u32 list option"
  s_frame_buffer :: "u32 list option"
  s_width :: int
  s_height :: int
  s_palette_size :: u32
  s_event_buff_size :: u32
  s_event_buff_size_mask :: u32
  sdl_queue :: "SDL_Event list"
  sdl_screen :: "u32 list option"

definition sdl_start :: sdl where
  "sdl_start = \<lparr>s_texture = False, s_palette = None, s_frame_buffer = None, s_width = 0, s_height = 0,
     s_palette_size = 0, s_event_buff_size = 0, s_event_buff_size_mask = 0, sdl_queue = [],
     sdl_screen = None\<rparr>"

section \<open>Initialisation\<close>

text \<open>
  Whether the library's calls and \<open>malloc\<close> succeed; \<open>upscale\<close> is \<open>ctx.sdl_upscale\<close>. What \<open>malloc\<close>
  leaves in the frame buffer (zeros here) is overwritten before it is shown. The code's value 0 on success is
  \<open>BUFF_SZ_POW_OF_2\<close> read as an \<open>sdl_err\<close>.
\<close>

record sdl_lib =
  init_ok :: bool
  window_ok :: bool
  renderer_ok :: bool
  texture_ok :: bool
  malloc_ok :: bool
  mouse_ok :: bool

definition sdl_init :: "sdl_lib \<Rightarrow> int \<Rightarrow> int \<Rightarrow> int \<Rightarrow> u32 \<Rightarrow> sdl \<Rightarrow> (int \<times> sdl) result" where
  "sdl_init lib upscale w h ev_buff_sz s =
    (if ev_buff_sz = 0 then Inr (sdl_err_num BUFF_SZ_ZERO, s)
     else if ev_buff_sz AND (ev_buff_sz - 1) \<noteq> 0 then Inr (sdl_err_num BUFF_SZ_POW_OF_2, s)
     else if w \<le> 0 then Inr (sdl_err_num NOT_POS_W, s)
     else if h \<le> 0 then Inr (sdl_err_num NOT_POS_H, s)
     else if \<not> init_ok lib then Inl (Crash ''SDL_GetError()'')
     else if upscale * w \<ge> 2 ^ 31 \<or> upscale * h \<ge> 2 ^ 31 then Inl (Undefined ''window size overflows int'')
     else if \<not> window_ok lib \<or> \<not> renderer_ok lib \<or> \<not> texture_ok lib \<or> \<not> malloc_ok lib \<or> \<not> mouse_ok lib
     then Inl (Exit 1)
     else Inr (0, s\<lparr>s_texture := True, s_frame_buffer := Some (replicate (nat w * nat h) 0),
       s_width := w, s_height := h, s_event_buff_size := ev_buff_sz,
       s_event_buff_size_mask := ev_buff_sz - 1\<rparr>))"

section \<open>Palette and frame buffer\<close>

fun words_of :: "u8 list \<Rightarrow> u32 list" where
  "words_of (a # b # c # d # bs) = word_of_bytes [a, b, c, d] # words_of bs"
| "words_of bs = []"

text \<open>
  \<open>p\<close> is the offset of the palette in the guest's memory; \<open>MAP_ADDR\<close> is never null. \<open>ok\<close> says that
  \<open>malloc\<close> or \<open>realloc\<close> succeeds.
\<close>

definition sdl_write_palette :: "bool \<Rightarrow> memory \<Rightarrow> nat \<Rightarrow> u32 \<Rightarrow> sdl \<Rightarrow> sdl result" where
  "sdl_write_palette ok m p p_size s =
    (if p_size = 0 then Inr s
     else and_then
       (case s_palette s of
          None \<Rightarrow> if ok then Inr p_size else Inl (Crash ''OOM in SDL'')
        | Some _ \<Rightarrow> if p_size \<noteq> s_palette_size s
                    then (if ok then Inr p_size else Inl (Crash ''OOM in SDL (realloc)''))
                    else Inr (s_palette_size s))
       (\<lambda>n. and_then (peek m p (4 * unat n)) (\<lambda>bs.
          Inr (s\<lparr>s_palette := Some (words_of bs), s_palette_size := n\<rparr>))))"

definition out_of_palette :: stop where
  "out_of_palette = Undefined ''read past s_palette''"

fun colours :: "u32 list \<Rightarrow> u8 list \<Rightarrow> u32 list result" where
  "colours pal [] = Inr []"
| "colours pal (k # ks) =
    (if unat k < length pal then and_then (colours pal ks) (\<lambda>cs. Inr (pal ! unat k # cs))
     else Inl out_of_palette)"

text \<open>
  The two loops visit the pixels in the order of their offset \<open>y * s_width + x\<close>, an \<open>int\<close>; the
  texture is then updated and presented.
\<close>

definition sdl_write_fb :: "memory \<Rightarrow> nat \<Rightarrow> sdl \<Rightarrow> (int \<times> sdl) result" where
  "sdl_write_fb m p s =
    (case (s_palette s, s_frame_buffer s) of
       (Some pal, Some fb) \<Rightarrow>
         if \<not> s_texture s then Inr (- 1, s)
         else if s_width s \<le> 0 \<or> s_height s \<le> 0 then Inr (- 1, s)
         else if s_width s * s_height s > 2 ^ 31 then Inl (Undefined ''offset overflows int'')
         else and_then (peek m p (nat (s_width s * s_height s))) (\<lambda>pix.
              and_then (colours pal pix) (\<lambda>cs.
                Inr (0, s\<lparr>s_frame_buffer := Some cs, sdl_screen := Some cs\<rparr>)))
     | _ \<Rightarrow> Inr (- 1, s))"

definition sdl_shutdown :: "sdl \<Rightarrow> 'a result" where
  "sdl_shutdown s = Inl (Exit 0)"

section \<open>The event ring\<close>

abbreviation (input) SDL_EVENT_SIZE :: nat where "SDL_EVENT_SIZE \<equiv> 56"

definition event_type :: "SDL_Event \<Rightarrow> u32" where
  "event_type e = word_of_bytes (take 4 e)"

text \<open>SDL_KEYDOWN, SDL_KEYUP, SDL_MOUSEMOTION, SDL_MOUSEBUTTONDOWN, SDL_MOUSEBUTTONUP.\<close>

definition wanted :: "SDL_Event \<Rightarrow> bool" where
  "wanted e \<longleftrightarrow> event_type e \<in> {0x300, 0x301, 0x400, 0x401, 0x402}"

text \<open>
  The loop over the library's queue: \<open>SDL_PollEvent\<close> takes an event out before the test for room.
  The result is the memory, the queue left, \<open>idx\<close> and \<open>i\<close>.
\<close>

fun pull_loop :: "u32 \<Rightarrow> nat \<Rightarrow> u32 \<Rightarrow> SDL_Event list \<Rightarrow> memory \<Rightarrow> u32 \<Rightarrow> u32
    \<Rightarrow> (memory \<times> SDL_Event list \<times> u32 \<times> u32) result" where
  "pull_loop msk events tail [] m idx i = Inr (m, [], idx, i)"
| "pull_loop msk events tail (e # q) m idx i =
    (if (idx + 1) AND msk = tail then Inr (m, q, idx, i)
     else if wanted e then
       and_then (poke m (events + SDL_EVENT_SIZE * unat idx) e) (\<lambda>m.
         pull_loop msk events tail q m ((idx + 1) AND msk) (i + 1))
     else pull_loop msk events tail q m idx i)"

text \<open>\<open>events\<close> and \<open>head\<close> are offsets in the guest's memory.\<close>

definition sdl_pull_events :: "nat \<Rightarrow> nat \<Rightarrow> u32 \<Rightarrow> memory \<Rightarrow> sdl \<Rightarrow> (u32 \<times> memory \<times> sdl) result" where
  "sdl_pull_events events head tail m s =
     and_then (peek m head 4) (\<lambda>bs.
     and_then (pull_loop (s_event_buff_size_mask s) events tail (sdl_queue s) m (word_of_bytes bs) 0)
       (\<lambda>(m, q, idx, i).
     and_then (poke m head (bytes_of_word idx)) (\<lambda>m.
       Inr (i, m, s\<lparr>sdl_queue := q\<rparr>))))"

end
