(* ===== verification/Sdl_Ring.thy ===== *)
theory Sdl_Ring
  imports Sdl
begin

text \<open>
  The event ring of the SDL device as a bounded queue: the size \<open>sdl_init\<close> accepts is a power of two, so
  masking is the remainder; pulling events appends to the unread ones and never overwrites them.
\<close>

unbundle bit_operations_syntax

section \<open>Powers of two\<close>

lemma pow2_nat: "0 < n \<Longrightarrow> n AND (n - 1) = (0 :: nat) \<Longrightarrow> \<exists>e. n = 2 ^ e"
proof (induction n rule: less_induct)
  case (less n)
  have half: "(n AND (n - 1)) div 2 = (n div 2) AND ((n - 1) div 2)"
    using drop_bit_and [of 1 n "n - 1"] by (simp only: drop_bit_eq_div power_one_right)
  show ?case
  proof (cases "even n")
    case True
    then obtain k where k: "n = 2 * k" by blast
    have "(n - 1) div 2 = k - 1" using less.prems(1) k by simp
    then have "k AND (k - 1) = 0" using half less.prems(2) k by simp
    then obtain e where "k = 2 ^ e" using less.IH [of k] less.prems(1) k by auto
    then have "n = 2 ^ Suc e" using k by simp
    then show ?thesis by blast
  next
    case False
    then obtain k where k: "n = 2 * k + 1" by (blast elim: oddE)
    then have "k = 0" using half less.prems(2) by simp
    then show ?thesis using k by (intro exI [of _ 0]) simp
  qed
qed

lemma pow2_word:
  assumes "x \<noteq> 0" "x AND (x - 1) = (0 :: u32)"
  shows "\<exists>e < 32. unat x = 2 ^ e \<and> x - 1 = mask e"
proof -
  have pos: "0 < unat x" using assms(1) by (simp add: unat_gt_0)
  have pred: "unat (x - 1) = unat x - 1" using assms(1) by (simp add: unat_minus_one)
  have "unat x AND (unat x - 1) = unat (x AND (x - 1))"
    by (simp only: unsigned_and_eq pred)
  then obtain e where e: "unat x = 2 ^ e" using pow2_nat [OF pos] assms(2) by auto
  have "unat x < 2 ^ LENGTH(32)" by (rule unsigned_less)
  then have "(2::nat) ^ e < 2 ^ 32" using e by simp
  then have "e < 32" by (rule power_less_imp_less_exp [rotated]) simp
  moreover have "x = 2 ^ e"
    using arg_cong [OF e, of "of_nat :: nat \<Rightarrow> u32"] by simp
  ultimately show ?thesis using e by (auto simp: mask_eq_exp_minus_1)
qed

lemma mask_mod: "e < 32 \<Longrightarrow> unat (w AND mask e :: u32) = unat w mod 2 ^ e"
  by (simp only: take_bit_eq_mask [symmetric] unsigned_take_bit_eq take_bit_eq_mod [of e "unat w"])

lemma next_index:
  assumes "e < 32" "unat idx < 2 ^ e"
  shows "unat ((idx + 1) AND mask e :: u32) = (unat idx + 1) mod 2 ^ e"
proof -
  have "(2::nat) ^ e \<le> 2 ^ 31" using assms(1) by (intro power_increasing) auto
  then have "unat (idx + 1) = unat idx + 1"
    using assms(2) by (subst unat_plus_simple [THEN iffD1]) (auto simp: no_olen_add_nat)
  then show ?thesis using assms(1) by (simp add: mask_mod)
qed

lemma init_power:
  assumes "sdl_init lib up w h n s = Inr (r, s')" "s' \<noteq> s"
  shows "\<exists>e<32. unat n = 2 ^ e \<and> s_event_buff_size_mask s' = mask e"
  using assms pow2_word [of n] by (auto simp: sdl_init_def split: if_splits)

section \<open>The ring\<close>

text \<open>
  \<open>slot k\<close> is the event at index k of the guest's array, \<open>unread\<close> the events from \<open>tail\<close> up to
  \<open>head\<close> in a ring of \<open>n\<close> slots.
\<close>

definition slot :: "memory \<Rightarrow> nat \<Rightarrow> nat \<Rightarrow> SDL_Event" where
  "slot m events k = load_bytes m (events + SDL_EVENT_SIZE * k) SDL_EVENT_SIZE"

definition used :: "nat \<Rightarrow> nat \<Rightarrow> nat \<Rightarrow> nat" where
  "used n head tail = (head + n - tail) mod n"

definition unread :: "memory \<Rightarrow> nat \<Rightarrow> nat \<Rightarrow> nat \<Rightarrow> nat \<Rightarrow> SDL_Event list" where
  "unread m events n head tail = map (\<lambda>j. slot m events ((tail + j) mod n)) [0..<used n head tail]"

lemma used_eq: "head < n \<Longrightarrow> tail < n \<Longrightarrow> used n head tail = (if tail \<le> head then head - tail else head + n - tail)"
  by (auto simp: used_def mod_if)

lemma wrap_eq: "tail < n \<Longrightarrow> j < n \<Longrightarrow> (tail + j) mod n = (if tail + j < n then tail + j else tail + j - n)"
  for tail :: nat by (auto simp: mod_if)

lemma used_less: "0 < n \<Longrightarrow> used n head tail < n"
  by (simp add: used_def)

lemma used_full: "head < n \<Longrightarrow> tail < n \<Longrightarrow> (head + 1) mod n = tail \<Longrightarrow> used n head tail = n - 1"
  by (auto simp: used_eq mod_if split: if_splits)

lemma used_next:
  "head < n \<Longrightarrow> tail < n \<Longrightarrow> (head + 1) mod n \<noteq> tail \<Longrightarrow> used n ((head + 1) mod n) tail = used n head tail + 1"
  by (auto simp: used_eq mod_if split: if_splits)

lemma free_slot: "head < n \<Longrightarrow> tail < n \<Longrightarrow> (tail + used n head tail) mod n = head"
  by (auto simp: used_eq wrap_eq split: if_splits)

lemma unread_slot: "head < n \<Longrightarrow> tail < n \<Longrightarrow> j < used n head tail \<Longrightarrow> (tail + j) mod n \<noteq> head"
  by (auto simp: used_eq wrap_eq split: if_splits)

lemma slot_store:
  assumes "length e = SDL_EVENT_SIZE"
  shows "slot (store_bytes m (events + SDL_EVENT_SIZE * k) e) events j = (if j = k then e else slot m events j)"
proof (cases "j = k")
  case True
  then show ?thesis
    using load_store_same [of m "events + SDL_EVENT_SIZE * k" e] assms by (simp add: slot_def)
next
  case False
  then have "events + SDL_EVENT_SIZE * k + length e \<le> events + SDL_EVENT_SIZE * j
      \<or> events + SDL_EVENT_SIZE * j + SDL_EVENT_SIZE \<le> events + SDL_EVENT_SIZE * k"
    using assms by auto
  then show ?thesis using False by (simp add: slot_def load_store_disjoint)
qed

lemma unread_push:
  assumes "head < n" "tail < n" "(head + 1) mod n \<noteq> tail" "length e = SDL_EVENT_SIZE"
  shows "unread (store_bytes m (events + SDL_EVENT_SIZE * head) e) events n ((head + 1) mod n) tail
    = unread m events n head tail @ [e]"
  using assms unread_slot [OF assms(1,2)]
  by (simp add: unread_def used_next [simplified] slot_store free_slot)

text \<open>What a run of the loop does to the ring.\<close>

lemma pull_loop_ring:
  assumes "e < 32" "unat tail < 2 ^ e"
  shows "pull_loop (mask e) events tail q m idx i = Inr (m', q', idx', i') \<Longrightarrow> unat idx < 2 ^ e \<Longrightarrow>
    \<forall>x\<in>set q. length x = SDL_EVENT_SIZE \<Longrightarrow>
    \<exists>taken. (q = taken \<and> q' = [] \<or> (\<exists>lost. q = taken @ lost # q' \<and> used (2 ^ e) (unat idx') (unat tail) = 2 ^ e - 1))
      \<and> unat idx' < 2 ^ e \<and> i' = i + of_nat (length (filter wanted taken))
      \<and> unread m' events (2 ^ e) (unat idx') (unat tail)
          = unread m events (2 ^ e) (unat idx) (unat tail) @ filter wanted taken
      \<and> mem_size m' = mem_size m
      \<and> (\<forall>p. p < events \<or> events + SDL_EVENT_SIZE * 2 ^ e \<le> p \<longrightarrow> mem_bytes m' p = mem_bytes m p)"
proof (induction q arbitrary: m idx i)
  case (Cons x q)
  note nx = next_index [OF assms(1) Cons.prems(2)]
  have eq: "((idx + 1) AND mask e = tail) = ((unat idx + 1) mod 2 ^ e = unat tail)"
    by (simp only: nx [symmetric] word_unat_eq_iff)
  show ?case
  proof (cases "(idx + 1) AND mask e = tail")
    case True
    then have "used (2 ^ e) (unat idx) (unat tail) = 2 ^ e - 1"
      using used_full [OF Cons.prems(2) assms(2)] eq by simp
    moreover have "m' = m" "q' = q" "idx' = idx" "i' = i" using Cons.prems(1) True by auto
    ultimately show ?thesis using Cons.prems(2) by (intro exI [of _ "[]"]) simp
  next
    case room: False
    show ?thesis
    proof (cases "wanted x")
      case False
      then have "pull_loop (mask e) events tail q m idx i = Inr (m', q', idx', i')"
        using Cons.prems(1) room by simp
      from Cons.IH [OF this Cons.prems(2)] Cons.prems(3) obtain taken where
        "(q = taken \<and> q' = [] \<or> (\<exists>lost. q = taken @ lost # q' \<and> used (2 ^ e) (unat idx') (unat tail) = 2 ^ e - 1))
      \<and> unat idx' < 2 ^ e \<and> i' = i + of_nat (length (filter wanted taken))
      \<and> unread m' events (2 ^ e) (unat idx') (unat tail)
          = unread m events (2 ^ e) (unat idx) (unat tail) @ filter wanted taken
      \<and> mem_size m' = mem_size m
      \<and> (\<forall>p. p < events \<or> events + SDL_EVENT_SIZE * 2 ^ e \<le> p \<longrightarrow> mem_bytes m' p = mem_bytes m p)"
        by auto
      then show ?thesis using False by (intro exI [of _ "x # taken"]) auto
    next
      case True
      let ?m = "store_bytes m (events + SDL_EVENT_SIZE * unat idx) x"
      have len: "length x = SDL_EVENT_SIZE" using Cons.prems(3) by simp
      have run: "pull_loop (mask e) events tail q ?m ((idx + 1) AND mask e) (i + 1) = Inr (m', q', idx', i')"
        using Cons.prems(1) room True by (auto simp: poke_def result_simps split: if_splits)
      have small: "unat ((idx + 1) AND mask e) < 2 ^ e" by (simp add: nx)
      have out: "mem_bytes ?m p = mem_bytes m p" if "p < events \<or> events + SDL_EVENT_SIZE * 2 ^ e \<le> p" for p
      proof -
        have "SDL_EVENT_SIZE * unat idx + SDL_EVENT_SIZE \<le> SDL_EVENT_SIZE * 2 ^ e"
          using Cons.prems(2) by simp
        then show ?thesis using that len by (intro store_bytes_outside) auto
      qed
      have push: "unread ?m events (2 ^ e) (unat ((idx + 1) AND mask e)) (unat tail)
          = unread m events (2 ^ e) (unat idx) (unat tail) @ [x]"
        unfolding nx by (rule unread_push [OF Cons.prems(2) assms(2) _ len]) (use room eq in simp)
      from Cons.IH [OF run small] Cons.prems(3) obtain taken where
        "(q = taken \<and> q' = [] \<or> (\<exists>lost. q = taken @ lost # q' \<and> used (2 ^ e) (unat idx') (unat tail) = 2 ^ e - 1))
      \<and> unat idx' < 2 ^ e \<and> i' = (i + 1) + of_nat (length (filter wanted taken))
      \<and> unread m' events (2 ^ e) (unat idx') (unat tail)
          = unread m events (2 ^ e) (unat idx) (unat tail) @ [x] @ filter wanted taken
      \<and> mem_size m' = mem_size m
      \<and> (\<forall>p. p < events \<or> events + SDL_EVENT_SIZE * 2 ^ e \<le> p \<longrightarrow> mem_bytes m' p = mem_bytes m p)"
        using push out by (auto simp: mem_simps)
      then show ?thesis using True by (intro exI [of _ "x # taken"]) auto
    qed
  qed
qed simp

lemma length_unread [simp]: "length (unread m events n head tail) = used n head tail"
  by (simp add: unread_def)

lemma unread_poke:
  assumes "p + length bs \<le> events \<or> events + SDL_EVENT_SIZE * n \<le> p" "0 < n"
  shows "unread (store_bytes m p bs) events n head tail = unread m events n head tail"
proof -
  have "slot (store_bytes m p bs) events k = slot m events k" if "k < n" for k
  proof -
    have "SDL_EVENT_SIZE * k + SDL_EVENT_SIZE \<le> SDL_EVENT_SIZE * n" using that by simp
    then show ?thesis using assms(1) unfolding slot_def by (intro load_store_disjoint) auto
  qed
  then show ?thesis using assms(2) by (simp add: unread_def)
qed

definition head_at :: "memory \<Rightarrow> nat \<Rightarrow> u32" where
  "head_at m p = word_of_bytes (load_bytes m p 4)"

lemma head_at_store: "head_at (store_bytes m p (bytes_of_word w)) p = w"
proof -
  have "load_bytes (store_bytes m p (bytes_of_word w)) p 4 = bytes_of_word w"
    using load_store_same [of m p "bytes_of_word w"] by simp
  then show ?thesis by (simp add: head_at_def word_of_bytes_of_word)
qed

text \<open>
  C24: pulling events treats the guest's array as a bounded queue. After a successful \<open>sdl_init\<close>, with
  head and tail inside the ring, the keyboard and mouse events taken from the library are appended in
  order to the unread ones, none of which is overwritten; the number returned and the new head are
  theirs; only the ring and the head are written. When the ring is full, the event that was polled
  before the test is lost.
\<close>

theorem pull_events_ring:
  assumes "sdl_init lib up w h sz s0 = Inr (r, s1)" "s1 \<noteq> s0"
    and "s_event_buff_size_mask s = s_event_buff_size_mask s1"
    and "sdl_pull_events events head tail m s = Inr (n, m', s')"
    and "unat (head_at m head) < unat sz" "unat tail < unat sz"
    and "\<forall>x\<in>set (sdl_queue s). length x = SDL_EVENT_SIZE"
    and "head + 4 \<le> events \<or> events + SDL_EVENT_SIZE * unat sz \<le> head"
  shows "\<exists>taken. (sdl_queue s = taken \<and> sdl_queue s' = []
        \<or> (\<exists>lost. sdl_queue s = taken @ lost # sdl_queue s'
             \<and> length (unread m' events (unat sz) (unat (head_at m' head)) (unat tail)) = unat sz - 1))
      \<and> unread m' events (unat sz) (unat (head_at m' head)) (unat tail)
          = unread m events (unat sz) (unat (head_at m head)) (unat tail) @ filter wanted taken
      \<and> n = of_nat (length (filter wanted taken)) \<and> unat (head_at m' head) < unat sz
      \<and> (\<forall>p. (p < events \<or> events + SDL_EVENT_SIZE * unat sz \<le> p) \<and> (p < head \<or> head + 4 \<le> p)
            \<longrightarrow> mem_bytes m' p = mem_bytes m p)"
proof -
  obtain e where e: "e < 32" "unat sz = 2 ^ e" "s_event_buff_size_mask s = mask e"
    using init_power [OF assms(1,2)] assms(3) by auto
  from assms(4) obtain m1 idx where
    loop: "pull_loop (mask e) events tail (sdl_queue s) m (head_at m head) 0 = Inr (m1, sdl_queue s', idx, n)"
    and m': "m' = store_bytes m1 head (bytes_of_word idx)"
    by (auto simp: sdl_pull_events_def result_simps e(3) peek_def poke_def head_at_def split: if_splits)
  have h': "head_at m' head = idx" by (simp add: m' head_at_store)
  have same: "unread m' events (2 ^ e) a b = unread m1 events (2 ^ e) a b" for a b
    unfolding m' using assms(8) e(2) by (intro unread_poke) auto
  obtain taken where t: "sdl_queue s = taken \<and> sdl_queue s' = []
      \<or> (\<exists>lost. sdl_queue s = taken @ lost # sdl_queue s' \<and> used (2 ^ e) (unat idx) (unat tail) = 2 ^ e - 1)"
    "unat idx < 2 ^ e" "n = 0 + of_nat (length (filter wanted taken))"
    "unread m1 events (2 ^ e) (unat idx) (unat tail)
      = unread m events (2 ^ e) (unat (head_at m head)) (unat tail) @ filter wanted taken"
    "\<forall>p. p < events \<or> events + SDL_EVENT_SIZE * 2 ^ e \<le> p \<longrightarrow> mem_bytes m1 p = mem_bytes m p"
    using pull_loop_ring [OF e(1) _ loop _ assms(7)] assms(5,6) unfolding e(2) by blast
  have "mem_bytes m' p = mem_bytes m p"
    if "(p < events \<or> events + SDL_EVENT_SIZE * 2 ^ e \<le> p) \<and> (p < head \<or> head + 4 \<le> p)" for p
    using that t(5) by (auto simp: m' store_bytes_outside)
  then show ?thesis using t(1-4) unfolding e(2) h' same length_unread by auto
qed

text \<open>A ring of four slots with room for one event: the second event is lost.\<close>

definition key :: SDL_Event where
  "key = [0x00, 0x03, 0, 0] @ replicate 52 0"

lemma pull_events_ring_witness:
  "\<exists>n m' s'. sdl_pull_events 16 0 0 \<lparr>mem_bytes = (\<lambda>p. if p = 0 then 2 else 0), mem_size = 512\<rparr>
      (sdl_start\<lparr>s_event_buff_size_mask := 3, sdl_queue := [key, key]\<rparr>) = Inr (n, m', s')
    \<and> sdl_queue s' = [] \<and> length (unread m' 16 4 (unat (head_at m' 0)) 0) = 3"
proof -
  let ?m = "\<lparr>mem_bytes = (\<lambda>p. if p = 0 then 2 else 0), mem_size = 512\<rparr> :: memory"
  let ?s = "sdl_start\<lparr>s_event_buff_size_mask := 3, sdl_queue := [key, key]\<rparr>"
  let ?lib = "\<lparr>init_ok = True, window_ok = True, renderer_ok = True, texture_ok = True, malloc_ok = True,
    mouse_ok = True\<rparr>"
  have len: "length key = 56" by (simp add: key_def)
  have want: "wanted key" by code_simp
  have h: "head_at ?m 0 = 2" by code_simp
  have loop: "pull_loop 3 16 0 [key, key] ?m 2 0 = Inr (store_bytes ?m 128 key, [], 3, 1)"
    using want len by (simp add: poke_def)
  obtain n m' s' where run: "sdl_pull_events 16 0 0 ?m ?s = Inr (n, m', s')" "sdl_queue s' = []"
  proof
    show "sdl_pull_events 16 0 0 ?m ?s = Inr (1, store_bytes (store_bytes ?m 128 key) 0 (bytes_of_word (3 :: u32)),
        ?s\<lparr>sdl_queue := []\<rparr>)"
      using h want len by (simp add: sdl_pull_events_def peek_def poke_def head_at_def mem_simps)
  qed simp
  obtain r s1 where init: "sdl_init ?lib 1 1 1 4 sdl_start = Inr (r, s1)" "s1 \<noteq> sdl_start"
    "s_event_buff_size_mask ?s = s_event_buff_size_mask s1"
    by (simp add: sdl_init_def sdl_start_def)
  have q: "sdl_queue ?s = [key, key]" by simp
  have p: "unat (head_at ?m 0) < unat (4 :: u32)" "unat (0 :: u32) < unat (4 :: u32)"
    "\<forall>x\<in>set (sdl_queue ?s). length x = 56" "0 + 4 \<le> (16 :: nat) \<or> 16 + 56 * unat (4 :: u32) \<le> 0"
    using len by (simp_all add: h q)
  obtain taken where t: "[key, key] = taken \<or> used 4 (unat (head_at m' 0)) 0 = 3"
    "unread m' 16 4 (unat (head_at m' 0)) 0 = unread ?m 16 4 2 0 @ filter wanted taken"
    using pull_events_ring [OF init run(1) p] unfolding q h by force
  have "length (unread m' 16 4 (unat (head_at m' 0)) 0) < 4" by (simp add: used_def)
  moreover have "length (unread m' 16 4 (unat (head_at m' 0)) 0) = 2 + length (filter wanted taken)"
    unfolding t(2) by (simp add: used_def)
  ultimately have "length (unread m' 16 4 (unat (head_at m' 0)) 0) = 3"
    using t(1) want by auto
  then show ?thesis using run by blast
qed

end
