(* ===== verification/Emu.thy ===== *)
theory Emu
  imports Sdl Vcore
begin

text \<open>
  The data of the USER build's system calls (first part of src/src/user/emu.c): the newlib structures
  and the conversions into them, the descriptors of the guest, and the argument block that
  \<open>emu_args\<close> builds on the guest's stack page. The host's system calls are the record \<open>host\<close>, over a
  host state of any type.
\<close>

unbundle bit_operations_syntax

section \<open>The host\<close>

text \<open>The host's \<open>struct timespec\<close>, \<open>timeval\<close> and \<open>stat\<close>, with 64-bit \<open>long\<close>s as integers.\<close>

record timespec =
  tv_sec :: int
  tv_nsec :: int

record timeval =
  tvs_sec :: int
  tvs_usec :: int

record stat =
  st_dev :: u64
  st_ino :: u64
  st_mode :: u32
  st_nlink :: u64
  st_uid :: u32
  st_gid :: u32
  st_rdev :: u64
  st_size :: int
  st_atim :: timespec
  st_mtim :: timespec
  st_ctim :: timespec
  st_blksize :: int
  st_blocks :: int

text \<open>
  What the calls return and leave behind: \<open>h_read\<close> the bytes read, \<open>h_fstat\<close> what \<open>fs\<close> holds afterwards
  (the stack's garbage when it fails), \<open>h_gettimeofday\<close> the time and the eight bytes of the time zone.
\<close>

record 'h host =
  h_open :: "u8 list \<Rightarrow> int \<Rightarrow> 'h \<Rightarrow> int \<times> 'h"
  h_close :: "int \<Rightarrow> 'h \<Rightarrow> int \<times> 'h"
  h_dup2 :: "int \<Rightarrow> int \<Rightarrow> 'h \<Rightarrow> int \<times> 'h"
  h_lseek :: "int \<Rightarrow> int \<Rightarrow> int \<Rightarrow> 'h \<Rightarrow> int \<times> 'h"
  h_read :: "int \<Rightarrow> nat \<Rightarrow> 'h \<Rightarrow> (int \<times> u8 list) \<times> 'h"
  h_write :: "int \<Rightarrow> u8 list \<Rightarrow> 'h \<Rightarrow> int \<times> 'h"
  h_fstat :: "int \<Rightarrow> 'h \<Rightarrow> (int \<times> stat) \<times> 'h"
  h_gettimeofday :: "'h \<Rightarrow> (int \<times> timeval \<times> u8 list) \<times> 'h"
  h_clock_gettime :: "int \<Rightarrow> 'h \<Rightarrow> (int \<times> timespec) \<times> 'h"

definition ELF_FDS_BASELINE :: int where "ELF_FDS_BASELINE = 512"

section \<open>Conversions\<close>

definition in_i32 :: "int \<Rightarrow> bool" where "in_i32 x \<longleftrightarrow> - (2 ^ 31) \<le> x \<and> x < 2 ^ 31"
definition in_i64 :: "int \<Rightarrow> bool" where "in_i64 x \<longleftrightarrow> - (2 ^ 63) \<le> x \<and> x < 2 ^ 63"

definition signed_overflow :: stop where
  "signed_overflow = Undefined ''signed integer overflow''"

definition i64 :: "int \<Rightarrow> int result" where
  "i64 x = (if in_i64 x then Inr x else Inl signed_overflow)"

record EMU_timespec =
  e_sec :: int
  e_nsec :: int

record EMU_timeval =
  ev_sec :: int
  ev_usec :: int

text \<open>The arithmetic of both copies; \<open>per\<close> is the number of small units in a second.\<close>

definition emu_normalise :: "int \<Rightarrow> int \<Rightarrow> int \<Rightarrow> (int \<times> int) result" where
  "emu_normalise per sec small =
    and_then
      (if \<not> in_i32 small then
         (let extra_sec = small sdiv per
          in and_then (i64 (sec + extra_sec)) (\<lambda>sec. Inr (sec, small - extra_sec * per)))
       else Inr (sec, small))
      (\<lambda>(sec, small).
        if small < 0 then and_then (i64 (sec - 1)) (\<lambda>sec. Inr (sec, small + per))
        else Inr (sec, small))"

text \<open>The cast to \<open>int32_t\<close>, modulo 2 to the 32.\<close>

definition to_i32 :: "int \<Rightarrow> int" where
  "to_i32 x = sint (word_of_int x :: u32)"

definition emu_copy_timespec :: "timespec \<Rightarrow> EMU_timespec result" where
  "emu_copy_timespec ts =
     and_then (emu_normalise 1000000000 (tv_sec ts) (tv_nsec ts)) (\<lambda>(sec, nsec).
       Inr \<lparr>e_sec = sec, e_nsec = to_i32 nsec\<rparr>)"

definition emu_copy_timeval :: "timeval \<Rightarrow> EMU_timeval result" where
  "emu_copy_timeval tv =
     and_then (emu_normalise 1000000 (tvs_sec tv) (tvs_usec tv)) (\<lambda>(sec, usec).
       Inr \<lparr>ev_sec = sec, ev_usec = to_i32 usec\<rparr>)"

record EMU_stat =
  es_dev :: u16
  es_ino :: u16
  es_mode :: u32
  es_nlink :: u16
  es_uid :: u16
  es_gid :: u16
  es_rdev :: u16
  es_size :: int
  es_atim :: EMU_timespec
  es_mtim :: EMU_timespec
  es_ctim :: EMU_timespec
  es_blksize :: int
  es_blocks :: int

definition emu_copy_stat :: "stat \<Rightarrow> EMU_stat result" where
  "emu_copy_stat fs =
    and_then (emu_copy_timespec (st_atim fs)) (\<lambda>atim.
    and_then (emu_copy_timespec (st_mtim fs)) (\<lambda>mtim.
    and_then (emu_copy_timespec (st_ctim fs)) (\<lambda>ctim.
      Inr \<lparr>es_dev = ucast (st_dev fs), es_ino = ucast (st_ino fs), es_mode = st_mode fs,
        es_nlink = ucast (st_nlink fs), es_uid = ucast (st_uid fs), es_gid = ucast (st_gid fs),
        es_rdev = ucast (st_rdev fs),
        es_size = (if st_size fs > 2 ^ 31 - 1 \<or> st_size fs < - (2 ^ 31) then 2 ^ 31 - 1 else st_size fs),
        es_atim = atim, es_mtim = mtim, es_ctim = ctim,
        es_blksize = to_i32 (st_blksize fs), es_blocks = to_i32 (st_blocks fs)\<rparr>)))"

section \<open>Layout in the guest's memory\<close>

text \<open>
  Fields with their offsets; both ABIs align an \<open>int64_t\<close> to eight bytes, so \<open>EMU_timespec\<close> takes 16
  bytes and \<open>EMU_stat\<close> 88. Padding and \<open>st_spare4\<close> are not written.
\<close>

fun put_fields :: "nat \<Rightarrow> (nat \<times> u8 list) list \<Rightarrow> memory \<Rightarrow> memory result" where
  "put_fields p [] m = Inr m"
| "put_fields p ((k, bs) # fs) m = and_then (poke m (p + k) bs) (put_fields p fs)"

definition i64_bytes :: "int \<Rightarrow> u8 list" where "i64_bytes x = bytes_of_word (word_of_int x :: u64)"
definition i32_bytes :: "int \<Rightarrow> u8 list" where "i32_bytes x = bytes_of_word (word_of_int x :: u32)"

definition timespec_fields :: "nat \<Rightarrow> EMU_timespec \<Rightarrow> (nat \<times> u8 list) list" where
  "timespec_fields k t = [(k, i64_bytes (e_sec t)), (k + 8, i32_bytes (e_nsec t))]"

definition timeval_fields :: "nat \<Rightarrow> EMU_timeval \<Rightarrow> (nat \<times> u8 list) list" where
  "timeval_fields k t = [(k, i64_bytes (ev_sec t)), (k + 8, i32_bytes (ev_usec t))]"

definition stat_fields :: "EMU_stat \<Rightarrow> (nat \<times> u8 list) list" where
  "stat_fields es =
     [(0, bytes_of_word (es_dev es)), (2, bytes_of_word (es_ino es)), (4, bytes_of_word (es_mode es)),
      (8, bytes_of_word (es_nlink es)), (10, bytes_of_word (es_uid es)), (12, bytes_of_word (es_gid es)),
      (14, bytes_of_word (es_rdev es)), (16, i32_bytes (es_size es))]
     @ timespec_fields 24 (es_atim es) @ timespec_fields 40 (es_mtim es) @ timespec_fields 56 (es_ctim es)
     @ [(72, i32_bytes (es_blksize es)), (76, i32_bytes (es_blocks es))]"

section \<open>The guest's standard streams\<close>

abbreviation (input) STDIN_FILENO :: int where "STDIN_FILENO \<equiv> 0"
abbreviation (input) STDOUT_FILENO :: int where "STDOUT_FILENO \<equiv> 1"
abbreviation (input) STDERR_FILENO :: int where "STDERR_FILENO \<equiv> 2"

text \<open>Linux's values of \<open>O_RDONLY\<close> and \<open>O_WRONLY | O_TRUNC | O_CREAT\<close>; the mode 0644 is left out.\<close>

definition O_RDONLY :: int where "O_RDONLY = 0"
definition O_OUT :: int where "O_OUT = 0x001 + 0x200 + 0x040"

text \<open>
  One redirection: \<open>name\<close> is the option's file, \<open>fd0\<close> the emulator's own stream, \<open>target\<close> the guest's
  descriptor. \<open>keep\<close> says that the result of the plain \<open>dup2\<close> is stored in \<open>ret\<close>, which is so for the
  input only: for the others the test that follows reads the \<open>ret\<close> of the stream before.
\<close>

definition emu_stream :: "'h host \<Rightarrow> bool \<Rightarrow> string \<Rightarrow> string \<Rightarrow> int \<Rightarrow> int \<Rightarrow> int \<Rightarrow> u8 list option \<Rightarrow> int \<Rightarrow> 'h
    \<Rightarrow> (int \<times> 'h) result" where
  "emu_stream host keep no_open no_set flags fd0 target name ret s =
    and_then
      (case name of
         None \<Rightarrow> (let (r, s) = h_dup2 host fd0 target s in Inr (if keep then r else ret, s))
       | Some path \<Rightarrow>
           (let (fd, s) = h_open host path flags s
            in if fd = - 1 then Inl (Crash no_open)
               else let (r, s) = h_dup2 host fd target s; (_, s) = h_close host fd s in Inr (r, s)))
      (\<lambda>(ret, s). if ret = - 1 then Inl (Crash no_set) else Inr (ret, s))"

definition emu_std :: "'h host \<Rightarrow> u8 list option \<Rightarrow> u8 list option \<Rightarrow> u8 list option \<Rightarrow> 'h \<Rightarrow> 'h result" where
  "emu_std host elf_stdin elf_stdout elf_stderr s =
    and_then (emu_stream host True ''CAN'T OPEN STDIN'' ''CAN'T SET STDIN'' O_RDONLY STDIN_FILENO
      ELF_FDS_BASELINE elf_stdin 0 s) (\<lambda>(ret, s).
    and_then (emu_stream host False ''CAN'T OPEN STDOUT'' ''CAN'T SET STDOUT'' O_OUT STDOUT_FILENO
      (ELF_FDS_BASELINE + 1) elf_stdout ret s) (\<lambda>(ret, s).
    and_then (emu_stream host False ''CAN'T OPEN STDERR'' ''CAN'T SET STDERR'' O_OUT STDERR_FILENO
      (ELF_FDS_BASELINE + 2) elf_stderr ret s) (\<lambda>(_, s). Inr s)))"

section \<open>The arguments\<close>

definition PAGE_SIZE :: nat where "PAGE_SIZE = 4096"

abbreviation (input) blank :: u8 where "blank \<equiv> 0x20"

text \<open>
  The loop of \<open>strtok(tmp_str, " ")\<close> over a string: the number of tokens, and the string after the
  separator behind each token has been overwritten with 0.
\<close>

function tokenize :: "u8 list \<Rightarrow> nat \<times> u8 list" where
  "tokenize [] = (0, [])"
| "tokenize (c # cs) =
    (if c = blank then (let (n, t) = tokenize cs in (n, c # t))
     else let w = takeWhile (\<lambda>x. x \<noteq> blank) (c # cs)
          in case dropWhile (\<lambda>x. x \<noteq> blank) (c # cs) of
               [] \<Rightarrow> (1, w)
             | _ # rest \<Rightarrow> (let (n, t) = tokenize rest in (n + 1, w @ 0 # t)))"
  by pat_completeness auto
termination
proof (relation "measure length", goal_cases)
  case (3 c cs w x rest)
  have "length (dropWhile (\<lambda>x. x \<noteq> blank) (c # cs)) \<le> length (c # cs)" by (rule length_dropWhile_le)
  then have "length (x # rest) \<le> length (c # cs)" using 3(3) by simp
  then show ?case by simp
qed simp_all

text \<open>
  The loop that copies the strings: \<open>argp\<close> is where the next pointer goes, \<open>dst\<close> the next string, \<open>str\<close>
  the rest of \<open>tmp_str\<close>.
\<close>

fun place_args :: "nat \<Rightarrow> u32 \<Rightarrow> u32 \<Rightarrow> u8 list \<Rightarrow> memory \<Rightarrow> memory result" where
  "place_args 0 argp dst str m = Inr m"
| "place_args (Suc n) argp dst str m =
    (if 0 \<notin> set str then Inl (Undefined ''strlen past tmp_str'')
     else let w = takeWhile (\<lambda>x. x \<noteq> 0) str; str_size = length w + 1
          in and_then (mem_wb_ptr_s m dst (w @ [0])) (\<lambda>m.
             and_then (mem_ww m argp dst) (\<lambda>m.
               place_args n (argp + 4) (dst + of_nat str_size) (drop str_size str) m)))"

text \<open>\<open>ok\<close> says that \<open>malloc\<close> succeeds.\<close>

definition emu_args :: "bool \<Rightarrow> u32 \<Rightarrow> u8 list \<Rightarrow> memory \<Rightarrow> memory result" where
  "emu_args ok stack_base elf_args m =
    (if length elf_args \<ge> PAGE_SIZE then Inl (Crash ''ELF ARGUMENT TOO BIG'')
     else if \<not> ok then Inl (Crash ''OOM'')
     else let (elf_argc, tmp_str) = tokenize elf_args
          in and_then (mem_ww m stack_base (of_nat elf_argc)) (\<lambda>m.
             let arg_str_start = stack_base + 4 + (of_nat elf_argc + 1) * 4;
                 arg_ptr_start = stack_base + 4
             in and_then (place_args elf_argc arg_ptr_start arg_str_start (tmp_str @ [0]) m) (\<lambda>m.
                  mem_ww m (arg_ptr_start + of_nat elf_argc * 4) 0)))"

end
