(* ===== verification/User.thy ===== *)
theory User
  imports Contract Sbi Emu
begin

text \<open>
  The USER build: system calls of the guest (\<open>emu_system_call\<close> of src/src/user/emu.c), the trap
  dispatcher (src/src/user/trap.c), SYSTEM instructions (src/src/user/cpu_user.c), and the platform the
  interpreter is linked against. The names carry \<open>_user\<close> where the SUPERVISOR build has the same
  function.
\<close>

unbundle bit_operations_syntax

record 'h user =
  u_machine :: machine
  u_host :: 'h
  u_sdl :: sdl
  u_brk_limit :: u32
  u_upscale :: int

type_synonym 'h user_hart = "'h user hart"

text \<open>The libraries the build is linked with: the host's calls, SDL's and \<open>malloc\<close>'s results.\<close>

record 'h libs =
  l_host :: "'h host"
  l_sdl :: sdl_lib
  l_palette_ok :: bool

section \<open>System calls\<close>

abbreviation (input) CLOSE_C :: u32 where "CLOSE_C \<equiv> 57"
abbreviation (input) LSEEK_C :: u32 where "LSEEK_C \<equiv> 62"
abbreviation (input) READ_C :: u32 where "READ_C \<equiv> 63"
abbreviation (input) WRITE_C :: u32 where "WRITE_C \<equiv> 64"
abbreviation (input) FSTAT_C :: u32 where "FSTAT_C \<equiv> 80"
abbreviation (input) EXIT_C :: u32 where "EXIT_C \<equiv> 93"
abbreviation (input) GETTIMEOFDAY_C :: u32 where "GETTIMEOFDAY_C \<equiv> 169"
abbreviation (input) BRK_C :: u32 where "BRK_C \<equiv> 214"
abbreviation (input) CLOCK_GETTIME_C :: u32 where "CLOCK_GETTIME_C \<equiv> 403"
abbreviation (input) OPEN_C :: u32 where "OPEN_C \<equiv> 1024"
abbreviation (input) SDL_INIT_C :: u32 where "SDL_INIT_C \<equiv> 2100"
abbreviation (input) SDL_WRITE_PALETTE_C :: u32 where "SDL_WRITE_PALETTE_C \<equiv> 2101"
abbreviation (input) SDL_WRITE_FB_C :: u32 where "SDL_WRITE_FB_C \<equiv> 2102"
abbreviation (input) SDL_PULL_EVENTS_C :: u32 where "SDL_PULL_EVENTS_C \<equiv> 2103"
abbreviation (input) SDL_SHUTDOWN_C :: u32 where "SDL_SHUTDOWN_C \<equiv> 2104"

definition set_host :: "'h \<Rightarrow> 'h user_hart \<Rightarrow> 'h user_hart" where
  "set_host s h = h\<lparr>world := (world h)\<lparr>u_host := s\<rparr>\<rparr>"

definition set_sdl :: "sdl \<Rightarrow> 'h user_hart \<Rightarrow> 'h user_hart" where
  "set_sdl s h = h\<lparr>world := (world h)\<lparr>u_sdl := s\<rparr>\<rparr>"

text \<open>The conversion of an \<open>int\<close> or \<open>ssize_t\<close> result to \<open>uint32_t\<close>, into A0.\<close>

definition ret_a0 :: "int \<Rightarrow> 'h user_hart \<Rightarrow> 'h user_hart" where
  "ret_a0 r h = set_reg A0 (word_of_int r) h"

text \<open>
  The common shape of CLOSE, LSEEK, READ, WRITE and FSTAT: a negative descriptor answers -1, another is
  moved up by 512 (in an \<open>int\<close>) and handed to the call.
\<close>

definition with_fd :: "'h user_hart \<Rightarrow> (int \<Rightarrow> 'h user_hart result) \<Rightarrow> 'h user_hart result" where
  "with_fd h f =
    (let fd = sint (reg h A0)
     in if fd < 0 then Inr (ret_a0 (- 1) h)
        else if fd + ELF_FDS_BASELINE \<ge> 2 ^ 31 then Inl signed_overflow
        else f (fd + ELF_FDS_BASELINE))"

definition sys_close :: "'h host \<Rightarrow> 'h user_hart \<Rightarrow> 'h user_hart result" where
  "sys_close host h = with_fd h (\<lambda>fd.
     let (r, s) = h_close host fd (u_host (world h)) in Inr (ret_a0 r (set_host s h)))"

definition sys_lseek :: "'h host \<Rightarrow> 'h user_hart \<Rightarrow> 'h user_hart result" where
  "sys_lseek host h = with_fd h (\<lambda>fd.
     let (r, s) = h_lseek host fd (uint (reg h A1)) (sint (reg h A2)) (u_host (world h))
     in Inr (ret_a0 r (set_host s h)))"

definition sys_read :: "'h host \<Rightarrow> 'h user_hart \<Rightarrow> 'h user_hart result" where
  "sys_read host h = with_fd h (\<lambda>fd.
     let ((r, bs), s) = h_read host fd (unat (reg h A2)) (u_host (world h))
     in and_then (poke (ram h) (unat (reg h A1)) bs) (\<lambda>m.
          Inr (ret_a0 r (set_host s (h\<lparr>ram := m\<rparr>)))))"

definition sys_write :: "'h host \<Rightarrow> 'h user_hart \<Rightarrow> 'h user_hart result" where
  "sys_write host h = with_fd h (\<lambda>fd.
     and_then (peek (ram h) (unat (reg h A1)) (unat (reg h A2))) (\<lambda>bs.
       let (r, s) = h_write host fd bs (u_host (world h)) in Inr (ret_a0 r (set_host s h))))"

definition sys_fstat :: "'h host \<Rightarrow> 'h user_hart \<Rightarrow> 'h user_hart result" where
  "sys_fstat host h = with_fd h (\<lambda>fd.
     let ((r, fs), s) = h_fstat host fd (u_host (world h))
     in and_then (emu_copy_stat fs) (\<lambda>es.
        and_then (put_fields (unat (reg h A1)) (stat_fields es) (ram h)) (\<lambda>m.
          Inr (ret_a0 r (set_host s (h\<lparr>ram := m\<rparr>))))))"

text \<open>
  The host writes the time zone at A1; the time itself goes to the address that A0 holds after the
  call's result has been stored there.
\<close>

definition sys_gettimeofday :: "'h host \<Rightarrow> 'h user_hart \<Rightarrow> 'h user_hart result" where
  "sys_gettimeofday host h =
    (let ((r, tv, tz), s) = h_gettimeofday host (u_host (world h))
     in and_then (poke (ram h) (unat (reg h A1)) tz) (\<lambda>m.
        let h = ret_a0 r (set_host s (h\<lparr>ram := m\<rparr>))
        in and_then (emu_copy_timeval tv) (\<lambda>etv.
           and_then (put_fields (unat (reg h A0)) (timeval_fields 0 etv) (ram h)) (\<lambda>m.
             Inr (h\<lparr>ram := m\<rparr>)))))"

definition sys_clock_gettime :: "'h host \<Rightarrow> 'h user_hart \<Rightarrow> 'h user_hart result" where
  "sys_clock_gettime host h =
    (let ((r, ts), s) = h_clock_gettime host (sint (reg h A0)) (u_host (world h));
         h = ret_a0 r (set_host s h)
     in and_then (emu_copy_timespec ts) (\<lambda>ets.
        and_then (put_fields (unat (reg h A1)) (timespec_fields 0 ets) (ram h)) (\<lambda>m.
          Inr (h\<lparr>ram := m\<rparr>))))"

text \<open>A C string in the guest's memory.\<close>

definition c_string :: "memory \<Rightarrow> nat \<Rightarrow> u8 list result" where
  "c_string m p =
    (let bs = load_bytes m p (mem_size m - p)
     in if 0 \<in> set bs then Inr (takeWhile (\<lambda>x. x \<noteq> 0) bs) else Inl out_of_vmem)"

definition sys_open :: "'h host \<Rightarrow> 'h user_hart \<Rightarrow> 'h user_hart result" where
  "sys_open host h =
    and_then (c_string (ram h) (unat (reg h A0))) (\<lambda>path.
      let (fd, s) = h_open host path (sint (reg h A1)) (u_host (world h));
          h = ret_a0 fd (set_host s h)
      in if fd < 0 then Inr h
         else if fd \<ge> ELF_FDS_BASELINE then Inl (Exit 1)
         else let (_, s) = h_dup2 host fd (ELF_FDS_BASELINE + fd) s; (_, s) = h_close host fd s
              in Inr (set_host s h))"

definition sys_brk :: "'h user_hart \<Rightarrow> 'h user_hart result" where
  "sys_brk h =
    (if reg h A0 \<ge> u_brk_limit (world h) then Inr (ret_a0 (- 1) h)
     else let h = (if reg h A0 > 0 then h\<lparr>core := (core h)\<lparr>elf_brk := reg h A0\<rparr>\<rparr> else h)
          in Inr (set_reg A0 (elf_brk (core h)) h))"

definition sys_sdl_init :: "sdl_lib \<Rightarrow> 'h user_hart \<Rightarrow> 'h user_hart result" where
  "sys_sdl_init lib h =
    and_then (sdl_init lib (u_upscale (world h)) (sint (reg h A1)) (sint (reg h A2)) (reg h A3) (u_sdl (world h)))
      (\<lambda>(_, s). Inr (set_sdl s h))"

definition sys_sdl_write_palette :: "bool \<Rightarrow> 'h user_hart \<Rightarrow> 'h user_hart result" where
  "sys_sdl_write_palette ok h =
    and_then (sdl_write_palette ok (ram h) (unat (reg h A0)) (reg h A1) (u_sdl (world h)))
      (\<lambda>s. Inr (set_sdl s h))"

definition sys_sdl_write_fb :: "'h user_hart \<Rightarrow> 'h user_hart result" where
  "sys_sdl_write_fb h =
    and_then (sdl_write_fb (ram h) (unat (reg h A0)) (u_sdl (world h)))
      (\<lambda>(r, s). Inr (ret_a0 r (set_sdl s h)))"

definition sys_sdl_pull_events :: "'h user_hart \<Rightarrow> 'h user_hart result" where
  "sys_sdl_pull_events h =
    and_then (sdl_pull_events (unat (reg h A0)) (unat (reg h A1)) (reg h A2) (ram h) (u_sdl (world h)))
      (\<lambda>(n, m, s). Inr (set_reg A0 n (set_sdl s (h\<lparr>ram := m\<rparr>))))"

definition emu_system_call :: "'h libs \<Rightarrow> 'h user_hart \<Rightarrow> 'h user_hart result" where
  "emu_system_call libs h =
    (let a7 = reg h A7; host = l_host libs
     in if a7 = CLOSE_C then sys_close host h
        else if a7 = LSEEK_C then sys_lseek host h
        else if a7 = READ_C then sys_read host h
        else if a7 = WRITE_C then sys_write host h
        else if a7 = FSTAT_C then sys_fstat host h
        else if a7 = GETTIMEOFDAY_C then sys_gettimeofday host h
        else if a7 = EXIT_C then Inl (Exit (sint (reg h A0)))
        else if a7 = CLOCK_GETTIME_C then sys_clock_gettime host h
        else if a7 = OPEN_C then sys_open host h
        else if a7 = BRK_C then sys_brk h
        else if a7 = SDL_INIT_C then sys_sdl_init (l_sdl libs) h
        else if a7 = SDL_WRITE_PALETTE_C then sys_sdl_write_palette (l_palette_ok libs) h
        else if a7 = SDL_WRITE_FB_C then sys_sdl_write_fb h
        else if a7 = SDL_SHUTDOWN_C then sdl_shutdown (u_sdl (world h))
        else if a7 = SDL_PULL_EVENTS_C then sys_sdl_pull_events h
        else Inl (Exit 1))"

section \<open>Traps and SYSTEM instructions\<close>

text \<open>
  A breakpoint halts all cores, the running one among them: its entry in the machine is brought up to
  date before and read back after, as in theory \<open>Supervisor\<close>.
\<close>

definition halt_user :: "'h user_hart \<Rightarrow> 'h user_hart" where
  "halt_user h =
    (let m = u_machine (world h); m = threads_mgr_halt_cores (set_core (me m) (core h) m)
     in h\<lparr>core := ct_core (cthreads m ! me m), world := (world h)\<lparr>u_machine := m\<rparr>\<rparr>)"

definition wrong_code :: stop where
  "wrong_code = Assert_Failed ''wrong exception code''"

fun dispatch_trap_user :: "'h libs \<Rightarrow> 'h user trap_fn" where
  "dispatch_trap_user libs h ILL_INS v = Inl (Exit 1)"
| "dispatch_trap_user libs h BRKPT v = Inr (halt_user h)"
| "dispatch_trap_user libs h ECALL_U_MODE v = emu_system_call libs h"
| "dispatch_trap_user libs h INS_PAGE_FAULT v = Inr h"
| "dispatch_trap_user libs h LOAD_PAGE_FAULT v = Inr h"
| "dispatch_trap_user libs h STORE_AMO_PAGE_FAULT v = Inr h"
| "dispatch_trap_user libs h _ v = Inl wrong_code"

definition vcore_sys_type_user :: "'h libs \<Rightarrow> 'h user_hart \<Rightarrow> u32 \<Rightarrow> 'h user_hart result" where
  "vcore_sys_type_user libs h ins =
    (let imm = I_IMM ins
     in if imm = 0 then and_then (dispatch_trap_user libs h ECALL_U_MODE 0) (\<lambda>h. Inr (add_pc 4 h))
        else if imm = 1 then dispatch_trap_user libs h BRKPT (reg h PC)
        else dispatch_trap_user libs h ILL_INS ins)"

text \<open>The USER build compiles no interrupt check into the loop.\<close>

definition user :: "'h libs \<Rightarrow> 'h user platform" where
  "user libs = \<lparr>plat_trap = dispatch_trap_user libs, plat_sys = vcore_sys_type_user libs, plat_irq = Inr\<rparr>"

lemma user_simps [simp]:
  "plat_trap (user libs) = dispatch_trap_user libs" "plat_sys (user libs) = vcore_sys_type_user libs"
  "plat_irq (user libs) = Inr"
  by (simp_all add: user_def)

end
