(* ===== verification/User_Props.thy ===== *)
theory User_Props
  imports User
begin

text \<open>
  The USER build keeps the interpreter's contracts (interpretations \<open>user_trap\<close>, \<open>user_sized\<close> and
  \<open>us\<close>), and what follows for a guest's runs: its break stays below the limit, and it reaches the host
  only through descriptors from 512 on.
\<close>

unbundle bit_operations_syntax

section \<open>What the system calls change\<close>

lemma poke_size: "poke m p bs = Inr m' \<Longrightarrow> mem_size m' = mem_size m"
  by (auto simp: poke_def mem_simps split: if_splits)

lemma put_fields_size: "put_fields p fs m = Inr m' \<Longrightarrow> mem_size m' = mem_size m"
  by (induction p fs m rule: put_fields.induct) (auto simp: result_simps dest: poke_size)

lemma pull_loop_size: "pull_loop msk ev tail q m idx i = Inr (m', r) \<Longrightarrow> mem_size m' = mem_size m"
  by (induction msk ev tail q m idx i rule: pull_loop.induct)
    (auto simp: result_simps split: if_splits dest: poke_size)

lemma host_simps [simp]:
  "ram (set_host s h) = ram h" "core (set_host s h) = core h" "u_host (world (set_host s h)) = s"
  "u_brk_limit (world (set_host s h)) = u_brk_limit (world h)" "u_machine (world (set_host s h)) = u_machine (world h)"
  "ram (set_sdl d h) = ram h" "core (set_sdl d h) = core h" "u_host (world (set_sdl d h)) = u_host (world h)"
  "u_brk_limit (world (set_sdl d h)) = u_brk_limit (world h)" "u_machine (world (set_sdl d h)) = u_machine (world h)"
  "ram (ret_a0 r h) = ram h" "world (ret_a0 r h) = world h"
  by (simp_all add: set_host_def set_sdl_def ret_a0_def hart_simps)

lemmas sys_defs = sys_close_def sys_lseek_def sys_read_def sys_write_def sys_fstat_def sys_gettimeofday_def
  sys_clock_gettime_def sys_open_def sys_brk_def sys_sdl_init_def sys_sdl_write_palette_def
  sys_sdl_write_fb_def sys_sdl_pull_events_def

lemma call_size: "emu_system_call libs h = Inr h' \<Longrightarrow> mem_size (ram h') = mem_size (ram h)"
  unfolding emu_system_call_def Let_def
  by (split if_split_asm)+
    (auto simp: sys_defs with_fd_def Let_def result_simps hart_simps sdl_shutdown_def sdl_pull_events_def
      case_prod_beta split: if_splits dest!: poke_size put_fields_size pull_loop_size)

lemma trap_size: "dispatch_trap_user libs h code v = Inr h' \<Longrightarrow> mem_size (ram h') = mem_size (ram h)"
  by (cases code) (auto simp: halt_user_def Let_def dest: call_size)

lemma sys_size: "vcore_sys_type_user libs h ins = Inr h' \<Longrightarrow> mem_size (ram h') = mem_size (ram h)"
  by (auto simp: vcore_sys_type_user_def Let_def result_simps hart_simps halt_user_def split: if_splits
      dest: call_size)

interpretation user_trap: trap_contract "user libs" for libs
  by unfold_locales simp_all

interpretation user_sized: sized_platform "user libs" for libs
  by unfold_locales (auto dest: sys_size)

section \<open>Isolation of the host and the limit of the break\<close>

text \<open>
  \<open>Q\<close> is a property of the host that calls on descriptors from 512 on keep, as do the clocks, and an
  \<open>open\<close> whose descriptor is at once moved up and closed (one the call refuses ends the process).
\<close>

definition guarded :: "'h host \<Rightarrow> ('h \<Rightarrow> bool) \<Rightarrow> bool" where
  "guarded host Q \<longleftrightarrow>
     (\<forall>s fd. Q s \<and> ELF_FDS_BASELINE \<le> fd \<longrightarrow>
        Q (snd (h_close host fd s)) \<and> (\<forall>off wh. Q (snd (h_lseek host fd off wh s)))
        \<and> (\<forall>n. Q (snd (h_read host fd n s))) \<and> (\<forall>bs. Q (snd (h_write host fd bs s)))
        \<and> Q (snd (h_fstat host fd s)))
     \<and> (\<forall>s. Q s \<longrightarrow> Q (snd (h_gettimeofday host s)) \<and> (\<forall>c. Q (snd (h_clock_gettime host c s))))
     \<and> (\<forall>s path flags. Q s \<longrightarrow> (case h_open host path flags s of (fd, s1) \<Rightarrow>
          if fd < 0 then Q s1
          else fd < ELF_FDS_BASELINE \<longrightarrow> Q (snd (h_close host fd (snd (h_dup2 host fd (ELF_FDS_BASELINE + fd) s1))))))"

definition user_ok :: "u32 \<Rightarrow> u32 \<Rightarrow> ('h \<Rightarrow> bool) \<Rightarrow> 'h user_hart \<Rightarrow> bool" where
  "user_ok L B Q h \<longleftrightarrow> mode (core h) = SUPERVISOR_MODE \<and> u_brk_limit (world h) = L \<and> (elf_brk (core h) = B \<or> elf_brk (core h) < L)
     \<and> Q (u_host (world h)) \<and> me (u_machine (world h)) < ctx_cores (u_machine (world h))"

lemma user_ok_simps [simp]:
  "user_ok L B Q (set_reg i v h) = user_ok L B Q h" "user_ok L B Q (h\<lparr>ram := m\<rparr>) = user_ok L B Q h"
  "user_ok L B Q (ret_a0 r h) = user_ok L B Q h" "user_ok L B Q (set_sdl d h) = user_ok L B Q h"
  "user_ok L B Q (h\<lparr>core := (core h)\<lparr>ll_sc_flag := b, reserved := v\<rparr>\<rparr>) = user_ok L B Q h"
  "user_ok L B Q (add_pc n h) = user_ok L B Q h"
  by (simp_all add: user_ok_def set_reg_def ret_a0_def add_pc_def set_sdl_def)

lemma user_ok_host: "user_ok L B Q h \<Longrightarrow> Q s \<Longrightarrow> user_ok L B Q (set_host s h)"
  by (simp add: user_ok_def set_host_def)

lemma user_okD: "user_ok L B Q h \<Longrightarrow> Q (u_host (world h))"
  by (simp add: user_ok_def)

lemma set_ram_host [simp]: "world (h\<lparr>ram := m\<rparr>) = world h" "reg (h\<lparr>ram := m\<rparr>) i = reg h i"
  by (simp_all add: reg_def)

lemma with_fd_ok:
  assumes run: "with_fd h f = Inr h'" and ok: "user_ok L B Q h"
    and f: "\<And>fd. ELF_FDS_BASELINE \<le> fd \<Longrightarrow> f fd = Inr h' \<Longrightarrow> user_ok L B Q h'"
  shows "user_ok L B Q h'"
proof (cases "sint (reg h A0) < 0")
  case True
  then show ?thesis using run ok by (auto simp: with_fd_def)
next
  case False
  then have "f (sint (reg h A0) + ELF_FDS_BASELINE) = Inr h'"
    using run by (simp add: with_fd_def Let_def split: if_splits)
  then show ?thesis using False by (intro f [of "sint (reg h A0) + ELF_FDS_BASELINE"]) simp_all
qed

lemma guarded_calls:
  assumes "guarded host Q" "Q s"
  shows "ELF_FDS_BASELINE \<le> fd \<Longrightarrow> Q (snd (h_close host fd s))"
    "ELF_FDS_BASELINE \<le> fd \<Longrightarrow> Q (snd (h_lseek host fd off wh s))"
    "ELF_FDS_BASELINE \<le> fd \<Longrightarrow> Q (snd (h_read host fd n s))"
    "ELF_FDS_BASELINE \<le> fd \<Longrightarrow> Q (snd (h_write host fd bs s))"
    "ELF_FDS_BASELINE \<le> fd \<Longrightarrow> Q (snd (h_fstat host fd s))"
    "Q (snd (h_gettimeofday host s))" "Q (snd (h_clock_gettime host c s))"
  using assms by (simp_all add: guarded_def)

lemma guarded_open:
  assumes "guarded host Q" "Q s" "h_open host path flags s = (fd, s1)"
  shows "if fd < 0 then Q s1
    else fd < ELF_FDS_BASELINE \<longrightarrow> Q (snd (h_close host fd (snd (h_dup2 host fd (ELF_FDS_BASELINE + fd) s1))))"
proof -
  have "case h_open host path flags s of (fd, s1) \<Rightarrow> if fd < 0 then Q s1
    else fd < ELF_FDS_BASELINE \<longrightarrow> Q (snd (h_close host fd (snd (h_dup2 host fd (ELF_FDS_BASELINE + fd) s1))))"
    by (rule assms(1) [unfolded guarded_def, THEN conjunct2, THEN conjunct2, THEN spec, THEN spec, THEN spec, THEN mp, OF assms(2)])
  then show ?thesis by (simp only: assms(3) case_prod_conv)
qed

lemma set_host_ram [simp]: "user_ok L B Q (set_host s (h\<lparr>ram := m\<rparr>)) = user_ok L B Q (set_host s h)"
  by (simp add: user_ok_def set_host_def)

lemma fd_calls_ok:
  assumes g: "guarded host Q" and ok: "user_ok L B Q h"
  shows "sys_close host h = Inr h' \<Longrightarrow> user_ok L B Q h'" "sys_lseek host h = Inr h' \<Longrightarrow> user_ok L B Q h'"
    "sys_read host h = Inr h' \<Longrightarrow> user_ok L B Q h'" "sys_write host h = Inr h' \<Longrightarrow> user_ok L B Q h'"
    "sys_fstat host h = Inr h' \<Longrightarrow> user_ok L B Q h'"
  unfolding sys_close_def sys_lseek_def sys_read_def sys_write_def sys_fstat_def Let_def case_prod_beta
  by (erule with_fd_ok [OF _ ok], auto simp: result_simps
      intro!: user_ok_host [OF ok] guarded_calls [OF g user_okD [OF ok]])+

lemma clock_calls_ok:
  assumes g: "guarded host Q" and ok: "user_ok L B Q h"
  shows "sys_gettimeofday host h = Inr h' \<Longrightarrow> user_ok L B Q h'"
    "sys_clock_gettime host h = Inr h' \<Longrightarrow> user_ok L B Q h'"
  unfolding sys_gettimeofday_def sys_clock_gettime_def Let_def case_prod_beta
  by (auto simp: result_simps intro!: user_ok_host [OF ok] guarded_calls [OF g user_okD [OF ok]])

lemma open_ok:
  assumes g: "guarded host Q" and ok: "user_ok L B Q h" and run: "sys_open host h = Inr h'"
  shows "user_ok L B Q h'"
proof -
  obtain path where path: "c_string (ram h) (unat (reg h A0)) = Inr path"
    using run by (auto simp: sys_open_def result_simps)
  obtain fd s1 where fd: "h_open host path (sint (reg h A1)) (u_host (world h)) = (fd, s1)" by fastforce
  note q = guarded_open [OF g user_okD [OF ok] fd]
  have h': "h' = (if fd < 0 then ret_a0 fd (set_host s1 h)
      else set_host (snd (h_close host fd (snd (h_dup2 host fd (ELF_FDS_BASELINE + fd) s1)))) (ret_a0 fd (set_host s1 h)))"
    and small: "fd < ELF_FDS_BASELINE"
    using run path fd by (simp_all add: sys_open_def Let_def case_prod_beta ELF_FDS_BASELINE_def split: if_splits)
  show ?thesis
  proof (cases "fd < 0")
    case True
    then show ?thesis using h' q user_ok_host [OF ok] by simp
  next
    case False
    then show ?thesis using h' q small ok by (simp add: user_ok_def set_host_def ret_a0_def set_reg_def)
  qed
qed

lemma brk_ok: "user_ok L B Q h \<Longrightarrow> sys_brk h = Inr h' \<Longrightarrow> user_ok L B Q h'"
  by (auto simp: sys_brk_def Let_def split: if_splits) (auto simp: user_ok_def)

lemma sdl_calls_ok:
  "user_ok L B Q h \<Longrightarrow> sys_sdl_init lib h = Inr h' \<Longrightarrow> user_ok L B Q h'"
  "user_ok L B Q h \<Longrightarrow> sys_sdl_write_palette ok h = Inr h' \<Longrightarrow> user_ok L B Q h'"
  "user_ok L B Q h \<Longrightarrow> sys_sdl_write_fb h = Inr h' \<Longrightarrow> user_ok L B Q h'"
  "user_ok L B Q h \<Longrightarrow> sys_sdl_pull_events h = Inr h' \<Longrightarrow> user_ok L B Q h'"
  by (auto simp: sys_sdl_init_def sys_sdl_write_palette_def sys_sdl_write_fb_def sys_sdl_pull_events_def
      result_simps case_prod_beta)

lemma call_ok:
  assumes "guarded (l_host libs) Q" "user_ok L B Q h" "emu_system_call libs h = Inr h'"
  shows "user_ok L B Q h'"
  using assms(3) unfolding emu_system_call_def Let_def
  by (auto simp: sdl_shutdown_def split: if_splits
      intro: fd_calls_ok [OF assms(1,2)] clock_calls_ok [OF assms(1,2)] open_ok [OF assms(1,2)]
        brk_ok [OF assms(2)] sdl_calls_ok [OF assms(2)])

lemma halt_user_ok: "user_ok L B Q h \<Longrightarrow> user_ok L B Q (halt_user h)"
  by (auto simp: user_ok_def halt_user_def Let_def threads_mgr_halt_cores_def set_core_def
      cthread_signal_halt_def set_exit_flag_def)

lemma trap_ok:
  "guarded (l_host libs) Q \<Longrightarrow> user_ok L B Q h \<Longrightarrow> dispatch_trap_user libs h code v = Inr h' \<Longrightarrow> user_ok L B Q h'"
  by (cases code) (auto simp: halt_user_ok dest: call_ok)

lemma sys_ok:
  "guarded (l_host libs) Q \<Longrightarrow> user_ok L B Q h \<Longrightarrow> vcore_sys_type_user libs h ins = Inr h' \<Longrightarrow> user_ok L B Q h'"
  by (auto simp: vcore_sys_type_user_def Let_def result_simps halt_user_ok split: if_splits dest: call_ok)

lemma undefined_not_wrong [simp]:
  "out_of_vmem \<noteq> wrong_code" "signed_overflow \<noteq> wrong_code" "Exit n \<noteq> wrong_code" "Out_Of_Fuel \<noteq> wrong_code"
  "Crash c \<noteq> wrong_code" "Undefined u \<noteq> wrong_code" "out_of_palette \<noteq> wrong_code"
  "wrong_code \<noteq> Exit n" "wrong_code \<noteq> out_of_vmem" "wrong_code \<noteq> Out_Of_Fuel"
  by (simp_all add: wrong_code_def out_of_vmem_def signed_overflow_def out_of_palette_def)

lemma parts_not_wrong [simp]:
  "peek m p n \<noteq> Inl wrong_code" "poke m p bs \<noteq> Inl wrong_code" "put_fields p fs m \<noteq> Inl wrong_code"
  "c_string m p \<noteq> Inl wrong_code" "colours pal pix \<noteq> Inl wrong_code"
  "pull_loop msk ev tail q m idx i \<noteq> Inl wrong_code" "i64 x \<noteq> Inl wrong_code"
proof -
  show pk: "poke m p bs \<noteq> Inl wrong_code" for m p bs by (simp add: poke_def)
  show "put_fields p fs m \<noteq> Inl wrong_code"
    by (induction p fs m rule: put_fields.induct) (auto simp: result_simps pk)
  show "colours pal pix \<noteq> Inl wrong_code" by (induction pix) (auto simp: result_simps)
  show "pull_loop msk ev tail q m idx i \<noteq> Inl wrong_code"
    by (induction msk ev tail q m idx i rule: pull_loop.induct) (auto simp: result_simps pk)
qed (simp_all add: peek_def c_string_def Let_def i64_def)

lemma copies_not_wrong [simp]:
  "emu_copy_timespec ts \<noteq> Inl wrong_code" "emu_copy_timeval tv \<noteq> Inl wrong_code" "emu_copy_stat fs \<noteq> Inl wrong_code"
proof -
  have n: "emu_normalise per a b \<noteq> Inl wrong_code" for per a b
    by (auto simp: emu_normalise_def Let_def result_simps split: if_splits)
  show ts: "emu_copy_timespec ts \<noteq> Inl wrong_code" for ts by (auto simp: emu_copy_timespec_def result_simps n)
  show "emu_copy_timeval tv \<noteq> Inl wrong_code" by (auto simp: emu_copy_timeval_def result_simps n)
  show "emu_copy_stat fs \<noteq> Inl wrong_code" by (auto simp: emu_copy_stat_def result_simps ts)
qed

lemma device_not_wrong [simp]:
  "sdl_init lib up w k n s \<noteq> Inl wrong_code" "sdl_write_palette ok m p n s \<noteq> Inl wrong_code"
  "sdl_write_fb m p s \<noteq> Inl wrong_code" "sdl_pull_events e j n m s \<noteq> Inl wrong_code"
  "sdl_shutdown s \<noteq> (Inl wrong_code :: 'a result)"
  by (auto simp: sdl_init_def sdl_write_palette_def sdl_write_fb_def sdl_pull_events_def sdl_shutdown_def
      result_simps Let_def split: option.splits if_splits)

lemma with_fd_not_wrong: "(\<And>fd. f fd \<noteq> Inl wrong_code) \<Longrightarrow> with_fd h f \<noteq> Inl wrong_code"
  by (simp add: with_fd_def Let_def)

lemma call_not_wrong: "emu_system_call libs h \<noteq> Inl wrong_code"
proof -
  have "sys_close host h \<noteq> Inl wrong_code" "sys_lseek host h \<noteq> Inl wrong_code" "sys_read host h \<noteq> Inl wrong_code"
    "sys_write host h \<noteq> Inl wrong_code" "sys_fstat host h \<noteq> Inl wrong_code" for host
    unfolding sys_close_def sys_lseek_def sys_read_def sys_write_def sys_fstat_def Let_def case_prod_beta
    by (rule with_fd_not_wrong, simp add: and_then_eq_Inl)+
  moreover have "sys_gettimeofday host h \<noteq> Inl wrong_code" "sys_clock_gettime host h \<noteq> Inl wrong_code"
    "sys_open host h \<noteq> Inl wrong_code" for host
    by (simp_all add: sys_gettimeofday_def sys_clock_gettime_def sys_open_def Let_def case_prod_beta and_then_eq_Inl)
  moreover have "sys_brk h \<noteq> Inl wrong_code" "sys_sdl_init lib h \<noteq> Inl wrong_code"
    "sys_sdl_write_palette ok h \<noteq> Inl wrong_code" "sys_sdl_write_fb h \<noteq> Inl wrong_code"
    "sys_sdl_pull_events h \<noteq> Inl wrong_code" for lib ok
    by (simp_all add: sys_brk_def sys_sdl_init_def sys_sdl_write_palette_def sys_sdl_write_fb_def
        sys_sdl_pull_events_def Let_def case_prod_beta and_then_eq_Inl)
  ultimately show ?thesis by (simp add: emu_system_call_def Let_def)
qed

lemma user_invariant:
  assumes "guarded (l_host libs) Q"
  shows "platform_invariant (user libs) (user_ok L B Q) wrong_code"
proof (unfold_locales, goal_cases)
  case (4 h code v h')
  then show ?case using trap_ok [OF assms] by simp
next
  case (5 h ins h')
  then show ?case using sys_ok [OF assms] by simp
next
  case (8 h ins)
  show ?case by (simp add: vcore_sys_type_user_def Let_def and_then_eq_Inl call_not_wrong)
qed simp_all

interpretation us: platform_invariant "user libs" "user_ok L B (\<lambda>_. True)" wrong_code for libs L B
  by (rule user_invariant) (simp add: guarded_def case_prod_beta)


text \<open>
  A host that keeps the bytes written to each descriptor, and a guest that writes the first byte of its
  memory to its standard output: the byte arrives at descriptor 513 and descriptor 1 keeps its content.
\<close>

definition fd_host :: "(int \<Rightarrow> u8 list) host" where
  "fd_host = \<lparr>h_open = (\<lambda>path flags s. (3, s)), h_close = (\<lambda>fd s. (0, s(fd := []))),
     h_dup2 = (\<lambda>a b s. (b, s(b := s a))), h_lseek = (\<lambda>fd off wh s. (off, s)),
     h_read = (\<lambda>fd n s. ((0, []), s)), h_write = (\<lambda>fd bs s. (int (length bs), s(fd := s fd @ bs))),
     h_fstat = (\<lambda>fd s. ((- 1, \<lparr>st_dev = 0, st_ino = 0, st_mode = 0, st_nlink = 0, st_uid = 0, st_gid = 0,
       st_rdev = 0, st_size = 0, st_atim = \<lparr>tv_sec = 0, tv_nsec = 0\<rparr>, st_mtim = \<lparr>tv_sec = 0, tv_nsec = 0\<rparr>,
       st_ctim = \<lparr>tv_sec = 0, tv_nsec = 0\<rparr>, st_blksize = 0, st_blocks = 0\<rparr>), s)),
     h_gettimeofday = (\<lambda>s. ((0, \<lparr>tvs_sec = 0, tvs_usec = 0\<rparr>, []), s)),
     h_clock_gettime = (\<lambda>c s. ((0, \<lparr>tv_sec = 0, tv_nsec = 0\<rparr>), s))\<rparr>"

definition fd_libs :: "(int \<Rightarrow> u8 list) libs" where
  "fd_libs = \<lparr>l_host = fd_host, l_sdl = \<lparr>init_ok = True, window_ok = True, renderer_ok = True,
     texture_ok = True, malloc_ok = True, mouse_ok = True\<rparr>, l_palette_ok = True\<rparr>"

definition writer :: "(int \<Rightarrow> u8 list) user_hart" where
  "writer = \<lparr>core = zero_core\<lparr>regs := (\<lambda>_. 0)(A7 := 64, A0 := 1, A2 := 1)\<rparr>,
     ram = \<lparr>mem_bytes = (\<lambda>p. if p = 0 then 0x73 else 0), mem_size = 64\<rparr>,
     world = \<lparr>u_machine = \<lparr>cthreads = [\<lparr>ct_state = STATE_STARTED, ct_signal = START_S, ct_old_signal = START_S,
         ct_core = zero_core\<rparr>], me = 0, ctx_debug = False\<rparr>,
       u_host = (\<lambda>_. [7]), u_sdl = sdl_start, u_brk_limit = 32, u_upscale = 1\<rparr>\<rparr>"

lemma writer_run:
  "(case vcore_run (user fd_libs) [id] writer of
     Inr (_, h) \<Rightarrow> Some (u_host (world h) 513, reg h A0, reg h PC) | Inl _ \<Rightarrow> None) = Some ([7, 0x73], 1, 4)"
  by code_simp


end
