(* ===== verification/Loader.thy ===== *)
theory Loader
  imports Emu
begin

text \<open>
  The loader (src/src/loader.c): reading the ELF tables out of the mapped file, the validation of the
  header, the search for sections and symbols by name, the copy of the segments, and the raw binary.
  What \<open>open\<close>, \<open>fstat\<close> and \<open>mmap\<close> do with \<open>ctx.elf_name\<close> is a parameter, of type \<open>exe_file\<close>.
\<close>

section \<open>The mapped file\<close>

text \<open>
  A mapping ends on a page boundary, with zeros behind the end of the file; beyond it an access is
  undefined. \<open>Unmappable\<close>: \<open>mmap\<close> fails with MAP_FAILED, which the code does not test.
\<close>

datatype exe_file = No_file | Unstatable | Unmappable "u8 list" | File "u8 list"

definition out_of_file :: stop where
  "out_of_file = Undefined ''access outside the mapped file''"

definition mapped :: "u8 list \<Rightarrow> nat" where
  "mapped data = (length data + (PAGE_SIZE - 1)) div PAGE_SIZE * PAGE_SIZE"

definition file_byte :: "u8 list \<Rightarrow> nat \<Rightarrow> u8" where
  "file_byte data p = (if p < length data then data ! p else 0)"

definition file_bytes :: "u8 list \<Rightarrow> nat \<Rightarrow> nat \<Rightarrow> u8 list result" where
  "file_bytes data p n =
    (if p + n \<le> mapped data then Inr (map (file_byte data) [p..<p + n]) else Inl out_of_file)"

text \<open>Fields of the packed little-endian structures of elf.h.\<close>

definition half_at :: "u8 list \<Rightarrow> nat \<Rightarrow> u16" where
  "half_at bs p = word_of_bytes (take 2 (drop p bs))"

definition word_at :: "u8 list \<Rightarrow> nat \<Rightarrow> u32" where
  "word_at bs p = word_of_bytes (take 4 (drop p bs))"

record Elf32_Ehdr =
  e_ident :: "u8 list"
  e_type :: u16
  e_machine :: u16
  e_entry :: u32
  e_phoff :: u32
  e_shoff :: u32
  e_phentsize :: u16
  e_phnum :: u16
  e_shentsize :: u16
  e_shnum :: u16
  e_shstrndx :: u16

definition ehdr_of :: "u8 list \<Rightarrow> Elf32_Ehdr" where
  "ehdr_of bs = \<lparr>e_ident = take 16 bs, e_type = half_at bs 16, e_machine = half_at bs 18,
     e_entry = word_at bs 24, e_phoff = word_at bs 28, e_shoff = word_at bs 32,
     e_phentsize = half_at bs 42, e_phnum = half_at bs 44, e_shentsize = half_at bs 46,
     e_shnum = half_at bs 48, e_shstrndx = half_at bs 50\<rparr>"

record Elf32_Phdr =
  p_type :: u32
  p_offset :: u32
  p_vaddr :: u32
  p_filesz :: u32
  p_memsz :: u32

definition phdr_of :: "u8 list \<Rightarrow> Elf32_Phdr" where
  "phdr_of bs = \<lparr>p_type = word_at bs 0, p_offset = word_at bs 4, p_vaddr = word_at bs 8,
     p_filesz = word_at bs 16, p_memsz = word_at bs 20\<rparr>"

record Elf32_Shdr =
  sh_name :: u32
  sh_offset :: u32
  sh_size :: u32
  sh_link :: u32
  sh_entsize :: u32

definition shdr_of :: "u8 list \<Rightarrow> Elf32_Shdr" where
  "shdr_of bs = \<lparr>sh_name = word_at bs 0, sh_offset = word_at bs 16, sh_size = word_at bs 20,
     sh_link = word_at bs 24, sh_entsize = word_at bs 36\<rparr>"

record Elf32_Sym =
  st_name :: u32
  st_value :: u32

definition sym_of :: "u8 list \<Rightarrow> Elf32_Sym" where
  "sym_of bs = \<lparr>st_name = word_at bs 0, st_value = word_at bs 4\<rparr>"

text \<open>Pointers into the file are offsets from \<open>data\<close>.\<close>

record Elf_File =
  data :: "u8 list"
  prog_size :: nat
  sect_size :: nat
  symb_size :: nat
  programs :: nat
  sections :: nat
  header :: Elf32_Ehdr
  symbols :: nat
  symbols_names :: nat
  sections_names :: nat

definition phdr_at :: "Elf_File \<Rightarrow> nat \<Rightarrow> Elf32_Phdr result" where
  "phdr_at elf i = and_then (file_bytes (data elf) (programs elf + 32 * i) 32) (\<lambda>bs. Inr (phdr_of bs))"

definition shdr_at :: "Elf_File \<Rightarrow> nat \<Rightarrow> Elf32_Shdr result" where
  "shdr_at elf i = and_then (file_bytes (data elf) (sections elf + 40 * i) 40) (\<lambda>bs. Inr (shdr_of bs))"

definition sym_at :: "Elf_File \<Rightarrow> nat \<Rightarrow> Elf32_Sym result" where
  "sym_at elf i = and_then (file_bytes (data elf) (symbols elf + 16 * i) 16) (\<lambda>bs. Inr (sym_of bs))"

section \<open>Validation\<close>

definition ld_elf_validate :: "Elf32_Ehdr \<Rightarrow> unit result" where
  "ld_elf_validate h =
    (if e_ident h ! 0 = 0x7F \<and> e_ident h ! 1 = 0x45 \<and> e_ident h ! 2 = 0x4C \<and> e_ident h ! 3 = 0x46
        \<and> e_ident h ! 4 = 1 \<and> e_ident h ! 4 = 1 \<and> e_ident h ! 6 = 1 \<and> e_ident h ! 7 = 0 \<and> e_ident h ! 8 = 0
        \<and> e_type h = 2 \<and> e_machine h = 243 \<and> e_entry h \<noteq> 0 \<and> e_phoff h \<noteq> 0 \<and> e_shoff h \<noteq> 0
        \<and> e_shstrndx h \<noteq> 0
     then Inr () else Inl (Crash ''ELF HEADER INVALID''))"

section \<open>Names\<close>

text \<open>\<open>strcmp(name, data + p) == 0\<close>, which reads up to the first difference.\<close>

fun same_name :: "u8 list \<Rightarrow> u8 list \<Rightarrow> nat \<Rightarrow> bool result" where
  "same_name d [] p = and_then (file_bytes d p 1) (\<lambda>bs. Inr (bs = [0]))"
| "same_name d (c # cs) p =
     and_then (file_bytes d p 1) (\<lambda>bs. if bs = [c] then same_name d cs (p + 1) else Inr False)"

text \<open>The two searches from index \<open>i\<close> with \<open>n\<close> entries left.\<close>

fun getsect_from :: "Elf_File \<Rightarrow> u8 list \<Rightarrow> nat \<Rightarrow> nat \<Rightarrow> Elf32_Shdr option result" where
  "getsect_from elf name 0 i = Inr None"
| "getsect_from elf name (Suc n) i =
     and_then (shdr_at elf i) (\<lambda>sect.
     and_then (same_name (data elf) name (sections_names elf + unat (sh_name sect))) (\<lambda>same.
       if same then Inr (Some sect) else getsect_from elf name n (i + 1)))"

definition ld_elf_getsect :: "Elf_File \<Rightarrow> u8 list \<Rightarrow> Elf32_Shdr option result" where
  "ld_elf_getsect elf name = getsect_from elf name (unat (e_shnum (header elf))) 0"

fun getsym_from :: "Elf_File \<Rightarrow> u8 list \<Rightarrow> nat \<Rightarrow> nat \<Rightarrow> Elf32_Sym option result" where
  "getsym_from elf name 0 i = Inr None"
| "getsym_from elf name (Suc n) i =
     and_then (sym_at elf i) (\<lambda>sym.
     and_then (same_name (data elf) name (symbols_names elf + unat (st_name sym))) (\<lambda>same.
       if same then Inr (Some sym) else getsym_from elf name n (i + 1)))"

definition ld_elf_getsym :: "Elf_File \<Rightarrow> u8 list \<Rightarrow> Elf32_Sym option result" where
  "ld_elf_getsym elf name = getsym_from elf name (symb_size elf) 0"

definition bytes_of :: "string \<Rightarrow> u8 list" where
  "bytes_of s = map of_char s"

definition ld_elf_section_names :: "Elf_File \<Rightarrow> Elf_File result" where
  "ld_elf_section_names elf =
    and_then
      (if e_shstrndx (header elf) \<ge> 0xFF00
       then and_then (shdr_at elf 0) (\<lambda>s. Inr (unat (sh_link s)))
       else Inr (unat (e_shstrndx (header elf))))
      (\<lambda>idx. and_then (shdr_at elf idx) (\<lambda>shstrtab.
         Inr (elf\<lparr>sections_names := unat (sh_offset shstrtab)\<rparr>)))"

definition ld_elf_symbols :: "Elf_File \<Rightarrow> Elf_File result" where
  "ld_elf_symbols elf =
    and_then (ld_elf_getsect elf (bytes_of ''.symtab'')) (\<lambda>sect. case sect of
      None \<Rightarrow> Inl (Crash ''CAN'T FIND .symtab'')
    | Some sect \<Rightarrow>
        if sh_entsize sect = 0 then Inl (Undefined ''division by zero'')
        else let elf = elf\<lparr>symb_size := unat (sh_size sect) div unat (sh_entsize sect),
                           symbols := unat (sh_offset sect)\<rparr>
             in and_then (ld_elf_getsect elf (bytes_of ''.strtab'')) (\<lambda>sect. case sect of
                  None \<Rightarrow> Inl (Crash ''CAN'T FIND .strtab'')
                | Some sect \<Rightarrow> Inr (elf\<lparr>symbols_names := unat (sh_offset sect)\<rparr>)))"

section \<open>Segments\<close>

definition ld_segment :: "u8 list \<Rightarrow> Elf32_Phdr \<Rightarrow> memory \<Rightarrow> memory result" where
  "ld_segment d ph m =
    (let fsz = p_filesz ph; memsz = p_memsz ph; foff = p_offset ph; addr = p_vaddr ph
     in if p_type ph \<noteq> 1 then Inr m
        else if \<not> VALID_ADDR m addr (unat memsz)
        then Inl (Crash ''LOAD segment went out of memory bounds (specify bigger memory).'')
        else and_then (file_bytes d (unat foff) (unat memsz)) (\<lambda>bs.
             and_then (mem_wb_ptr_s m addr bs) (\<lambda>m.
               if fsz < memsz then mem_wb_s m (addr + fsz) 0 (unat (memsz - fsz)) else Inr m)))"

text \<open>The loop from index \<open>i\<close> with \<open>n\<close> program headers left.\<close>

fun seg_from :: "Elf_File \<Rightarrow> nat \<Rightarrow> nat \<Rightarrow> memory \<Rightarrow> memory result" where
  "seg_from elf 0 i m = Inr m"
| "seg_from elf (Suc n) i m =
     and_then (phdr_at elf i) (\<lambda>ph. and_then (ld_segment (data elf) ph m) (seg_from elf n (i + 1)))"

definition ld_elf_seg :: "Elf_File \<Rightarrow> memory \<Rightarrow> memory result" where
  "ld_elf_seg elf m = seg_from elf (unat (e_phnum (header elf))) 0 m"

section \<open>Loading\<close>

definition ld_read_and_map_file :: "exe_file \<Rightarrow> u8 list result" where
  "ld_read_and_map_file f = (case f of
     No_file \<Rightarrow> Inl (Crash ''strerror(errno)'')
   | Unstatable \<Rightarrow> Inl (Crash ''strerror(errno)'')
   | Unmappable d \<Rightarrow> if d = [] then Inl (Crash ''File has a non positive length'')
                     else Inl (Undefined ''access through MAP_FAILED'')
   | File d \<Rightarrow> if d = [] then Inl (Crash ''File has a non positive length'') else Inr d)"

text \<open>The end of both loaders, with the length the read has accepted: nothing but the mapping and the descriptor go away.\<close>

definition load_unmap_and_close_file :: "u8 list \<Rightarrow> unit result" where
  "load_unmap_and_close_file d =
     (if d = [] then Inl (Crash ''File has a non positive length'') else Inr ())"

definition ld_bin :: "exe_file \<Rightarrow> memory \<Rightarrow> VCore_Init \<Rightarrow> (memory \<times> VCore_Init) result" where
  "ld_bin f m init =
    and_then (ld_read_and_map_file f) (\<lambda>d.
    and_then (mem_wb_ptr_s m 0 d) (\<lambda>m.
    and_then (load_unmap_and_close_file d) (\<lambda>_. Inr (m, init\<lparr>init_pc := 0\<rparr>))))"

text \<open>
  The break of the USER build without the symbol \<open>__BSS_END__\<close>: the program header at the index
  \<open>prog_size - 1\<close>, where \<open>prog_size\<close> is the size of the table in bytes.
\<close>

definition last_segment_end :: "Elf_File \<Rightarrow> u32 result" where
  "last_segment_end elf =
    (let p = int (programs elf) + 32 * (int (prog_size elf) - 1)
     in if p < 0 then Inl out_of_file
        else and_then (file_bytes (data elf) (nat p) 32) (\<lambda>bs.
          Inr (p_vaddr (phdr_of bs) + p_memsz (phdr_of bs))))"

definition load_gp :: "Elf_File \<Rightarrow> VCore_Init \<Rightarrow> VCore_Init result" where
  "load_gp elf init =
    and_then (ld_elf_getsym elf (bytes_of ''__global_pointer$'')) (\<lambda>sym. case sym of
      None \<Rightarrow> Inr init | Some s \<Rightarrow> Inr (init\<lparr>init_gp := st_value s\<rparr>))"

definition load_brk :: "Elf_File \<Rightarrow> VCore_Init \<Rightarrow> VCore_Init result" where
  "load_brk elf init =
    and_then (ld_elf_getsym elf (bytes_of ''__BSS_END__'')) (\<lambda>sym. case sym of
      None \<Rightarrow> and_then (last_segment_end elf) (\<lambda>b. Inr (init\<lparr>init_elf_brk := b\<rparr>))
    | Some s \<Rightarrow> Inr (init\<lparr>init_elf_brk := st_value s\<rparr>))"

text \<open>The tables found through a valid header, before the names are looked up.\<close>

definition elf_open :: "u8 list \<Rightarrow> Elf_File result" where
  "elf_open d =
    and_then (file_bytes d 0 52) (\<lambda>bs.
      let h = ehdr_of bs
      in and_then (ld_elf_validate h) (\<lambda>_.
         if unat (e_phentsize h) * unat (e_phnum h) \<ge> 2 ^ 31 \<or> unat (e_shentsize h) * unat (e_shnum h) \<ge> 2 ^ 31
         then Inl signed_overflow
         else Inr \<lparr>data = d, prog_size = unat (e_phentsize h) * unat (e_phnum h),
           sect_size = unat (e_shentsize h) * unat (e_shnum h), symb_size = 0,
           programs = unat (e_phoff h), sections = unat (e_shoff h), header = h, symbols = 0,
           symbols_names = 0, sections_names = 0\<rparr>))"

text \<open>\<open>user\<close> says that this is the USER build.\<close>

definition ld_elf :: "bool \<Rightarrow> exe_file \<Rightarrow> memory \<Rightarrow> VCore_Init \<Rightarrow> (memory \<times> VCore_Init) result" where
  "ld_elf user f m init =
    and_then (ld_read_and_map_file f) (\<lambda>d.
    and_then (elf_open d) (\<lambda>elf.
    and_then (ld_elf_section_names elf) (\<lambda>elf.
    and_then (ld_elf_symbols elf) (\<lambda>elf.
    and_then (ld_elf_seg elf m) (\<lambda>m.
    and_then (load_gp elf (init\<lparr>init_pc := e_entry (header elf)\<rparr>)) (\<lambda>init.
    and_then (if user then load_brk elf init else Inr init) (\<lambda>init.
    and_then (load_unmap_and_close_file d) (\<lambda>_. Inr (m, init)))))))))"

end
