(* ===== verification/Loader_Props.thy ===== *)
theory Loader_Props
  imports Loader
begin

text \<open>
  What the loader leaves in the guest's memory: the image that the program headers of the file
  describe, and nothing outside the memory, whatever the file contains.
\<close>

section \<open>The image\<close>

text \<open>The byte a program header puts at address \<open>p\<close>: from the file, then zeros.\<close>

definition segment_byte :: "u8 list \<Rightarrow> Elf32_Phdr \<Rightarrow> nat \<Rightarrow> u8 option" where
  "segment_byte d ph p =
    (if p_type ph = 1 \<and> unat (p_vaddr ph) \<le> p \<and> p < unat (p_vaddr ph) + unat (p_memsz ph)
     then let k = p - unat (p_vaddr ph)
          in Some (if k < unat (p_filesz ph) then file_byte d (unat (p_offset ph) + k) else 0)
     else None)"

text \<open>Later headers overwrite earlier ones.\<close>

fun elf_image :: "u8 list \<Rightarrow> Elf32_Phdr list \<Rightarrow> (nat \<Rightarrow> u8) \<Rightarrow> nat \<Rightarrow> u8" where
  "elf_image d [] f = f"
| "elf_image d (ph # phs) f = elf_image d phs (\<lambda>p. case segment_byte d ph p of None \<Rightarrow> f p | Some b \<Rightarrow> b)"

definition fits :: "memory \<Rightarrow> Elf32_Phdr \<Rightarrow> bool" where
  "fits m ph \<longleftrightarrow> p_type ph = 1 \<longrightarrow> unat (p_vaddr ph) + unat (p_memsz ph) < mem_size m"

lemma file_bytes_eq: "file_bytes d p n = Inr bs \<Longrightarrow> bs = map (file_byte d) [p..<p + n]"
  by (simp add: file_bytes_def split: if_splits)

lemma ld_segment_result:
  assumes run: "ld_segment d ph m = Inr m'" and size: "mem_size m \<le> 2 ^ 32"
  shows "mem_size m' = mem_size m \<and> fits m ph
    \<and> mem_bytes m' = (\<lambda>p. case segment_byte d ph p of None \<Rightarrow> mem_bytes m p | Some b \<Rightarrow> b)"
proof (cases "p_type ph = 1")
  case False
  then show ?thesis using run by (simp add: ld_segment_def fits_def segment_byte_def)
next
  case load: True
  let ?a = "unat (p_vaddr ph)" and ?n = "unat (p_memsz ph)" and ?f = "unat (p_filesz ph)"
  have fit: "?a + ?n < mem_size m"
    using run load by (simp add: ld_segment_def Let_def VALID_ADDR_def split: if_splits)
  let ?m1 = "store_bytes m ?a (map (file_byte d) [unat (p_offset ph)..<unat (p_offset ph) + ?n])"
  have rest: "(if p_filesz ph < p_memsz ph
      then mem_wb_s ?m1 (p_vaddr ph + p_filesz ph) 0 (unat (p_memsz ph - p_filesz ph)) else Inr ?m1) = Inr m'"
    using run load fit
    by (auto simp: ld_segment_def Let_def VALID_ADDR_def result_simps mem_simps dest!: file_bytes_eq)
  show ?thesis
  proof (cases "p_filesz ph < p_memsz ph")
    case False
    then have "?n \<le> ?f" by (simp add: word_le_nat_alt not_less)
    then show ?thesis
      using rest False load fit
      by (auto simp: fits_def segment_byte_def store_bytes_def fun_eq_iff Let_def nth_append)
  next
    case True
    then have less: "?f < ?n" by (simp add: word_less_nat_alt)
    have addr: "unat (p_vaddr ph + p_filesz ph) = ?a + ?f"
      using less fit size by (simp add: unat_word_ariths)
    have len: "unat (p_memsz ph - p_filesz ph) = ?n - ?f"
      using True by (simp add: unat_sub less_imp_le)
    have "m' = store_bytes ?m1 (?a + ?f) (replicate (?n - ?f) 0)"
      using rest True by (simp add: mem_wb_s_def addr len split: if_splits)
    then show ?thesis
      using load fit less by (auto simp: fits_def segment_byte_def store_bytes_def fun_eq_iff Let_def)
  qed
qed

lemma seg_from_image:
  "seg_from elf n i m = Inr m' \<Longrightarrow> mem_size m \<le> 2 ^ 32 \<Longrightarrow>
   \<exists>phs. length phs = n \<and> (\<forall>j<n. phdr_at elf (i + j) = Inr (phs ! j)) \<and> (\<forall>ph\<in>set phs. fits m ph)
     \<and> mem_size m' = mem_size m \<and> mem_bytes m' = elf_image (data elf) phs (mem_bytes m)"
proof (induction n arbitrary: i m)
  case (Suc n)
  then obtain ph m1 where ph: "phdr_at elf i = Inr ph" "ld_segment (data elf) ph m = Inr m1"
    "seg_from elf n (i + 1) m1 = Inr m'"
    by (auto simp: result_simps)
  note one = ld_segment_result [OF ph(2) Suc.prems(2)]
  obtain phs where phs: "length phs = n" "\<forall>j<n. phdr_at elf (i + 1 + j) = Inr (phs ! j)"
    "\<forall>ph\<in>set phs. fits m1 ph" "mem_size m' = mem_size m1" "mem_bytes m' = elf_image (data elf) phs (mem_bytes m1)"
    using Suc.IH [OF ph(3)] one Suc.prems(2) by auto
  have "phdr_at elf (i + j) = Inr ((ph # phs) ! j)" if "j < Suc n" for j
    using that ph(1) phs(2) by (cases j) auto
  then show ?case
    using phs one by (intro exI [of _ "ph # phs"]) (auto simp: fits_def)
qed simp

section \<open>No access outside the memory\<close>

lemma file_errors [simp]:
  "out_of_file \<noteq> out_of_vmem" "file_bytes d p n \<noteq> Inl out_of_vmem" "Crash s \<noteq> out_of_vmem"
  "signed_overflow \<noteq> out_of_vmem"
  by (simp_all add: out_of_file_def out_of_vmem_def file_bytes_def signed_overflow_def)

lemma entry_errors [simp]:
  "phdr_at elf i \<noteq> Inl out_of_vmem" "shdr_at elf i \<noteq> Inl out_of_vmem" "sym_at elf i \<noteq> Inl out_of_vmem"
  by (auto simp: phdr_at_def shdr_at_def sym_at_def result_simps)

lemma name_errors [simp]: "same_name d s p \<noteq> Inl out_of_vmem"
  by (induction d s p rule: same_name.induct) (auto simp: result_simps split: if_splits)

lemma search_errors [simp]:
  "getsect_from elf s n i \<noteq> Inl out_of_vmem" "getsym_from elf s n i \<noteq> Inl out_of_vmem"
proof -
  show "getsect_from elf s n i \<noteq> Inl out_of_vmem"
    by (induction elf s n i rule: getsect_from.induct) (auto simp: result_simps split: if_splits)
  show "getsym_from elf s n i \<noteq> Inl out_of_vmem"
    by (induction elf s n i rule: getsym_from.induct) (auto simp: result_simps split: if_splits)
qed

lemma segment_in_memory:
  assumes "mem_size m \<le> 2 ^ 32"
  shows "ld_segment d ph m \<noteq> Inl out_of_vmem"
proof
  assume bad: "ld_segment d ph m = Inl out_of_vmem"
  let ?a = "unat (p_vaddr ph)" and ?n = "unat (p_memsz ph)"
  have fit: "?a + ?n < mem_size m"
    using bad by (simp add: ld_segment_def Let_def VALID_ADDR_def split: if_splits)
  have "p_filesz ph < p_memsz ph \<Longrightarrow> unat (p_vaddr ph + p_filesz ph) + unat (p_memsz ph - p_filesz ph) = ?a + ?n"
    using fit assms by (simp add: unat_word_ariths unat_sub less_imp_le word_less_nat_alt)
  then show False
    using bad fit
    by (auto simp: ld_segment_def Let_def VALID_ADDR_def result_simps mem_wb_ptr_s_def mem_wb_s_def in_mem_def
        mem_simps dest!: file_bytes_eq split: if_splits)
qed

lemma seg_from_in_memory: "mem_size m \<le> 2 ^ 32 \<Longrightarrow> seg_from elf n i m \<noteq> Inl out_of_vmem"
proof (induction n arbitrary: i m)
  case (Suc n)
  then show ?case
    using ld_segment_result segment_in_memory by (fastforce simp: result_simps)
qed simp

lemma table_errors [simp]:
  "ld_elf_validate h \<noteq> Inl out_of_vmem" "elf_open d \<noteq> Inl out_of_vmem" "ld_elf_section_names elf \<noteq> Inl out_of_vmem"
  "ld_elf_symbols elf \<noteq> Inl out_of_vmem" "load_gp elf init \<noteq> Inl out_of_vmem" "load_brk elf init \<noteq> Inl out_of_vmem"
  "ld_read_and_map_file f \<noteq> Inl out_of_vmem"
proof -
  show v: "ld_elf_validate h \<noteq> Inl out_of_vmem" for h by (simp add: ld_elf_validate_def)
  show "elf_open d \<noteq> Inl out_of_vmem" by (auto simp: elf_open_def Let_def result_simps v split: if_splits)
  have div0: "Undefined x \<noteq> out_of_vmem" if "x \<noteq> ''access outside vmem''" for x
    using that by (simp add: out_of_vmem_def)
  show "ld_elf_section_names elf \<noteq> Inl out_of_vmem" "ld_elf_symbols elf \<noteq> Inl out_of_vmem"
    "load_gp elf init \<noteq> Inl out_of_vmem" "load_brk elf init \<noteq> Inl out_of_vmem"
    "ld_read_and_map_file f \<noteq> Inl out_of_vmem"
    by (auto simp: ld_elf_section_names_def ld_elf_symbols_def ld_elf_getsect_def load_gp_def load_brk_def
        last_segment_end_def ld_elf_getsym_def ld_read_and_map_file_def result_simps Let_def div0
        split: if_splits option.splits exe_file.splits)
qed

text \<open>The tables keep the file, the header and the place of the program headers.\<close>

lemma elf_open_result:
  "elf_open d = Inr elf \<Longrightarrow> data elf = d \<and> header elf = ehdr_of (map (file_byte d) [0..<52])
     \<and> programs elf = unat (e_phoff (header elf)) \<and> ld_elf_validate (header elf) = Inr ()"
  by (auto simp: elf_open_def Let_def result_simps dest!: file_bytes_eq split: if_splits)

lemma case_option_Inr:
  "(case x of None \<Rightarrow> Inl e | Some y \<Rightarrow> g y) = Inr z \<longleftrightarrow> (\<exists>y. x = Some y \<and> g y = Inr z)"
  "(case x of None \<Rightarrow> r | Some y \<Rightarrow> g y) = Inr z \<longleftrightarrow> x = None \<and> r = Inr z \<or> (\<exists>y. x = Some y \<and> g y = Inr z)"
  by (cases x; simp)+

lemma tables_keep:
  "ld_elf_section_names elf = Inr elf' \<Longrightarrow> data elf' = data elf \<and> header elf' = header elf \<and> programs elf' = programs elf"
  "ld_elf_symbols elf = Inr elf' \<Longrightarrow> data elf' = data elf \<and> header elf' = header elf \<and> programs elf' = programs elf"
  by (auto simp: ld_elf_section_names_def ld_elf_symbols_def result_simps Let_def case_option_Inr(1) split: if_splits)

lemma init_keeps:
  "load_gp elf init = Inr init' \<Longrightarrow> init_pc init' = init_pc init \<and> init_sp init' = init_sp init"
  "load_brk elf init = Inr init' \<Longrightarrow> init_pc init' = init_pc init \<and> init_sp init' = init_sp init"
  by (auto simp: load_gp_def load_brk_def result_simps case_option_Inr(2))

text \<open>\<open>described d phs\<close>: the program headers that the header of the file points to.\<close>

definition described :: "u8 list \<Rightarrow> Elf32_Phdr list \<Rightarrow> bool" where
  "described d phs \<longleftrightarrow> (let h = ehdr_of (map (file_byte d) [0..<52])
     in ld_elf_validate h = Inr () \<and> length phs = unat (e_phnum h)
        \<and> (\<forall>j < length phs. let p = unat (e_phoff h) + 32 * j in phs ! j = phdr_of (map (file_byte d) [p..<p + 32])))"

lemma unmap_in_memory: "load_unmap_and_close_file d \<noteq> Inl out_of_vmem"
  by (simp add: load_unmap_and_close_file_def out_of_vmem_def)

lemma ld_elf_steps:
  assumes "ld_elf user f m init = Inr (m', init')"
  obtains d elf where "f = File d" "data elf = d" "header elf = ehdr_of (map (file_byte d) [0..<52])"
    "programs elf = unat (e_phoff (header elf))" "ld_elf_validate (header elf) = Inr ()"
    "ld_elf_seg elf m = Inr m'" "init_pc init' = e_entry (header elf)" "init_sp init' = init_sp init"
proof -
  from assms obtain d e0 e1 elf i1 where st: "ld_read_and_map_file f = Inr d" "elf_open d = Inr e0"
    "ld_elf_section_names e0 = Inr e1" "ld_elf_symbols e1 = Inr elf" "ld_elf_seg elf m = Inr m'"
    "load_gp elf (init\<lparr>init_pc := e_entry (header elf)\<rparr>) = Inr i1"
    "(if user then load_brk elf i1 else Inr i1) = Inr init'"
    by (auto simp: ld_elf_def result_simps)
  have "f = File d" using st(1) by (auto simp: ld_read_and_map_file_def split: exe_file.splits if_splits)
  moreover have "init_pc init' = e_entry (header elf) \<and> init_sp init' = init_sp init"
    using init_keeps(1) [OF st(6)] init_keeps(2) [of elf i1 init'] st(7) by (auto split: if_splits)
  ultimately show ?thesis
    using that elf_open_result [OF st(2)] tables_keep(1) [OF st(3)] tables_keep(2) [OF st(4)] st(5) by auto
qed

lemma elf_loads:
  assumes "ld_elf user f m init = Inr (m', init')" "mem_size m \<le> 2 ^ 32"
  shows "\<exists>d phs. f = File d \<and> described d phs \<and> (\<forall>ph\<in>set phs. fits m ph) \<and> mem_size m' = mem_size m
      \<and> mem_bytes m' = elf_image d phs (mem_bytes m)
      \<and> init_pc init' = word_at (map (file_byte d) [0..<52]) 24 \<and> init_sp init' = init_sp init"
proof (rule ld_elf_steps [OF assms(1)])
  fix d elf
  assume elf: "f = File d" "data elf = d" "header elf = ehdr_of (map (file_byte d) [0..<52])"
    "programs elf = unat (e_phoff (header elf))" "ld_elf_validate (header elf) = Inr ()"
    and seg: "ld_elf_seg elf m = Inr m'"
    and init: "init_pc init' = e_entry (header elf)" "init_sp init' = init_sp init"
  obtain phs where phs: "length phs = unat (e_phnum (header elf))"
    "\<forall>j<unat (e_phnum (header elf)). phdr_at elf j = Inr (phs ! j)" "\<forall>ph\<in>set phs. fits m ph"
    "mem_size m' = mem_size m" "mem_bytes m' = elf_image d phs (mem_bytes m)"
    using seg_from_image [OF seg [unfolded ld_elf_seg_def] assms(2)] elf(2) by auto
  have "described d phs"
    using phs(1,2) elf unfolding described_def Let_def
    by (auto simp: phdr_at_def result_simps dest!: file_bytes_eq)
  moreover have "e_entry (header elf) = word_at (map (file_byte d) [0..<52]) 24"
    using elf(3) by (simp add: ehdr_of_def)
  ultimately show ?thesis using elf(1) phs init by metis
qed

text \<open>
  C25: a file that is loaded has a valid header, and afterwards the memory holds the image its program
  headers describe (each loadable segment the bytes of the file and then zeros, the rest as before), all
  of it below the end of the memory, with the PC at the entry point. Whatever the file contains, the
  loader never writes outside the memory.
\<close>

theorem elf_image_loaded:
  assumes "mem_size m \<le> 2 ^ 32"
  shows "ld_elf user f m init \<noteq> Inl out_of_vmem
    \<and> (\<forall>m' init'. ld_elf user f m init = Inr (m', init') \<longrightarrow>
         (\<exists>d phs. f = File d \<and> described d phs \<and> (\<forall>ph\<in>set phs. fits m ph) \<and> mem_size m' = mem_size m
            \<and> mem_bytes m' = elf_image d phs (mem_bytes m)
            \<and> init_pc init' = word_at (map (file_byte d) [0..<52]) 24 \<and> init_sp init' = init_sp init))"
proof (intro conjI allI impI)
  show "ld_elf user f m init \<noteq> Inl out_of_vmem"
    using seg_from_in_memory [OF assms]
    by (auto simp: ld_elf_def ld_elf_seg_def unmap_in_memory result_simps split: if_splits)
qed (rule elf_loads [OF _ assms])

text \<open>
  A file with one segment of four bytes, two of them from the file, loaded at 16. Its header says that it
  is big-endian: the loader tests EI_CLASS twice and EI_DATA never.
\<close>

definition tiny_elf :: "u8 list" where
  "tiny_elf =
    [0x7F, 0x45, 0x4C, 0x46, 0x01, 0x02, 0x01, 0, 0, 0, 0, 0, 0, 0, 0, 0, 0x02, 0, 0xF3, 0,
     0x01, 0, 0, 0, 0x10, 0, 0, 0, 0x34, 0, 0, 0, 0x54, 0, 0, 0, 0, 0, 0, 0,
     0x34, 0, 0x20, 0, 0x01, 0, 0x28, 0, 0x03, 0, 0x01, 0, 0x01, 0, 0, 0, 0xDC, 0, 0, 0,
     0x10, 0, 0, 0, 0, 0, 0, 0, 0x02, 0, 0, 0, 0x04, 0, 0, 0, 0, 0, 0, 0,
     0, 0, 0, 0, 0, 0, 0, 0, 0, 0, 0, 0, 0, 0, 0, 0, 0, 0, 0, 0,
     0xCC, 0, 0, 0, 0, 0, 0, 0, 0, 0, 0, 0, 0, 0, 0, 0, 0, 0, 0, 0,
     0x10, 0, 0, 0, 0x07, 0, 0, 0, 0, 0, 0, 0, 0, 0, 0, 0, 0, 0, 0, 0,
     0xCC, 0, 0, 0, 0x10, 0, 0, 0, 0, 0, 0, 0, 0, 0, 0, 0, 0, 0, 0, 0,
     0, 0, 0, 0, 0x08, 0, 0, 0, 0, 0, 0, 0, 0, 0, 0, 0, 0, 0, 0, 0,
     0xCC, 0, 0, 0, 0x10, 0, 0, 0, 0, 0, 0, 0, 0, 0, 0, 0, 0, 0, 0, 0,
     0, 0, 0, 0, 0x2E, 0x73, 0x79, 0x6D, 0x74, 0x61, 0x62, 0, 0x2E, 0x73, 0x74, 0x72, 0x74, 0x61, 0x62, 0,
     0xAA, 0xBB, 0xCC, 0xDD]"

definition tiny_ram :: memory where
  "tiny_ram = \<lparr>mem_bytes = (\<lambda>_. 0xFF), mem_size = 64\<rparr>"

definition tiny_init :: VCore_Init where
  "tiny_init = \<lparr>init_pc = 0, init_sp = 60, init_id = 0, init_opaque = 0, init_gp = 0, init_elf_brk = 0\<rparr>"

lemma tiny_bytes: "p + n \<le> 224 \<Longrightarrow> file_bytes tiny_elf p n = Inr (take n (drop p tiny_elf))"
proof -
  assume p: "p + n \<le> 224"
  have len: "length tiny_elf = 224" by (simp add: tiny_elf_def)
  then have "mapped tiny_elf = 4096" by (simp add: mapped_def PAGE_SIZE_def)
  moreover have "map (file_byte tiny_elf) [p..<p + n] = take n (drop p tiny_elf)"
    using p len by (intro nth_equalityI) (simp_all add: file_byte_def)
  ultimately show ?thesis using p by (simp add: file_bytes_def)
qed


lemma tiny_tables:
  "ehdr_of (take 52 tiny_elf) = \<lparr>e_ident = take 16 tiny_elf, e_type = 2, e_machine = 243, e_entry = 16,
     e_phoff = 52, e_shoff = 84, e_phentsize = 32, e_phnum = 1, e_shentsize = 40, e_shnum = 3, e_shstrndx = 1\<rparr>"
  "phdr_of (take 32 (drop 52 tiny_elf)) = \<lparr>p_type = 1, p_offset = 220, p_vaddr = 16, p_filesz = 2, p_memsz = 4\<rparr>"
  "shdr_of (take 40 (drop 84 tiny_elf)) = \<lparr>sh_name = 0, sh_offset = 204, sh_size = 0, sh_link = 0, sh_entsize = 16\<rparr>"
  "shdr_of (take 40 (drop 124 tiny_elf)) = \<lparr>sh_name = 7, sh_offset = 204, sh_size = 16, sh_link = 0, sh_entsize = 0\<rparr>"
  "shdr_of (take 40 (drop 164 tiny_elf)) = \<lparr>sh_name = 8, sh_offset = 204, sh_size = 16, sh_link = 0, sh_entsize = 0\<rparr>"
  "take 4 (drop 220 tiny_elf) = [0xAA, 0xBB, 0xCC, 0xDD]"
  by (simp_all add: ehdr_of_def phdr_of_def shdr_of_def half_at_def word_at_def tiny_elf_def)

lemma tiny_valid: "ld_elf_validate (ehdr_of (take 52 tiny_elf)) = Inr ()"
  unfolding tiny_tables by (simp add: ld_elf_validate_def tiny_elf_def)

lemma tiny_names:
  "same_name tiny_elf (bytes_of ''.symtab'') 204 = Inr True"
  "same_name tiny_elf (bytes_of ''.strtab'') 204 = Inr False"
  "same_name tiny_elf (bytes_of ''.strtab'') 211 = Inr False"
  "same_name tiny_elf (bytes_of ''.strtab'') 212 = Inr True"
  by (simp_all add: bytes_of_def tiny_bytes) (simp_all add: tiny_elf_def)

definition tiny_open :: Elf_File where
  "tiny_open = \<lparr>data = tiny_elf, prog_size = 32, sect_size = 120, symb_size = 0, programs = 52, sections = 84,
     header = ehdr_of (take 52 tiny_elf), symbols = 0, symbols_names = 0, sections_names = 0\<rparr>"

lemma getsect_numeral:
  "getsect_from elf name (numeral k) i =
     and_then (shdr_at elf i) (\<lambda>sect.
     and_then (same_name (data elf) name (sections_names elf + unat (sh_name sect))) (\<lambda>same.
       if same then Inr (Some sect) else getsect_from elf name (pred_numeral k) (i + 1)))"
  by (simp add: numeral_eq_Suc)

lemma tiny_opens:
  "elf_open tiny_elf = Inr tiny_open"
  "ld_elf_section_names tiny_open = Inr (tiny_open\<lparr>sections_names := 204\<rparr>)"
  "ld_elf_symbols (tiny_open\<lparr>sections_names := 204\<rparr>)
     = Inr (tiny_open\<lparr>sections_names := 204, symb_size := 0, symbols := 204, symbols_names := 204\<rparr>)"
proof -
  have "elf_open tiny_elf = and_then (ld_elf_validate (ehdr_of (take 52 tiny_elf))) (\<lambda>_. Inr tiny_open)"
    by (simp add: elf_open_def tiny_bytes tiny_open_def tiny_tables Let_def)
  then show "elf_open tiny_elf = Inr tiny_open" by (simp add: tiny_valid)
  show "ld_elf_section_names tiny_open = Inr (tiny_open\<lparr>sections_names := 204\<rparr>)"
    by (simp add: ld_elf_section_names_def tiny_open_def tiny_tables shdr_at_def tiny_bytes)
  show "ld_elf_symbols (tiny_open\<lparr>sections_names := 204\<rparr>)
     = Inr (tiny_open\<lparr>sections_names := 204, symb_size := 0, symbols := 204, symbols_names := 204\<rparr>)"
    by (simp add: ld_elf_symbols_def ld_elf_getsect_def tiny_open_def tiny_tables getsect_numeral shdr_at_def
        tiny_bytes tiny_names)
qed

lemma tiny_break:
  "last_segment_end (tiny_open\<lparr>sections_names := 204, symb_size := 0, symbols := 204, symbols_names := 204\<rparr>) = Inr 0"
proof -
  have len: "length tiny_elf = 224" by (simp add: tiny_elf_def)
  have "mapped tiny_elf = 4096" using len by (simp add: mapped_def PAGE_SIZE_def)
  moreover have "\<And>p. 224 \<le> p \<Longrightarrow> file_byte tiny_elf p = 0" using len by (simp add: file_byte_def)
  ultimately have "file_bytes tiny_elf 1044 32 = Inr (replicate 32 0)"
    by (simp add: file_bytes_def) (simp add: numeral_eq_Suc)
  moreover have "p_vaddr (phdr_of (replicate 32 0)) + p_memsz (phdr_of (replicate 32 0)) = 0"
    by (simp add: phdr_of_def word_at_def numeral_eq_Suc)
  ultimately show ?thesis by (simp add: last_segment_end_def Let_def tiny_open_def)
qed

lemma tiny_loads:
  assumes "20 < mem_size m"
  shows "\<exists>m'. ld_elf user (File tiny_elf) m init =
    Inr (m', if user then init\<lparr>init_pc := 16, init_elf_brk := 0\<rparr> else init\<lparr>init_pc := 16\<rparr>)"
proof -
  let ?elf = "tiny_open\<lparr>sections_names := 204, symb_size := 0, symbols := 204, symbols_names := 204\<rparr>"
  have "ld_elf_getsym ?elf n = Inr None" for n by (simp add: ld_elf_getsym_def tiny_open_def)
  then have "load_gp ?elf i = Inr i" "load_brk ?elf i = Inr (i\<lparr>init_elf_brk := 0\<rparr>)" for i
    by (simp_all add: load_gp_def load_brk_def tiny_break)
  moreover obtain m' where "ld_elf_seg ?elf m = Inr m'"
    using assms by (simp add: ld_elf_seg_def tiny_open_def tiny_tables phdr_at_def tiny_bytes ld_segment_def Let_def
        VALID_ADDR_def mem_wb_ptr_s_def mem_wb_s_def in_mem_def store_bytes_size)
  moreover have "header ?elf = ehdr_of (take 52 tiny_elf)" by (simp add: tiny_open_def)
  moreover have "tiny_elf \<noteq> []" by (simp add: tiny_elf_def)
  ultimately show ?thesis
    by (simp add: ld_elf_def ld_read_and_map_file_def load_unmap_and_close_file_def tiny_opens tiny_tables)
qed

lemma elf_image_loaded_witness:
  "\<exists>m' init' phs. ld_elf False (File tiny_elf) tiny_ram tiny_init = Inr (m', init') \<and> described tiny_elf phs
     \<and> mem_bytes m' = elf_image tiny_elf phs (mem_bytes tiny_ram) \<and> init_pc init' = 16"
proof -
  obtain m' where run: "ld_elf False (File tiny_elf) tiny_ram tiny_init = Inr (m', tiny_init\<lparr>init_pc := 16\<rparr>)"
    using tiny_loads [of tiny_ram False tiny_init] by (auto simp: tiny_ram_def)
  moreover have "mem_size tiny_ram \<le> 2 ^ 32" by (simp add: tiny_ram_def)
  ultimately show ?thesis
    using elf_image_loaded [of tiny_ram False "File tiny_elf" tiny_init] by auto
qed

end
