(* ===== verification/Args.thy ===== *)
theory Args
  imports Emu
begin

text \<open>
  The command line (src/src/args.c, src/src/args.h, src/src/defs.h): the context \<open>ctx\<close>, its initial
  value in main.c, and \<open>ctx_init\<close> on the sequence of options that \<open>getopt\<close> returns.
\<close>

datatype build_kind = USER_BUILD | SUPERVISOR_BUILD

definition MAX_UPSCALE :: int where "MAX_UPSCALE = 8"
definition MAX_MEM_SIZE_MB :: int where "MAX_MEM_SIZE_MB = 4096"
definition MAX_NPROCS :: int where "MAX_NPROCS = 4"
definition PATH_MAX :: nat where "PATH_MAX = 4096"
definition DEF_MEM_SIZE :: nat where "DEF_MEM_SIZE = 1073741824"
definition DEF_STACK_BASE :: u32 where "DEF_STACK_BASE = of_nat (DEF_MEM_SIZE - PAGE_SIZE)"
definition DEF_BRK_LIMIT :: u32 where "DEF_BRK_LIMIT = of_nat (DEF_MEM_SIZE div 16)"

text \<open>
  C strings are byte lists without their terminator; \<open>None\<close> is NULL. \<open>elf_name\<close> is the whole array of
  PATH_MAX bytes, which is zero at first.
\<close>

record Args_Context =
  elf_name :: "u8 list"
  elf_stdin :: "u8 list option"
  elf_stdout :: "u8 list option"
  elf_stderr :: "u8 list option"
  elf_args :: "u8 list option"
  sdl_upscale :: u32
  arg_cores :: u32
  arg_debug :: bool
  arg_binary :: bool
  mem_bytes_size :: nat
  stack_base :: u32
  brk_limit :: u32

definition ctx_start :: Args_Context where
  "ctx_start = \<lparr>elf_name = replicate PATH_MAX 0, elf_stdin = None, elf_stdout = None, elf_stderr = None,
     elf_args = None, sdl_upscale = 1, arg_cores = 1, arg_debug = False, arg_binary = False, mem_bytes_size = DEF_MEM_SIZE,
     stack_base = DEF_STACK_BASE, brk_limit = DEF_BRK_LIMIT\<rparr>"

section \<open>Options\<close>

text \<open>
  The options of \<open>u:i:o:e:f:c:m:b:dh\<close> with their arguments; \<open>b\<close> has one in that string. \<open>Other\<close> is
  \<open>'?'\<close>, an option that getopt does not know or that lacks its argument.
\<close>

datatype opt =
    Opt_u "u8 list" | Opt_i "u8 list" | Opt_o "u8 list" | Opt_e "u8 list" | Opt_f "u8 list"
  | Opt_c "u8 list" | Opt_m "u8 list" | Opt_b "u8 list" | Opt_d | Opt_h | Other

text \<open>\<open>atoi\<close>: blanks, a sign, decimal digits. A value that does not fit an \<open>int\<close> is undefined.\<close>

definition is_blank :: "u8 \<Rightarrow> bool" where
  "is_blank c \<longleftrightarrow> c = 0x20 \<or> (0x09 \<le> c \<and> c \<le> 0x0D)"

definition is_digit :: "u8 \<Rightarrow> bool" where
  "is_digit c \<longleftrightarrow> 0x30 \<le> c \<and> c \<le> 0x39"

definition dec_value :: "u8 list \<Rightarrow> int" where
  "dec_value ds = foldl (\<lambda>v d. 10 * v + (uint d - 0x30)) 0 ds"

definition atoi :: "u8 list \<Rightarrow> int result" where
  "atoi s =
    (let t = dropWhile is_blank s;
         neg = (case t of c # _ \<Rightarrow> c = 0x2D | [] \<Rightarrow> False);
         t = (case t of c # r \<Rightarrow> if c = 0x2D \<or> c = 0x2B then r else t | [] \<Rightarrow> t);
         v = dec_value (takeWhile is_digit t);
         v = (if neg then - v else v)
     in if in_i32 v then Inr v else Inl (Undefined ''atoi out of range''))"

definition set_upscale :: "u8 list \<Rightarrow> Args_Context \<Rightarrow> Args_Context result" where
  "set_upscale a c = and_then (atoi a) (\<lambda>v.
     let upscale = (word_of_int v :: u32)
     in Inr (if upscale = 0 \<or> uint upscale > MAX_UPSCALE then c else c\<lparr>sdl_upscale := upscale\<rparr>))"

text \<open>
  The loop that copies the name, from index \<open>i\<close>, which is shared by all \<open>-f\<close> options: a second one
  goes on where the first has stopped. An index past the terminator of the string is undefined.
\<close>

function copy_name :: "u8 list \<Rightarrow> nat \<Rightarrow> u8 list \<Rightarrow> (nat \<times> u8 list) result" where
  "copy_name a i name =
    (if i > length a then Inl (Undefined ''read past elf_args'')
     else if i < length a \<and> a ! i \<noteq> 0x20 \<and> i < PATH_MAX then copy_name a (Suc i) (name[i := a ! i])
     else Inr (i, name))"
  by pat_completeness auto
termination by (relation "measure (\<lambda>(a, i, name). Suc (length a) - i)") auto

declare copy_name.simps [simp del]

definition set_file :: "u8 list \<Rightarrow> nat \<times> Args_Context \<Rightarrow> (nat \<times> Args_Context) result" where
  "set_file a = (\<lambda>(i, c).
    and_then (copy_name a i (elf_name c)) (\<lambda>(i, name).
      if i = PATH_MAX then Inl (Crash ''File path name is too big.'')
      else Inr (i, c\<lparr>elf_args := Some a, elf_name := name[i := 0]\<rparr>)))"

definition set_cores :: "build_kind \<Rightarrow> u8 list \<Rightarrow> Args_Context \<Rightarrow> Args_Context result" where
  "set_cores bd a c =
    (if bd = USER_BUILD then Inr c
     else and_then (atoi a) (\<lambda>v.
       let n = (word_of_int v :: u32)
       in if n = 0 \<or> uint n > MAX_NPROCS then Inl (Crash ''Invalid number of cores.'')
          else Inr (c\<lparr>arg_cores := n\<rparr>)))"

definition set_memory :: "u8 list \<Rightarrow> Args_Context \<Rightarrow> Args_Context result" where
  "set_memory a c = and_then (atoi a) (\<lambda>v.
     let mem_tmp = (word_of_int v :: u64)
     in if mem_tmp = 0 \<or> uint mem_tmp > MAX_MEM_SIZE_MB then Inl (Crash ''Invalid memory size.'')
        else let bytes = mem_tmp * 1024 * 1024
             in Inr (c\<lparr>mem_bytes_size := unat bytes, stack_base := ucast (bytes - of_nat PAGE_SIZE),
                  brk_limit := ucast (drop_bit 4 bytes)\<rparr>))"

text \<open>One turn of the loop on the index and the context. \<open>-h\<close> prints the usage and exits.\<close>

definition ctx_option :: "build_kind \<Rightarrow> opt \<Rightarrow> nat \<times> Args_Context \<Rightarrow> (nat \<times> Args_Context) result" where
  "ctx_option bd opt = (\<lambda>(i, c).
    let same = (\<lambda>r. and_then r (\<lambda>c. Inr (i, c)))
    in case opt of
         Opt_u a \<Rightarrow> same (set_upscale a c)
       | Opt_i a \<Rightarrow> Inr (i, c\<lparr>elf_stdin := Some a\<rparr>)
       | Opt_o a \<Rightarrow> Inr (i, c\<lparr>elf_stdout := Some a\<rparr>)
       | Opt_e a \<Rightarrow> Inr (i, c\<lparr>elf_stderr := Some a\<rparr>)
       | Opt_f a \<Rightarrow> set_file a (i, c)
       | Opt_c a \<Rightarrow> same (set_cores bd a c)
       | Opt_m a \<Rightarrow> same (set_memory a c)
       | Opt_d \<Rightarrow> Inr (i, c\<lparr>arg_debug := True\<rparr>)
       | Opt_b a \<Rightarrow> Inr (i, if bd = SUPERVISOR_BUILD then c\<lparr>arg_binary := True\<rparr> else c)
       | Opt_h \<Rightarrow> Inl (Exit 0)
       | Other \<Rightarrow> Inl (Exit 1))"

fun ctx_options :: "build_kind \<Rightarrow> opt list \<Rightarrow> nat \<times> Args_Context \<Rightarrow> (nat \<times> Args_Context) result" where
  "ctx_options bd [] s = Inr s"
| "ctx_options bd (opt # opts) s = and_then (ctx_option bd opt s) (ctx_options bd opts)"

definition ctx_init :: "build_kind \<Rightarrow> opt list \<Rightarrow> Args_Context result" where
  "ctx_init bd opts =
    and_then (ctx_options bd opts (0, ctx_start)) (\<lambda>(_, c).
      if elf_args c = None then Inl (Crash ''-f option is mandatory'') else Inr c)"

end
