(* ===== verification/Args_Props.thy ===== *)
theory Args_Props
  imports Args
begin

text \<open>What \<open>ctx_init\<close> guarantees of the context that the rest of the program relies on.\<close>

section \<open>The name of the file\<close>

definition name_of :: "u8 list \<Rightarrow> u8 list" where
  "name_of s = takeWhile (\<lambda>x. x \<noteq> 0) s"

text \<open>What the copy loop has done when it stops at \<open>j\<close>.\<close>

definition copied :: "u8 list \<Rightarrow> nat \<Rightarrow> u8 list \<Rightarrow> nat \<Rightarrow> u8 list \<Rightarrow> bool" where
  "copied a i name j name' \<longleftrightarrow> length name' = length name \<and> i \<le> j \<and> j \<le> length a
     \<and> (i \<le> PATH_MAX \<longrightarrow> j \<le> PATH_MAX) \<and> (\<forall>k<i. name' ! k = name ! k)
     \<and> (\<forall>k. i \<le> k \<and> k < j \<longrightarrow> a ! k \<noteq> blank \<and> (k < length name \<longrightarrow> name' ! k = a ! k))
     \<and> (j < PATH_MAX \<longrightarrow> j = length a \<or> a ! j = blank)"

lemma copy_name_copied: "copy_name a i name = Inr (j, name') \<Longrightarrow> copied a i name j name'"
proof (induction a i name rule: copy_name.induct)
  case (1 a i name)
  show ?case
  proof (cases "i < length a \<and> a ! i \<noteq> 0x20 \<and> i < PATH_MAX")
    case True
    then have run: "copy_name a (Suc i) (name[i := a ! i]) = Inr (j, name')"
      using 1(2) by (simp add: copy_name.simps [of a i])
    have IH: "copied a (Suc i) (name[i := a ! i]) j name'"
      using 1(1) [OF _ True run] True by simp
    have step: "a ! k \<noteq> blank \<and> (k < length name \<longrightarrow> name' ! k = a ! k)" if k: "i \<le> k" "k < j" for k
    proof (cases "k = i")
      case k_i: True
      then have "name' ! k = name[i := a ! i] ! k" using IH unfolding copied_def by simp
      then show ?thesis using k_i True by simp
    next
      case False
      then show ?thesis using IH k unfolding copied_def by simp
    qed
    have before: "name' ! k = name ! k" if "k < i" for k
      using IH that unfolding copied_def by simp
    show ?thesis
      using IH True step before unfolding copied_def by simp
  next
    case False
    then show ?thesis using 1(2) by (auto simp: copied_def copy_name.simps [of a i] split: if_splits)
  qed
qed

lemma copied_name:
  assumes "copied a 0 name j name'" "length name = PATH_MAX" "j < PATH_MAX" "0 \<notin> set a"
  shows "name_of (name'[j := 0]) = takeWhile (\<lambda>x. x \<noteq> blank) a"
proof -
  have j: "j \<le> length a" "j < length name'" "j = length a \<or> a ! j = blank"
    and same: "\<forall>k<j. name' ! k = a ! k \<and> a ! k \<noteq> blank"
    using assms unfolding copied_def by auto
  have pre: "take j (name'[j := 0]) = take j a"
    using j same by (intro nth_equalityI) auto
  have "takeWhile (\<lambda>x. x \<noteq> blank) a = take j a"
  proof (rule takeWhile_eq_take_P_nth)
    show "\<And>k. k < j \<Longrightarrow> k < length a \<Longrightarrow> a ! k \<noteq> blank" using same by simp
    show "j < length a \<Longrightarrow> \<not> a ! j \<noteq> blank" using j(3) by simp
  qed
  moreover have "name_of (name'[j := 0]) = take j (name'[j := 0])"
    unfolding name_of_def
  proof (rule takeWhile_eq_take_P_nth)
    fix k assume k: "k < j" "k < length (name'[j := 0])"
    then have "name'[j := 0] ! k = a ! k" using same by simp
    moreover have "a ! k \<in> set a" using k(1) j(1) by simp
    ultimately show "name'[j := 0] ! k \<noteq> 0" using assms(4) by metis
  qed (use j(2) in simp)
  ultimately show ?thesis using pre by simp
qed

section \<open>The limits\<close>

definition ctx_ok :: "build_kind \<Rightarrow> Args_Context \<Rightarrow> bool" where
  "ctx_ok bd c \<longleftrightarrow> length (elf_name c) = PATH_MAX \<and> 1 \<le> uint (sdl_upscale c) \<and> uint (sdl_upscale c) \<le> MAX_UPSCALE
     \<and> 1 \<le> uint (arg_cores c) \<and> uint (arg_cores c) \<le> MAX_NPROCS
     \<and> (bd = USER_BUILD \<longrightarrow> arg_cores c = 1 \<and> \<not> arg_binary c)
     \<and> (\<exists>mb. 1 \<le> mb \<and> mb \<le> 4096 \<and> mem_bytes_size c = mb * 1048576)
     \<and> unat (stack_base c) + PAGE_SIZE = mem_bytes_size c
     \<and> unat (brk_limit c) = mem_bytes_size c div 16"

lemma ctx_start_ok: "ctx_ok bd ctx_start"
proof -
  have "mem_bytes_size ctx_start = 1024 * 1048576" by (simp add: ctx_start_def DEF_MEM_SIZE_def)
  then have "\<exists>mb. 1 \<le> mb \<and> mb \<le> 4096 \<and> mem_bytes_size ctx_start = mb * 1048576"
    by (intro exI [of _ 1024]) simp
  then show ?thesis
    by (simp add: ctx_ok_def ctx_start_def MAX_UPSCALE_def MAX_NPROCS_def DEF_STACK_BASE_def DEF_MEM_SIZE_def
        DEF_BRK_LIMIT_def PAGE_SIZE_def)
qed

lemma pos_word: "(n :: 'a::len word) \<noteq> 0 \<Longrightarrow> 1 \<le> uint n"
proof -
  assume "n \<noteq> 0"
  then have "uint n \<noteq> 0" using word_uint_eq_iff [of n 0] by simp
  moreover have "0 \<le> uint n" by simp
  ultimately show "1 \<le> uint n" by linarith
qed

lemma set_upscale_ok: "ctx_ok bd c \<Longrightarrow> set_upscale a c = Inr c' \<Longrightarrow> ctx_ok bd c'"
  by (auto simp: set_upscale_def Let_def result_simps ctx_ok_def not_less intro: pos_word split: if_splits)

lemma set_cores_ok: "ctx_ok bd c \<Longrightarrow> set_cores bd a c = Inr c' \<Longrightarrow> ctx_ok bd c'"
  by (auto simp: set_cores_def Let_def result_simps ctx_ok_def not_less intro: pos_word split: if_splits)

lemma memory_values:
  assumes "(w :: u64) \<noteq> 0" "uint w \<le> 4096"
  shows "\<exists>mb. 1 \<le> mb \<and> mb \<le> 4096 \<and> unat (w * 1024 * 1024) = mb * 1048576"
    and "unat (ucast (w * 1024 * 1024 - of_nat PAGE_SIZE) :: u32) + PAGE_SIZE = unat (w * 1024 * 1024)"
    and "unat (ucast (drop_bit 4 (w * 1024 * 1024)) :: u32) = unat (w * 1024 * 1024) div 16"
proof -
  have mb: "1 \<le> unat w" "unat w \<le> 4096"
  proof -
    show "1 \<le> unat w" using assms(1) by (simp add: Suc_le_eq unat_gt_0)
    have "int (unat w) = uint w" by simp
    then show "unat w \<le> 4096" using assms(2) by linarith
  qed
  have bytes: "unat (w * 1024 * 1024) = unat w * 1048576"
    using mb by (simp add: unat_word_ariths)
  show "\<exists>mb. 1 \<le> mb \<and> mb \<le> 4096 \<and> unat (w * 1024 * 1024) = mb * 1048576" using mb bytes by blast
  have "unat (w * 1024 * 1024 - of_nat PAGE_SIZE) = unat w * 1048576 - 4096"
    using mb bytes by (subst unat_sub) (simp_all add: PAGE_SIZE_def word_le_nat_alt)
  then show "unat (ucast (w * 1024 * 1024 - of_nat PAGE_SIZE) :: u32) + PAGE_SIZE = unat (w * 1024 * 1024)"
    using mb bytes by (simp add: unsigned_ucast_eq unsigned_take_bit_eq take_bit_nat_eq_self PAGE_SIZE_def)
  have "unat (drop_bit 4 (w * 1024 * 1024)) = unat w * 1048576 div 16"
    using bytes by (simp add: drop_bit_eq_div unat_div)
  then show "unat (ucast (drop_bit 4 (w * 1024 * 1024)) :: u32) = unat (w * 1024 * 1024) div 16"
    using mb bytes by (simp add: unsigned_ucast_eq unsigned_take_bit_eq take_bit_nat_eq_self)
qed

lemma set_memory_ok: "ctx_ok bd c \<Longrightarrow> set_memory a c = Inr c' \<Longrightarrow> ctx_ok bd c'"
proof -
  assume ok: "ctx_ok bd c" and run: "set_memory a c = Inr c'"
  then obtain v where v: "atoi a = Inr v" by (auto simp: set_memory_def result_simps)
  let ?w = "word_of_int v :: u64"
  have w: "?w \<noteq> 0" "uint ?w \<le> 4096"
    using run v by (auto simp: set_memory_def Let_def MAX_MEM_SIZE_MB_def split: if_splits)
  have c': "c' = c\<lparr>mem_bytes_size := unat (?w * 1024 * 1024), stack_base := ucast (?w * 1024 * 1024 - of_nat PAGE_SIZE),
      brk_limit := ucast (drop_bit 4 (?w * 1024 * 1024))\<rparr>"
    using run v w by (simp only: set_memory_def and_then.simps Let_def MAX_MEM_SIZE_MB_def) (simp split: if_splits)
  show "ctx_ok bd c'"
    using ok memory_values [OF w] unfolding ctx_ok_def c' by simp
qed

lemma set_file_result:
  assumes "set_file a (i, c) = Inr (j, c')"
  obtains name where "copied a i (elf_name c) j name" "j \<noteq> PATH_MAX"
    "c' = c\<lparr>elf_args := Some a, elf_name := name[j := 0]\<rparr>"
proof -
  from assms obtain k name where run: "copy_name a i (elf_name c) = Inr (k, name)"
    and rest: "(if k = PATH_MAX then Inl (Crash ''File path name is too big.'')
      else Inr (k, c\<lparr>elf_args := Some a, elf_name := name[k := 0]\<rparr>)) = Inr (j, c')"
    by (auto simp: set_file_def and_then_eq_Inr)
  then have "k = j" "j \<noteq> PATH_MAX" "c' = c\<lparr>elf_args := Some a, elf_name := name[j := 0]\<rparr>"
    by (auto split: if_splits)
  then show ?thesis using that copy_name_copied [OF run] by blast
qed

lemma set_file_ok:
  assumes "set_file a (i, c) = Inr (j, c')" "ctx_ok bd c"
  shows "ctx_ok bd c'"
proof (rule set_file_result [OF assms(1)])
  fix name assume "copied a i (elf_name c) j name" "c' = c\<lparr>elf_args := Some a, elf_name := name[j := 0]\<rparr>"
  then show ?thesis using assms(2) by (simp add: ctx_ok_def copied_def)
qed

lemma same_index: "and_then r (\<lambda>c. Inr (i, c)) = Inr (j, c') \<Longrightarrow> r = Inr c' \<and> j = i"
  by (cases r) auto

lemma ctx_ok_updates [simp]:
  "ctx_ok bd (c\<lparr>elf_stdin := s\<rparr>) = ctx_ok bd c" "ctx_ok bd (c\<lparr>elf_stdout := s\<rparr>) = ctx_ok bd c"
  "ctx_ok bd (c\<lparr>elf_stderr := s\<rparr>) = ctx_ok bd c" "ctx_ok bd (c\<lparr>arg_debug := d\<rparr>) = ctx_ok bd c"
  "ctx_ok SUPERVISOR_BUILD (c\<lparr>arg_binary := d\<rparr>) = ctx_ok SUPERVISOR_BUILD c"
  by (simp_all add: ctx_ok_def)

lemma option_ok:
  assumes run: "ctx_option bd opt (i, c) = Inr (j, c')" and ok: "ctx_ok bd c"
  shows "ctx_ok bd c'"
proof (cases opt)
  case (Opt_f a)
  then show ?thesis using run ok by (simp add: ctx_option_def Let_def) (rule set_file_ok)
next
  case (Opt_u a)
  then show ?thesis
    using run ok by (auto simp: ctx_option_def Let_def dest!: same_index intro: set_upscale_ok)
next
  case (Opt_c a)
  then show ?thesis
    using run ok by (auto simp: ctx_option_def Let_def dest!: same_index intro: set_cores_ok)
next
  case (Opt_m a)
  then show ?thesis
    using run ok by (auto simp: ctx_option_def Let_def dest!: same_index intro: set_memory_ok)
next
  case (Opt_b a)
  then show ?thesis using run ok by (cases bd) (auto simp: ctx_option_def Let_def)
qed (use run ok in \<open>auto simp: ctx_option_def Let_def\<close>)

lemma options_ok: "ctx_options bd opts (i, c) = Inr (j, c') \<Longrightarrow> ctx_ok bd c \<Longrightarrow> ctx_ok bd c'"
  by (induction opts arbitrary: i c) (auto simp: result_simps dest: option_ok)

definition is_f :: "opt \<Rightarrow> bool" where
  "is_f opt \<longleftrightarrow> (case opt of Opt_f _ \<Rightarrow> True | _ \<Rightarrow> False)"

lemma other_option:
  assumes "ctx_option bd opt (i, c) = Inr (j, c')" "\<not> is_f opt"
  shows "j = i" "elf_name c' = elf_name c" "elf_args c' = elf_args c"
proof -
  have "j = i \<and> elf_name c' = elf_name c \<and> elf_args c' = elf_args c"
  proof (cases opt)
    case (Opt_u a)
    then show ?thesis
      using assms(1) by (auto simp: ctx_option_def Let_def set_upscale_def result_simps dest!: same_index split: if_splits)
  next
    case (Opt_c a)
    then show ?thesis
      using assms(1) by (auto simp: ctx_option_def Let_def set_cores_def result_simps dest!: same_index split: if_splits)
  next
    case (Opt_m a)
    then show ?thesis
      using assms(1) by (auto simp: ctx_option_def Let_def set_memory_def result_simps dest!: same_index split: if_splits)
  qed (use assms in \<open>auto simp: ctx_option_def is_f_def split: if_splits\<close>)
  then show "j = i" "elf_name c' = elf_name c" "elf_args c' = elf_args c" by simp_all
qed

lemma no_file:
  "ctx_options bd opts (i, c) = Inr (j, c') \<Longrightarrow> filter is_f opts = [] \<Longrightarrow>
     elf_name c' = elf_name c \<and> elf_args c' = elf_args c"
proof (induction opts arbitrary: i c)
  case (Cons opt opts)
  then obtain k c1 where one: "ctx_option bd opt (i, c) = Inr (k, c1)" "ctx_options bd opts (k, c1) = Inr (j, c')"
    by (auto simp: result_simps)
  moreover have "\<not> is_f opt" "filter is_f opts = []" using Cons.prems(2) by (auto split: if_splits)
  ultimately show ?case using Cons.IH [OF one(2)] other_option [OF one(1)] by simp
qed simp

lemma one_file:
  "ctx_options bd opts (0, c) = Inr (j, c') \<Longrightarrow> filter is_f opts = [Opt_f a] \<Longrightarrow> 0 \<notin> set a \<Longrightarrow>
   length (elf_name c) = PATH_MAX \<Longrightarrow>
     elf_args c' = Some a \<and> name_of (elf_name c') = takeWhile (\<lambda>x. x \<noteq> blank) a"
proof (induction opts arbitrary: c)
  case (Cons opt opts)
  then obtain k c1 where one: "ctx_option bd opt (0, c) = Inr (k, c1)" "ctx_options bd opts (k, c1) = Inr (j, c')"
    by (auto simp: result_simps)
  show ?case
  proof (cases "is_f opt")
    case True
    then have opt: "opt = Opt_f a" and rest: "filter is_f opts = []" using Cons.prems(2) by auto
    have "set_file a (0, c) = Inr (k, c1)" using one(1) opt by (simp add: ctx_option_def Let_def)
    then show ?thesis
    proof (rule set_file_result)
      fix name assume n: "copied a 0 (elf_name c) k name" "k \<noteq> PATH_MAX"
        "c1 = c\<lparr>elf_args := Some a, elf_name := name[k := 0]\<rparr>"
      then have "k < PATH_MAX" by (simp add: copied_def)
      then show ?thesis
        using no_file [OF one(2) rest] copied_name [OF n(1) Cons.prems(4) _ Cons.prems(3)] n(3) by simp
    qed
  next
    case False
    then have "filter is_f opts = [Opt_f a]" using Cons.prems(2) by simp
    then show ?thesis
      using Cons.IH [of c1] one other_option [OF one(1) False] Cons.prems by simp
  qed
qed simp



end
