(* ===== verification/Emu_Props.thy ===== *)
theory Emu_Props
  imports Emu
begin

text \<open>
  What the conversions and the argument block of the USER build guarantee: a time stamp keeps its value,
  and the block the guest starts with has the layout its start-up code reads, or does not fit the memory.
\<close>

unbundle bit_operations_syntax

section \<open>Time stamps\<close>

lemma sdiv_rest: "0 < per \<Longrightarrow> \<bar>n - (n sdiv per) * per\<bar> < per" for n per :: int
  by (simp add: minus_sdiv_mult_eq_smod signed_modulo_int_def abs_mult abs_sgn_eq)

lemma to_i32_small: "in_i32 x \<Longrightarrow> to_i32 x = x"
  by (simp add: in_i32_def to_i32_def signed_of_int signed_take_bit_int_eq_self)

lemma normalise_value:
  assumes "emu_normalise per sec small = Inr (s', n')" "0 < per"
  shows "s' * per + n' = sec * per + small"
proof -
  define q where "q = small sdiv per"
  obtain sec1 small1 where first: "sec1 * per + small1 = sec * per + small"
    and second: "(if small1 < 0 then and_then (i64 (sec1 - 1)) (\<lambda>sec. Inr (sec, small1 + per))
      else Inr (sec1, small1)) = Inr (s', n')"
  proof (cases "in_i32 small")
    case True
    then show ?thesis using assms(1) by (intro that [of sec small]) (simp_all add: emu_normalise_def)
  next
    case False
    then show ?thesis
      using assms(1) by (intro that [of "sec + q" "small - q * per"])
        (simp_all add: emu_normalise_def Let_def i64_def q_def algebra_simps split: if_splits)
  qed
  show ?thesis
  proof (cases "small1 < 0")
    case True
    then have "sec1 = s' + 1" "n' = small1 + per" using second by (auto simp: i64_def split: if_splits)
    then show ?thesis using first by (simp add: distrib_right)
  qed (use first second in simp)
qed

lemma normalise_rest:
  assumes "emu_normalise per sec small = Inr (s', n')" "0 < per" "per \<le> 1000000000"
  shows "n' = (if in_i32 small then if small < 0 then small + per else small else n')"
    and "\<not> in_i32 small \<Longrightarrow> 0 \<le> n' \<and> n' < per" and "in_i32 n'"
proof -
  show "n' = (if in_i32 small then if small < 0 then small + per else small else n')"
    using assms(1) by (auto simp: emu_normalise_def Let_def result_simps i64_def split: if_splits)
  show big: "0 \<le> n' \<and> n' < per" if "\<not> in_i32 small"
    using that assms(1) sdiv_rest [OF assms(2), of small]
    by (auto simp: emu_normalise_def Let_def result_simps i64_def split: if_splits)
  show "in_i32 n'"
  proof (cases "in_i32 small")
    case True
    then show ?thesis
      using assms by (auto simp: emu_normalise_def Let_def result_simps i64_def in_i32_def split: if_splits)
  next
    case False
    then show ?thesis using big [OF False] assms(3) by (simp add: in_i32_def)
  qed
qed

lemma normalise_total:
  assumes "- (2 ^ 62) \<le> sec" "sec < 2 ^ 62" "in_i64 small" "1000000 \<le> per"
  shows "\<exists>p. emu_normalise per sec small = Inr p"
proof -
  have "\<bar>small sdiv per\<bar> \<le> \<bar>small\<bar> div per"
    using assms(4) by (simp add: signed_divide_int_def abs_mult abs_sgn_eq pos_imp_zdiv_nonneg_iff)
  also have "\<dots> \<le> 2 ^ 63 div 1000000"
  proof -
    have "\<bar>small\<bar> div per \<le> \<bar>small\<bar> div 1000000" using assms(4) by (intro zdiv_mono2) auto
    also have "\<dots> \<le> 2 ^ 63 div 1000000" using assms(3) by (intro zdiv_mono1) (auto simp: in_i64_def)
    finally show ?thesis .
  qed
  finally have "\<bar>small sdiv per\<bar> < 2 ^ 60" by simp
  then have "in_i64 (sec + small sdiv per)" "in_i64 (sec + small sdiv per - 1)" "in_i64 (sec - 1)"
    using assms(1,2) by (auto simp: in_i64_def)
  then show ?thesis by (auto simp: emu_normalise_def Let_def i64_def)
qed

lemma timespec_value:
  assumes "emu_copy_timespec ts = Inr e"
  shows "e_sec e * 1000000000 + e_nsec e = tv_sec ts * 1000000000 + tv_nsec ts \<and> in_i32 (e_nsec e)
      \<and> (0 \<le> tv_nsec ts \<and> tv_nsec ts < 1000000000 \<longrightarrow> e_sec e = tv_sec ts \<and> e_nsec e = tv_nsec ts)
      \<and> (0 \<le> e_nsec e \<and> e_nsec e < 1000000000 \<longleftrightarrow>
           \<not> (in_i32 (tv_nsec ts) \<and> (tv_nsec ts < - 1000000000 \<or> 1000000000 \<le> tv_nsec ts)))"
proof -
  obtain s n where n: "emu_normalise 1000000000 (tv_sec ts) (tv_nsec ts) = Inr (s, n)"
    and e: "e = \<lparr>e_sec = s, e_nsec = to_i32 n\<rparr>"
    using assms by (auto simp: emu_copy_timespec_def result_simps)
  note rest = normalise_rest [OF n, simplified]
  have e_n: "e_nsec e = n" "e_sec e = s" using rest(3) e by (simp_all add: to_i32_small)
  have "s * 1000000000 + n = tv_sec ts * 1000000000 + tv_nsec ts" using normalise_value [OF n] by simp
  moreover have "0 \<le> tv_nsec ts \<and> tv_nsec ts < 1000000000 \<longrightarrow> n = tv_nsec ts"
    using rest(1) by (auto simp: in_i32_def)
  moreover have "0 \<le> n \<and> n < 1000000000 \<longleftrightarrow>
      \<not> (in_i32 (tv_nsec ts) \<and> (tv_nsec ts < - 1000000000 \<or> 1000000000 \<le> tv_nsec ts))"
    using rest(1,2) by (cases "in_i32 (tv_nsec ts)") (auto split: if_splits)
  ultimately show ?thesis using rest(3) e_n by auto
qed

lemma timeval_value:
  assumes "emu_copy_timeval tv = Inr f"
  shows "ev_sec f * 1000000 + ev_usec f = tvs_sec tv * 1000000 + tvs_usec tv
      \<and> (0 \<le> tvs_usec tv \<and> tvs_usec tv < 1000000 \<longrightarrow> ev_sec f = tvs_sec tv \<and> ev_usec f = tvs_usec tv)"
proof -
  obtain s n where n: "emu_normalise 1000000 (tvs_sec tv) (tvs_usec tv) = Inr (s, n)"
    and f: "f = \<lparr>ev_sec = s, ev_usec = to_i32 n\<rparr>"
    using assms by (auto simp: emu_copy_timeval_def result_simps)
  note rest = normalise_rest [OF n, simplified]
  have "s * 1000000 + n = tvs_sec tv * 1000000 + tvs_usec tv" using normalise_value [OF n] by simp
  moreover have "0 \<le> tvs_usec tv \<and> tvs_usec tv < 1000000 \<longrightarrow> n = tvs_usec tv"
    using rest(1) by (auto simp: in_i32_def)
  ultimately show ?thesis using rest(3) f by (auto simp: to_i32_small)
qed

lemma timespec_total:
  "- (2 ^ 62) \<le> tv_sec ts \<and> tv_sec ts < 2 ^ 62 \<and> in_i64 (tv_nsec ts) \<Longrightarrow> \<exists>e. emu_copy_timespec ts = Inr e"
  using normalise_total [of "tv_sec ts" "tv_nsec ts" 1000000000] by (auto simp: emu_copy_timespec_def)

text \<open>
  The time stamps handed to the guest denote exactly the host's time, in 64-bit seconds and a part
  that fits 32 bits, without any overflow for seconds below 2 to the 62. A proper host value (part below
  one second) is copied as it is. The part is in range again except for inputs that fit 32 bits and are
  below minus a second or at least a second, which are not normalised.
\<close>

theorem timestamps_keep_value:
  "(\<forall>e. emu_copy_timespec ts = Inr e \<longrightarrow>
      e_sec e * 1000000000 + e_nsec e = tv_sec ts * 1000000000 + tv_nsec ts \<and> in_i32 (e_nsec e)
      \<and> (0 \<le> tv_nsec ts \<and> tv_nsec ts < 1000000000 \<longrightarrow> e_sec e = tv_sec ts \<and> e_nsec e = tv_nsec ts)
      \<and> (0 \<le> e_nsec e \<and> e_nsec e < 1000000000 \<longleftrightarrow>
           \<not> (in_i32 (tv_nsec ts) \<and> (tv_nsec ts < - 1000000000 \<or> 1000000000 \<le> tv_nsec ts))))
   \<and> (\<forall>f. emu_copy_timeval tv = Inr f \<longrightarrow>
      ev_sec f * 1000000 + ev_usec f = tvs_sec tv * 1000000 + tvs_usec tv
      \<and> (0 \<le> tvs_usec tv \<and> tvs_usec tv < 1000000 \<longrightarrow> ev_sec f = tvs_sec tv \<and> ev_usec f = tvs_usec tv))
   \<and> (- (2 ^ 62) \<le> tv_sec ts \<and> tv_sec ts < 2 ^ 62 \<and> in_i64 (tv_nsec ts) \<longrightarrow> (\<exists>e. emu_copy_timespec ts = Inr e))"
  using timespec_value [of ts] timeval_value [of tv] timespec_total [of ts] by blast

lemma timestamps_keep_value_witness:
  "emu_copy_timespec \<lparr>tv_sec = 5, tv_nsec = 7000000000\<rparr> = Inr \<lparr>e_sec = 12, e_nsec = 0\<rparr>
   \<and> (12::int) * 1000000000 + 0 = 5 * 1000000000 + 7000000000"
proof
  show copy: "emu_copy_timespec \<lparr>tv_sec = 5, tv_nsec = 7000000000\<rparr> = Inr \<lparr>e_sec = 12, e_nsec = 0\<rparr>"
    by (simp add: emu_copy_timespec_def emu_normalise_def in_i32_def i64_def in_i64_def to_i32_small)
  show "(12::int) * 1000000000 + 0 = 5 * 1000000000 + 7000000000"
    using timestamps_keep_value [of "\<lparr>tv_sec = 5, tv_nsec = 7000000000\<rparr>"] copy by simp
qed

section \<open>The argument block\<close>

text \<open>
  The strings \<open>emu_args\<close> hands over: the words between blanks, each with the blanks that the search for
  its beginning has skipped.
\<close>

function arg_strings :: "u8 list \<Rightarrow> u8 list list" where
  "arg_strings [] = []"
| "arg_strings (c # cs) =
    (if c = blank then (case arg_strings cs of [] \<Rightarrow> [] | w # ws \<Rightarrow> (blank # w) # ws)
     else takeWhile (\<lambda>x. x \<noteq> blank) (c # cs)
       # (case dropWhile (\<lambda>x. x \<noteq> blank) (c # cs) of [] \<Rightarrow> [] | _ # rest \<Rightarrow> arg_strings rest))"
  by pat_completeness auto
termination
proof (relation "measure length", goal_cases)
  case (3 c cs x rest)
  have "length (dropWhile (\<lambda>x. x \<noteq> blank) (c # cs)) \<le> length (c # cs)" by (rule length_dropWhile_le)
  then have "length (x # rest) \<le> length (c # cs)" using 3(2) by simp
  then show ?case by simp
qed simp_all

definition zstrings :: "u8 list list \<Rightarrow> u8 list" where
  "zstrings ws = concat (map (\<lambda>w. w @ [0]) ws)"

lemma zstrings_simps [simp]: "zstrings [] = []" "zstrings (w # ws) = w @ 0 # zstrings ws"
  by (simp_all add: zstrings_def)

lemma span_blank:
  "takeWhile (\<lambda>x. x \<noteq> blank) s @ dropWhile (\<lambda>x. x \<noteq> blank) s = s"
  by (rule takeWhile_dropWhile_id)

lemma tokenize_strings:
  "0 \<notin> set s \<Longrightarrow> \<exists>t rest. tokenize s = (length (arg_strings s), t) \<and> t @ [0] = zstrings (arg_strings s) @ rest
     \<and> (\<forall>w\<in>set (arg_strings s). 0 \<notin> set w)"
proof (induction s rule: tokenize.induct)
  case (2 c cs)
  show ?case
  proof (cases "c = blank")
    case True
    then obtain t rest where t: "tokenize cs = (length (arg_strings cs), t)"
      "t @ [0] = zstrings (arg_strings cs) @ rest" "\<forall>w\<in>set (arg_strings cs). 0 \<notin> set w"
      using 2 by auto
    show ?thesis
    proof (cases "arg_strings cs")
      case Nil
      then show ?thesis using True t by simp
    next
      case (Cons w ws)
      then show ?thesis using True t by auto
    qed
  next
    case False
    let ?w = "takeWhile (\<lambda>x. x \<noteq> blank) (c # cs)"
    have w0: "0 \<notin> set ?w" using 2(3) set_takeWhileD [of 0 "\<lambda>x. x \<noteq> blank" "c # cs"] by blast
    show ?thesis
    proof (cases "dropWhile (\<lambda>x. x \<noteq> blank) (c # cs)")
      case Nil
      then have "tokenize (c # cs) = (1, ?w)" "arg_strings (c # cs) = [?w]"
        by (simp_all only: tokenize.simps(2) arg_strings.simps(2) Nil False if_False list.case Let_def)
      then show ?thesis using w0 by simp
    next
      case (Cons b rest)
      have "0 \<notin> set rest" using 2(3) span_blank [of "c # cs"] Cons
        by (metis UnI2 list.set_intros(2) set_append)
      then obtain t r where t: "tokenize rest = (length (arg_strings rest), t)"
        "t @ [0] = zstrings (arg_strings rest) @ r" "\<forall>w\<in>set (arg_strings rest). 0 \<notin> set w"
        using 2(2) [OF False refl Cons] by auto
      have "tokenize (c # cs) = (length (arg_strings rest) + 1, ?w @ 0 # t)"
        "arg_strings (c # cs) = ?w # arg_strings rest"
        using False Cons t(1) by simp_all
      then show ?thesis using w0 t by simp
    qed
  qed
qed simp

text \<open>Words separated by single blanks come out as they are.\<close>

fun join :: "u8 list list \<Rightarrow> u8 list" where
  "join [] = []"
| "join [w] = w"
| "join (w # ws) = w @ blank # join ws"

lemma arg_strings_word:
  "w \<noteq> [] \<Longrightarrow> blank \<notin> set w \<Longrightarrow> arg_strings w = [w]"
  "w \<noteq> [] \<Longrightarrow> blank \<notin> set w \<Longrightarrow> arg_strings (w @ blank # s) = w # arg_strings s"
proof -
  assume w: "w \<noteq> []" "blank \<notin> set w"
  then obtain c cs where c: "w = c # cs" "c \<noteq> blank" by (cases w) auto
  have all: "\<forall>x\<in>set (c # cs). x \<noteq> blank" using w c by auto
  have tw: "takeWhile (\<lambda>x. x \<noteq> blank) (c # cs) = c # cs" "dropWhile (\<lambda>x. x \<noteq> blank) (c # cs) = []"
    using all by (simp_all only: takeWhile_eq_all_conv dropWhile_eq_Nil_conv)
  show "arg_strings w = [w]" by (simp only: c arg_strings.simps(2) tw if_False list.case)
  have "takeWhile (\<lambda>x. x \<noteq> blank) ((c # cs) @ blank # s) = c # cs"
    "dropWhile (\<lambda>x. x \<noteq> blank) ((c # cs) @ blank # s) = blank # s"
    using all by simp_all
  then show "arg_strings (w @ blank # s) = w # arg_strings s" using c by simp
qed

lemma arg_strings_join: "\<forall>w\<in>set ws. w \<noteq> [] \<and> blank \<notin> set w \<Longrightarrow> arg_strings (join ws) = ws"
  by (induction ws rule: join.induct) (simp_all add: arg_strings_word del: arg_strings.simps(2))

definition sizes :: "u8 list list \<Rightarrow> nat" where
  "sizes ws = (\<Sum>w\<leftarrow>ws. length w + 1)"

lemma sizes_simps [simp]: "sizes [] = 0" "sizes (w # ws) = length w + 1 + sizes ws"
  by (simp_all add: sizes_def)

lemma sizes_length: "length ws \<le> sizes ws"
  by (induction ws) simp_all

lemma unat_add_small: "unat (a :: u32) + n < 2 ^ 32 \<Longrightarrow> unat (a + of_nat n) = unat a + n"
  by (simp add: unat_word_ariths unsigned_of_nat take_bit_eq_mod mod_simps)

text \<open>The pointers and strings of \<open>ws\<close>, with the pointers from \<open>p\<close> and the strings from \<open>d\<close>.\<close>

definition placed :: "memory \<Rightarrow> nat \<Rightarrow> nat \<Rightarrow> u8 list list \<Rightarrow> bool" where
  "placed m p d ws \<longleftrightarrow> (\<forall>k < length ws.
     load_bytes m (p + 4 * k) 4 = bytes_of_word (of_nat (d + sizes (take k ws)) :: u32)
     \<and> load_bytes m (d + sizes (take k ws)) (length (ws ! k) + 1) = ws ! k @ [0])"

definition outside_same :: "(nat \<Rightarrow> bool) \<Rightarrow> memory \<Rightarrow> memory \<Rightarrow> bool" where
  "outside_same P m m' \<longleftrightarrow> mem_size m' = mem_size m \<and> (\<forall>i. \<not> P i \<longrightarrow> mem_bytes m' i = mem_bytes m i)"

lemma outside_load:
  "outside_same P m m' \<Longrightarrow> (\<And>i. p \<le> i \<Longrightarrow> i < p + n \<Longrightarrow> \<not> P i) \<Longrightarrow> load_bytes m' p n = load_bytes m p n"
  by (rule load_bytes_cong) (simp add: outside_same_def)

lemma take_zstring: "0 \<notin> set w \<Longrightarrow> takeWhile (\<lambda>x. x \<noteq> 0) (w @ 0 # s) = w"
  for w :: "u8 list" by (induction w) auto

lemma place_ok:
  "\<forall>w\<in>set ws. 0 \<notin> set w \<Longrightarrow> unat argp + 4 * length ws \<le> unat dst \<Longrightarrow> unat dst + sizes ws \<le> mem_size m \<Longrightarrow>
   unat dst + sizes ws < 2 ^ 32 \<Longrightarrow>
   \<exists>m'. place_args (length ws) argp dst (zstrings ws @ rest) m = Inr m' \<and> placed m' (unat argp) (unat dst) ws
     \<and> outside_same (\<lambda>i. unat argp \<le> i \<and> i < unat argp + 4 * length ws
                       \<or> unat dst \<le> i \<and> i < unat dst + sizes ws) m m'"
proof (induction ws arbitrary: argp dst m)
  case Nil
  then show ?case by (simp add: placed_def outside_same_def)
next
  case (Cons w ws)
  let ?m1 = "store_bytes m (unat dst) (w @ [0])"
  let ?m2 = "store_bytes ?m1 (unat argp) (bytes_of_word dst)"
  let ?n = "length w + 1"
  have w: "takeWhile (\<lambda>x. x \<noteq> 0) (zstrings (w # ws) @ rest) = w"
    "drop ?n (zstrings (w # ws) @ rest) = zstrings ws @ rest"
    using Cons.prems(1) by (simp_all add: take_zstring)
  have argp: "unat (argp + 4) = unat argp + 4"
    using unat_add_small [of argp 4] Cons.prems(2,4) by simp
  have dst: "unat (dst + of_nat ?n) = unat dst + ?n"
    using Cons.prems(4) by (intro unat_add_small) simp
  have "mem_wb_ptr_s m dst (w @ [0]) = Inr ?m1"
    using Cons.prems(3) by (simp add: mem_simps in_mem_def)
  moreover have "mem_ww ?m1 argp dst = Inr ?m2"
    using Cons.prems(2,3) by (simp add: mem_ww_def mem_simps in_mem_def)
  ultimately have step: "place_args (length (w # ws)) argp dst (zstrings (w # ws) @ rest) m
      = place_args (length ws) (argp + 4) (dst + of_nat ?n) (zstrings ws @ rest) ?m2"
    using w by (simp add: Let_def)
  obtain m' where m': "place_args (length ws) (argp + 4) (dst + of_nat ?n) (zstrings ws @ rest) ?m2 = Inr m'"
    and pl: "placed m' (unat argp + 4) (unat dst + ?n) ws"
    and out: "outside_same (\<lambda>i. unat argp + 4 \<le> i \<and> i < unat argp + 4 + 4 * length ws
                  \<or> unat dst + ?n \<le> i \<and> i < unat dst + ?n + sizes ws) ?m2 m'"
    using Cons.IH [of "argp + 4" "dst + of_nat ?n" ?m2] Cons.prems unfolding argp dst
    by (auto simp: mem_simps)
  have first_ptr: "load_bytes m' (unat argp) 4 = bytes_of_word dst"
  proof -
    have "load_bytes m' (unat argp) 4 = load_bytes ?m2 (unat argp) 4"
      using Cons.prems(2) by (intro outside_load [OF out]) auto
    then show ?thesis using load_store_same [of ?m1 "unat argp" "bytes_of_word dst"] by simp
  qed
  have first_str: "load_bytes m' (unat dst) ?n = w @ [0]"
  proof -
    have "load_bytes m' (unat dst) ?n = load_bytes ?m2 (unat dst) ?n"
      using Cons.prems(2) by (intro outside_load [OF out]) auto
    also have "\<dots> = load_bytes ?m1 (unat dst) ?n"
      using Cons.prems(2) by (intro load_store_disjoint) auto
    finally show ?thesis using load_store_same [of m "unat dst" "w @ [0]"] by simp
  qed
  have "placed m' (unat argp) (unat dst) (w # ws)"
    unfolding placed_def
  proof (intro allI impI)
    fix k assume k: "k < length (w # ws)"
    show "load_bytes m' (unat argp + 4 * k) 4 = bytes_of_word (of_nat (unat dst + sizes (take k (w # ws))) :: u32)
        \<and> load_bytes m' (unat dst + sizes (take k (w # ws))) (length ((w # ws) ! k) + 1) = (w # ws) ! k @ [0]"
    proof (cases k)
      case 0
      then show ?thesis using first_ptr first_str by simp
    next
      case (Suc j)
      then show ?thesis using pl k unfolding placed_def by (simp add: ac_simps)
    qed
  qed
  moreover have "outside_same (\<lambda>i. unat argp \<le> i \<and> i < unat argp + 4 * length (w # ws)
      \<or> unat dst \<le> i \<and> i < unat dst + sizes (w # ws)) m m'"
    using out by (auto simp: outside_same_def mem_simps store_bytes_outside)
  ultimately show ?case using step m' by auto
qed

lemma place_result:
  "\<forall>w\<in>set ws. 0 \<notin> set w \<Longrightarrow> unat dst + sizes ws < 2 ^ 32 \<Longrightarrow>
   case place_args (length ws) argp dst (zstrings ws @ rest) m of
     Inl e \<Rightarrow> e = out_of_vmem | Inr m' \<Rightarrow> ws = [] \<or> unat dst + sizes ws \<le> mem_size m"
proof (induction ws arbitrary: argp dst m)
  case (Cons w ws)
  let ?n = "length w + 1"
  have w: "takeWhile (\<lambda>x. x \<noteq> 0) (zstrings (w # ws) @ rest) = w"
    "drop ?n (zstrings (w # ws) @ rest) = zstrings ws @ rest"
    using Cons.prems(1) by (simp_all add: take_zstring)
  have dst: "unat (dst + of_nat ?n) = unat dst + ?n"
    using Cons.prems(2) by (intro unat_add_small) simp
  show ?case
  proof (cases "unat dst + ?n \<le> mem_size m")
    case False
    then have "mem_wb_ptr_s m dst (w @ [0]) = Inl out_of_vmem" by (simp add: mem_wb_ptr_s_def in_mem_def)
    then show ?thesis using w by (simp add: Let_def)
  next
    case True
    let ?m1 = "store_bytes m (unat dst) (w @ [0])"
    have m1: "mem_wb_ptr_s m dst (w @ [0]) = Inr ?m1" using True by (simp add: mem_simps in_mem_def)
    show ?thesis
    proof (cases "mem_ww ?m1 argp dst")
      case (Inl e)
      then have "e = out_of_vmem" by (simp add: mem_ww_def mem_wb_ptr_s_def split: if_splits)
      then show ?thesis using w m1 Inl by (simp add: Let_def)
    next
      case (Inr m2)
      then have "mem_size m2 = mem_size m" by (auto simp: mem_ww_def mem_simps)
      then show ?thesis
        using Cons.IH [of "dst + of_nat ?n" m2 "argp + 4"] Cons.prems w m1 Inr True unfolding dst
        by (auto simp: Let_def split: sum.splits)
    qed
  qed
qed simp

text \<open>The run of \<open>emu_args\<close> on such a command line, with its addresses as numbers.\<close>

lemma emu_args_run:
  assumes "0 \<notin> set elf_args" "length elf_args < PAGE_SIZE" "arg_strings elf_args = ws"
    and d: "d = unat sb + 8 + 4 * length ws" and small: "d + sizes ws < 2 ^ 32"
  shows "\<exists>rest str null. \<forall>m. emu_args True sb elf_args m = and_then (mem_ww m sb (of_nat (length ws)))
      (\<lambda>m. and_then (place_args (length ws) (sb + 4) str (zstrings ws @ rest) m) (\<lambda>m. mem_ww m null 0))
    \<and> unat (sb + 4) = unat sb + 4 \<and> unat str = d \<and> unat null = unat sb + 4 + 4 * length ws
    \<and> (\<forall>w\<in>set ws. 0 \<notin> set w)"
proof -
  let ?str = "sb + 4 + (of_nat (length ws) + 1) * 4" and ?null = "sb + 4 + of_nat (length ws) * 4"
  obtain t rest where t: "tokenize elf_args = (length ws, t)" "t @ [0] = zstrings ws @ rest"
    "\<forall>w\<in>set ws. 0 \<notin> set w"
    using tokenize_strings [OF assms(1)] assms(3) by auto
  have "unat (sb + 4) = unat sb + 4" using unat_add_small [of sb 4] small d by simp
  moreover have "?str = sb + of_nat (8 + 4 * length ws)" "?null = sb + of_nat (4 + 4 * length ws)"
    by (simp_all add: algebra_simps)
  then have "unat ?str = d" "unat ?null = unat sb + 4 + 4 * length ws"
    using unat_add_small [of sb "8 + 4 * length ws"] unat_add_small [of sb "4 + 4 * length ws"] small d
    by (simp_all only:)
  moreover have "emu_args True sb elf_args m = and_then (mem_ww m sb (of_nat (length ws)))
      (\<lambda>m. and_then (place_args (length ws) (sb + 4) ?str (zstrings ws @ rest) m) (\<lambda>m. mem_ww m ?null 0))" for m
    using assms(2) t by (simp add: emu_args_def Let_def)
  ultimately show ?thesis using t(3) by blast
qed

definition arg_block :: "memory \<Rightarrow> nat \<Rightarrow> nat \<Rightarrow> u8 list list \<Rightarrow> bool" where
  "arg_block m sb d ws \<longleftrightarrow> load_bytes m sb 4 = bytes_of_word (of_nat (length ws) :: u32)
     \<and> placed m (sb + 4) d ws \<and> load_bytes m (sb + 4 + 4 * length ws) 4 = bytes_of_word (0 :: u32)"

lemma emu_args_fits:
  assumes "0 \<notin> set elf_args" "length elf_args < PAGE_SIZE" "arg_strings elf_args = ws"
    and d: "d = unat sb + 8 + 4 * length ws" and small: "d + sizes ws < 2 ^ 32" and fits: "d + sizes ws \<le> mem_size m"
  shows "\<exists>m'. emu_args True sb elf_args m = Inr m' \<and> arg_block m' (unat sb) d ws
    \<and> outside_same (\<lambda>i. unat sb \<le> i \<and> i < d + sizes ws) m m'"
proof -
  obtain rest str null where args: "\<And>m. emu_args True sb elf_args m = and_then (mem_ww m sb (of_nat (length ws)))
      (\<lambda>m. and_then (place_args (length ws) (sb + 4) str (zstrings ws @ rest) m) (\<lambda>m. mem_ww m null 0))"
    and addr: "unat (sb + 4) = unat sb + 4" "unat str = d" "unat null = unat sb + 4 + 4 * length ws"
    and zero: "\<forall>w\<in>set ws. 0 \<notin> set w"
    using emu_args_run [OF assms(1-5)] by auto
  let ?m1 = "store_bytes m (unat sb) (bytes_of_word (of_nat (length ws) :: u32))"
  have m1: "mem_ww m sb (of_nat (length ws)) = Inr ?m1"
    using fits d by (simp add: mem_ww_def mem_simps in_mem_def)
  obtain m2 where m2: "place_args (length ws) (sb + 4) str (zstrings ws @ rest) ?m1 = Inr m2" "placed m2 (unat sb + 4) d ws"
    and out: "outside_same (\<lambda>i. unat sb + 4 \<le> i \<and> i < unat sb + 4 + 4 * length ws
                     \<or> d \<le> i \<and> i < d + sizes ws) ?m1 m2"
    using place_ok [OF zero, of "sb + 4" str ?m1 rest] fits small d unfolding addr by (auto simp: mem_simps)
  let ?m3 = "store_bytes m2 (unat sb + 4 + 4 * length ws) (bytes_of_word (0 :: u32))"
  have sz: "mem_size m2 = mem_size m" using out by (simp add: outside_same_def mem_simps)
  have "mem_ww m2 null 0 = Inr ?m3"
    using fits d by (simp add: mem_ww_def mem_simps in_mem_def addr sz)
  then have run: "emu_args True sb elf_args m = Inr ?m3" using args m1 m2 by simp
  have "load_bytes ?m3 (unat sb) 4 = load_bytes m2 (unat sb) 4" by (rule load_store_disjoint) simp
  also have "\<dots> = load_bytes ?m1 (unat sb) 4" using d by (intro outside_load [OF out]) auto
  finally have "load_bytes ?m3 (unat sb) 4 = bytes_of_word (of_nat (length ws) :: u32)"
    using load_store_same [of m "unat sb" "bytes_of_word (of_nat (length ws) :: u32)"] by simp
  moreover have "placed ?m3 (unat sb + 4) d ws"
    using m2(2) d unfolding placed_def by (auto simp: load_store_disjoint)
  moreover have "load_bytes ?m3 (unat sb + 4 + 4 * length ws) 4 = bytes_of_word (0 :: u32)"
    using load_store_same [of m2 "unat sb + 4 + 4 * length ws" "bytes_of_word (0 :: u32)"] by simp
  moreover have "outside_same (\<lambda>i. unat sb \<le> i \<and> i < d + sizes ws) m ?m3"
    using out d by (auto simp: outside_same_def mem_simps store_bytes_outside)
  ultimately show ?thesis using run by (auto simp: arg_block_def)
qed

lemma ww_result: "case mem_ww m a v of Inl e \<Rightarrow> e = out_of_vmem | Inr m' \<Rightarrow> mem_size m' = mem_size m \<and> unat a + 4 \<le> mem_size m"
  by (simp add: mem_ww_def mem_wb_ptr_s_def in_mem_def mem_simps)

lemma emu_args_too_big:
  assumes "0 \<notin> set elf_args" "length elf_args < PAGE_SIZE" "arg_strings elf_args = ws"
    and d: "d = unat sb + 8 + 4 * length ws" and small: "d + sizes ws < 2 ^ 32" and big: "\<not> d + sizes ws \<le> mem_size m"
  shows "emu_args True sb elf_args m = Inl out_of_vmem"
proof -
  obtain rest str null where args: "\<And>m. emu_args True sb elf_args m = and_then (mem_ww m sb (of_nat (length ws)))
      (\<lambda>m. and_then (place_args (length ws) (sb + 4) str (zstrings ws @ rest) m) (\<lambda>m. mem_ww m null 0))"
    and addr: "unat str = d" "unat null = unat sb + 4 + 4 * length ws"
    and zero: "\<forall>w\<in>set ws. 0 \<notin> set w"
    using emu_args_run [OF assms(1-5)] by auto
  show ?thesis
  proof (cases "mem_ww m sb (of_nat (length ws))")
    case (Inl e)
    then show ?thesis using ww_result [of m sb "of_nat (length ws)"] args by simp
  next
    case 1: (Inr m1)
    then have s1: "mem_size m1 = mem_size m" using ww_result [of m sb "of_nat (length ws)"] by simp
    show ?thesis
    proof (cases "place_args (length ws) (sb + 4) str (zstrings ws @ rest) m1")
      case (Inl e)
      then show ?thesis using place_result [OF zero, of str m1 "sb + 4" rest] args 1 small addr by simp
    next
      case 2: (Inr m2)
      then have "ws = []" using place_result [OF zero, of str m1 "sb + 4" rest] big small s1 addr by simp
      then have "mem_size m2 = mem_size m" using 2 s1 by simp
      then show ?thesis
        using ww_result [of m2 null 0] args 1 2 big d addr \<open>ws = []\<close> by (auto split: sum.splits)
    qed
  qed
qed

text \<open>
  C26: the block \<open>emu_args\<close> leaves at the guest's stack pointer is the count, the pointers, a null
  pointer and the strings, each pointer the address of its string, with nothing else written; the
  strings are the words of the command line when single blanks separate them. It is built exactly when
  it fits the memory: the test of the code is on the length of the command line alone, so one of many
  short words runs past the page that is kept free for it.
\<close>

theorem emu_args_layout:
  assumes "0 \<notin> set elf_args" "length elf_args < PAGE_SIZE" "arg_strings elf_args = ws"
    and "d = unat sb + 8 + 4 * length ws" "d + sizes ws < 2 ^ 32"
  shows "(if d + sizes ws \<le> mem_size m
      then \<exists>m'. emu_args True sb elf_args m = Inr m' \<and> arg_block m' (unat sb) d ws
        \<and> outside_same (\<lambda>i. unat sb \<le> i \<and> i < d + sizes ws) m m'
      else emu_args True sb elf_args m = Inl out_of_vmem)
    \<and> (\<forall>vs. (\<forall>w\<in>set vs. w \<noteq> [] \<and> blank \<notin> set w) \<and> elf_args = join vs \<longrightarrow> ws = vs)"
  using emu_args_fits [OF assms] emu_args_too_big [OF assms] arg_strings_join assms(3) by auto

lemma emu_args_layout_witness:
  "(\<exists>m'. emu_args True 16 [0x61, 0x62, 0x20, 0x63] \<lparr>mem_bytes = (\<lambda>_. 0), mem_size = 37\<rparr> = Inr m'
      \<and> arg_block m' 16 32 [[0x61, 0x62], [0x63]])
   \<and> emu_args True 16 [0x61, 0x62, 0x20, 0x63] \<lparr>mem_bytes = (\<lambda>_. 0), mem_size = 36\<rparr> = Inl out_of_vmem"
proof -
  let ?a = "[0x61, 0x62, 0x20, 0x63] :: u8 list"
  have a: "0 \<notin> set ?a" "length ?a < PAGE_SIZE" "arg_strings ?a = [[0x61, 0x62], [0x63]]"
    "32 = unat (16 :: u32) + 8 + 4 * length [[0x61, 0x62], [0x63 :: u8]]"
    "32 + sizes [[0x61, 0x62], [0x63]] < 2 ^ 32"
    by (simp_all add: PAGE_SIZE_def)
  show ?thesis
    using emu_args_layout [OF a, of "\<lparr>mem_bytes = (\<lambda>_. 0), mem_size = 37\<rparr>"]
      emu_args_layout [OF a, of "\<lparr>mem_bytes = (\<lambda>_. 0), mem_size = 36\<rparr>"]
    by auto
qed

end
