(* ===== verification/Gdb_Codec.thy ===== *)
theory Gdb_Codec
  imports Prelude
begin

text \<open>
  The hexadecimal codec of the GDB stub (src/include/stubb_a_dub/src/utils.c). Characters and bytes
  are both \<open>u8\<close>. A destination array is the list of its bytes after the call; an error leaves it
  partly written, which no caller reads.
\<close>

unbundle bit_operations_syntax

datatype util_ret = UTIL_OK | UTIL_UNEXPECTED | UTIL_X

section \<open>Decoding\<close>

text \<open>The three ranges of the code: \<open>'0'\<close> to \<open>'9'\<close>, \<open>'A'\<close> to \<open>'F'\<close>, \<open>'a'\<close> to \<open>'f'\<close>.\<close>

definition hex_digit :: "u8 \<Rightarrow> u8 option" where
  "hex_digit c =
    (if 0x30 \<le> c \<and> c \<le> 0x39 then Some (c - 0x30)
     else if 0x41 \<le> c \<and> c \<le> 0x46 then Some (c - 0x41 + 10)
     else if 0x61 \<le> c \<and> c \<le> 0x66 then Some (c - 0x61 + 10)
     else None)"

text \<open>
  The loop: \<open>state\<close> says that the next digit is the first of its byte, \<open>tmp\<close> is the byte under
  construction, the result the bytes stored so far.
\<close>

fun hex_loop :: "bool \<Rightarrow> u8 \<Rightarrow> u8 list \<Rightarrow> u8 list option" where
  "hex_loop state tmp [] = Some []"
| "hex_loop state tmp (c # cs) = (case hex_digit c of
     None \<Rightarrow> None
   | Some v \<Rightarrow> if state then hex_loop False (push_bit 4 v) cs
               else map_option (\<lambda>bs. (tmp + v) # bs) (hex_loop True (tmp + v) cs))"

definition sad_hex_chars_to_bytes :: "u8 list \<Rightarrow> nat \<Rightarrow> util_ret \<times> u8 list" where
  "sad_hex_chars_to_bytes src dest_size =
    (if dest_size < (length src + 1) div 2 then (UTIL_UNEXPECTED, [])
     else (case hex_loop (length src mod 2 = 0) 0 src of
             None \<Rightarrow> (UTIL_X, [])
           | Some bs \<Rightarrow> (UTIL_OK, bs @ replicate (dest_size - length bs) 0)))"

section \<open>Encoding\<close>

definition hex_chars :: "u8 list" where
  "hex_chars = [0x30, 0x31, 0x32, 0x33, 0x34, 0x35, 0x36, 0x37, 0x38, 0x39, 0x61, 0x62, 0x63, 0x64,
     0x65, 0x66]"

fun hex_of_bytes :: "u8 list \<Rightarrow> u8 list" where
  "hex_of_bytes [] = []"
| "hex_of_bytes (v # vs) =
     hex_chars ! unat (drop_bit 4 v) # hex_chars ! unat (v AND 0xF) # hex_of_bytes vs"

definition sad_bytes_to_hex_chars :: "u8 list \<Rightarrow> nat \<Rightarrow> util_ret \<times> u8 list" where
  "sad_bytes_to_hex_chars src dest_size =
    (if dest_size < 2 * length src then (UTIL_UNEXPECTED, []) else (UTIL_OK, hex_of_bytes src))"

section \<open>Round trips\<close>

lemma length_hex_of_bytes [simp]: "length (hex_of_bytes bs) = 2 * length bs"
  by (induction bs) auto

lemma hex_digit_nibble: "n < 16 \<Longrightarrow> hex_digit (hex_chars ! n) = Some (of_nat n)"
  by (simp add: less_Suc_eq numeral_eq_Suc, elim disjE) (simp_all add: hex_chars_def hex_digit_def)

lemma unat_nibbles: "unat (drop_bit 4 (v :: u8)) = unat v div 16" "unat (v AND 0xF) = unat v mod 16"
proof -
  show "unat (drop_bit 4 v) = unat v div 16"
    unfolding unat_drop_bit_eq by (simp add: drop_bit_eq_div)
  have "v AND 0xF = take_bit 4 v" by (simp add: take_bit_eq_mask mask_eq_exp_minus_1)
  then have "unat (v AND 0xF) = take_bit 4 (unat v)" by (simp only: unsigned_take_bit_eq)
  then show "unat (v AND 0xF) = unat v mod 16" by (simp add: take_bit_eq_mod)
qed

lemma nibbles: "push_bit 4 (of_nat (unat v div 16)) + of_nat (unat v mod 16) = (v :: u8)"
proof -
  have "push_bit 4 (of_nat (unat v div 16)) + of_nat (unat v mod 16)
      = (of_nat (unat v div 16 * 16 + unat v mod 16) :: u8)"
    by (simp only: push_bit_eq_mult of_nat_add of_nat_mult) simp
  also have "\<dots> = v" by (simp only: div_mult_mod_eq) simp
  finally show ?thesis .
qed

lemma hex_loop_encode: "hex_loop True tmp (hex_of_bytes bs) = Some bs"
proof (induction bs arbitrary: tmp)
  case (Cons v vs)
  have "unat v div 16 < 16" "unat v mod 16 < 16"
    using unsigned_less [of v, where ?'a=nat] by simp_all
  then show ?case
    by (simp add: unat_nibbles hex_digit_nibble nibbles Cons.IH)
qed simp

lemma hex_loop_length:
  "hex_loop st tmp cs = Some bs \<Longrightarrow>
     2 * length bs = (if st then length cs - length cs mod 2 else length cs + length cs mod 2)"
proof (induction st tmp cs arbitrary: bs rule: hex_loop.induct)
  case (2 st tmp c cs)
  then show ?case
    by (cases st; cases "even (length cs)")
      (auto split: option.splits elim!: evenE oddE)
qed simp

lemma hex_loop_None: "hex_loop st tmp cs = None \<longleftrightarrow> (\<exists>c\<in>set cs. hex_digit c = None)"
  by (induction st tmp cs rule: hex_loop.induct) (auto split: option.splits)

lemma hex_loop_pad: "hex_loop True tmp (0x30 # cs) = hex_loop False 0 cs"
  by (simp add: hex_digit_def)

lemma hex_size:
  "hex_loop (length src mod 2 = 0) 0 src = Some bs \<Longrightarrow> length bs = (length src + 1) div 2"
  by (cases "even (length src)") (auto dest!: hex_loop_length elim!: evenE oddE)

text \<open>
  C34: decoding the encoding of any bytes into any destination that holds them gives the bytes back,
  the rest of the destination zeroed; a destination is written in full on success; decoding fails
  exactly for a destination that is too small or a character that is no hexadecimal digit; and an
  odd number of digits reads as if a zero came first.
\<close>

theorem hex_codec:
  "sad_hex_chars_to_bytes (snd (sad_bytes_to_hex_chars bs (2 * length bs + j))) (length bs + k) =
      (UTIL_OK, bs @ replicate k 0)
   \<and> (fst (sad_hex_chars_to_bytes src n) = UTIL_OK \<longleftrightarrow>
        (length src + 1) div 2 \<le> n \<and> \<not> (\<exists>c. c \<in> set src \<and> hex_digit c = None))
   \<and> length (snd (sad_hex_chars_to_bytes src n)) \<in>
        (if fst (sad_hex_chars_to_bytes src n) = UTIL_OK then {n} else {0})
   \<and> sad_hex_chars_to_bytes (if odd (length src) then 0x30 # src else src) n
       = sad_hex_chars_to_bytes src n"
proof -
  have "sad_hex_chars_to_bytes (hex_of_bytes bs) (length bs + k) = (UTIL_OK, bs @ replicate k 0)"
    by (simp add: sad_hex_chars_to_bytes_def hex_loop_encode)
  moreover have "(fst (sad_hex_chars_to_bytes src n) = UTIL_OK) =
      ((length src + 1) div 2 \<le> n \<and> \<not> (\<exists>c. c \<in> set src \<and> hex_digit c = None))"
    using hex_loop_None [of "length src mod 2 = 0" 0 src]
    by (auto simp: sad_hex_chars_to_bytes_def split: option.splits)
  moreover have "length (snd (sad_hex_chars_to_bytes src n)) \<in>
      (if fst (sad_hex_chars_to_bytes src n) = UTIL_OK then {n} else {0})"
  proof (cases "hex_loop (length src mod 2 = 0) 0 src")
    case None
    then show ?thesis by (simp add: sad_hex_chars_to_bytes_def)
  next
    case (Some bs)
    then show ?thesis using hex_size [OF Some] by (simp add: sad_hex_chars_to_bytes_def)
  qed
  moreover have "sad_hex_chars_to_bytes (0x30 # src) n = sad_hex_chars_to_bytes src n"
    if "odd (length src)"
  proof -
    have "Suc (length src) mod 2 = 0" "length src mod 2 \<noteq> 0"
      "Suc (Suc (length src)) div 2 = Suc (length src) div 2"
      using that by presburger+
    then show ?thesis using hex_loop_pad [of 0 src] by (simp add: sad_hex_chars_to_bytes_def)
  qed
  ultimately show ?thesis by (simp add: sad_bytes_to_hex_chars_def)
qed

end
