(* ===== verification/Gdb_Parser.thy ===== *)
theory Gdb_Parser
  imports Gdb_Codec
begin

text \<open>
  The packet buffer and the packet parser of the GDB stub (buffer.c and parser.c under
  src/include/stubb_a_dub/src). \<open>pdata\<close> holds the \<open>filled\<close> bytes of the array; the model of the
  parser reads the buffer and writes \<open>start_pkt_data\<close> and \<open>end_pkt_data\<close> in it, as the code does.
\<close>

unbundle bit_operations_syntax

section \<open>The buffer\<close>

record PKT_Buffer =
  initial_size :: nat
  start_pkt_data :: nat
  end_pkt_data :: nat
  data_size :: nat
  alloc_size :: nat
  pdata :: "u8 list"

abbreviation filled :: "PKT_Buffer \<Rightarrow> nat" where
  "filled b \<equiv> length (pdata b)"

datatype buff_ret = BUFF_OK | BUFF_OOM | BUFF_FD_ERR | BUFF_WOULD_BLOCK | BUFF_CLOSED

definition MAX_BUFF_DATA_SIZE :: nat where
  "MAX_BUFF_DATA_SIZE = 4096"

text \<open>
  \<open>data_size\<close> is the field the code keeps, \<open>alloc_size\<close> the size of the array \<open>data\<close> points to. The
  reset of a large buffer allocates a smaller array and leaves \<open>data_size\<close> alone. \<open>oom n\<close> says that
  the allocator refuses a block of \<open>n\<close> bytes; the reset does not test for that and keeps NULL. Sizes
  are natural numbers: a \<open>size_t\<close> would wrap only after the allocator has given \<open>2 ^ 63\<close> bytes.
\<close>

definition sad_buff_reset :: "(nat \<Rightarrow> bool) \<Rightarrow> PKT_Buffer \<Rightarrow> PKT_Buffer" where
  "sad_buff_reset oom b =
    (let b1 = (if data_size b \<ge> MAX_BUFF_DATA_SIZE
               then b\<lparr>alloc_size := if oom (initial_size b) then 0 else initial_size b\<rparr> else b)
     in b1\<lparr>pdata := [], end_pkt_data := 0, start_pkt_data := 0\<rparr>)"

text \<open>The size of a \<open>PKT_Buffer\<close>, the first block that is allocated, is 48 bytes.\<close>

definition sad_buff_create :: "(nat \<Rightarrow> bool) \<Rightarrow> nat \<Rightarrow> PKT_Buffer option" where
  "sad_buff_create oom n =
    (if n = 0 then None
     else if oom 48 then None
     else if oom n then None
     else Some (sad_buff_reset oom \<lparr>initial_size = n, start_pkt_data = 0, end_pkt_data = 0, data_size = n,
                                   alloc_size = n, pdata = []\<rparr>))"

text \<open>After \<open>sad_buff_destroy\<close> the array is gone.\<close>

definition sad_buff_destroy :: "PKT_Buffer \<Rightarrow> PKT_Buffer" where
  "sad_buff_destroy b = b\<lparr>alloc_size := 0, pdata := []\<rparr>"

definition sad_buff_expand :: "(nat \<Rightarrow> bool) \<Rightarrow> PKT_Buffer \<Rightarrow> PKT_Buffer \<times> buff_ret" where
  "sad_buff_expand oom b =
    (if oom (data_size b * 2) then (b, BUFF_OOM)
     else (b\<lparr>data_size := data_size b * 2, alloc_size := data_size b * 2\<rparr>, BUFF_OK))"

text \<open>
  The expanding loop of the two operations below; it ends because \<open>data_size\<close> doubles and is not
  zero.
\<close>

function grow_to :: "(nat \<Rightarrow> bool) \<Rightarrow> nat \<Rightarrow> PKT_Buffer \<Rightarrow> PKT_Buffer \<times> buff_ret" where
  "grow_to oom n b =
    (if n > data_size b \<and> 0 < data_size b
     then (case sad_buff_expand oom b of
             (b1, BUFF_OOM) \<Rightarrow> (b1, BUFF_OOM)
           | (b1, _) \<Rightarrow> grow_to oom n b1)
     else (b, BUFF_OK))"
  by auto
termination
  by (relation "measure (\<lambda>(oom, n, b). n - data_size b)")
    (auto simp: sad_buff_expand_def split: if_splits)

declare grow_to.simps [simp del]

definition heap_overflow :: stop where
  "heap_overflow = Undefined ''write past the end of a heap block''"

definition sad_buff_append ::
    "(nat \<Rightarrow> bool) \<Rightarrow> PKT_Buffer \<Rightarrow> u8 list \<Rightarrow> (PKT_Buffer \<times> buff_ret) result" where
  "sad_buff_append oom b data =
    (case grow_to oom (filled b + length data) b of
       (b1, BUFF_OOM) \<Rightarrow> Inr (b1, BUFF_OOM)
     | (b1, _) \<Rightarrow> if filled b1 + length data \<le> alloc_size b1
                  then Inr (b1\<lparr>pdata := pdata b1 @ data\<rparr>, BUFF_OK)
                  else Inl heap_overflow)"

text \<open>
  \<open>sad_buff_from_socket\<close>: \<open>rd\<close> is what \<open>read\<close> returns: \<open>None\<close> an error other than EINTR, \<open>Some bs\<close>
  at most \<open>initial_size\<close> bytes, none at the end of the stream.
\<close>

definition sad_buff_from_socket ::
    "(nat \<Rightarrow> bool) \<Rightarrow> PKT_Buffer \<Rightarrow> u8 list option \<Rightarrow> bool \<Rightarrow> (PKT_Buffer \<times> buff_ret) result" where
  "sad_buff_from_socket oom b rd would_block =
    (case grow_to oom (filled b + initial_size b) b of
       (b1, BUFF_OOM) \<Rightarrow> Inr (b1, BUFF_OOM)
     | (b1, _) \<Rightarrow>
        (case rd of
           None \<Rightarrow> Inr (b1, if would_block then BUFF_WOULD_BLOCK else BUFF_FD_ERR)
         | Some [] \<Rightarrow> Inr (b1, BUFF_CLOSED)
         | Some bs \<Rightarrow> if filled b1 + length bs \<le> alloc_size b1
                      then Inr (b1\<lparr>pdata := pdata b1 @ bs\<rparr>, BUFF_OK) else Inl heap_overflow))"

text \<open>The sum of the packet's bytes modulo 256.\<close>

definition sad_buff_checksum :: "PKT_Buffer \<Rightarrow> u8" where
  "sad_buff_checksum b =
     of_nat (sum_list (map (\<lambda>i. unat (pdata b ! i)) [start_pkt_data b..<end_pkt_data b]))"

section \<open>strtol in base 16\<close>

text \<open>
  The C function on a string of bytes without its terminator: blanks, a sign, \<open>0x\<close> before a digit,
  digits. (The callers' strings are far too short to overflow a \<open>long\<close>.)
\<close>

definition is_space :: "u8 \<Rightarrow> bool" where
  "is_space c \<longleftrightarrow> c = 0x20 \<or> 0x09 \<le> c \<and> c \<le> 0x0D"

fun hex_number :: "int \<Rightarrow> u8 list \<Rightarrow> int" where
  "hex_number acc [] = acc"
| "hex_number acc (c # cs) = (case hex_digit c of
     None \<Rightarrow> acc | Some v \<Rightarrow> hex_number (16 * acc + uint v) cs)"

definition skip_0x :: "u8 list \<Rightarrow> u8 list" where
  "skip_0x cs = (case cs of
     a # b # c # r \<Rightarrow> if a = 0x30 \<and> (b = 0x78 \<or> b = 0x58) \<and> hex_digit c \<noteq> None then c # r else cs
   | _ \<Rightarrow> cs)"

definition strtol16 :: "u8 list \<Rightarrow> int" where
  "strtol16 cs = (case dropWhile is_space cs of
     [] \<Rightarrow> 0
   | c # r \<Rightarrow> if c = 0x2D then - hex_number 0 (skip_0x r)
              else if c = 0x2B then hex_number 0 (skip_0x r)
              else hex_number 0 (skip_0x (c # r)))"

section \<open>The parser\<close>

datatype pars_state = PARSE_RESET | PARSE_START | PARSE_SKIP | PARSE_CHECKSUM_DIGIT_0
  | PARSE_CHECKSUM_DIGIT_1 | PARSE_NACK | PARSE_ERROR | PARSE_FINISHED

text \<open>\<open>checksum0\<close> is \<open>checksum[0]\<close>, which is \<open>static\<close> and survives between calls.\<close>

record Parser =
  p_state :: pars_state
  parse_idx :: nat
  checksum0 :: u8
  checksum1 :: u8

definition sad_parser_reset :: "Parser \<Rightarrow> Parser" where
  "sad_parser_reset p = p\<lparr>p_state := PARSE_RESET, parse_idx := 0\<rparr>"

text \<open>
  The \<open>switch\<close> on one byte; the last component is \<open>False\<close> for the \<open>continue\<close> that keeps the byte.
\<close>

definition parse_byte :: "bool \<Rightarrow> u8 \<Rightarrow> Parser \<Rightarrow> PKT_Buffer \<Rightarrow> Parser \<times> PKT_Buffer \<times> bool" where
  "parse_byte ack c p b = (case p_state p of
     PARSE_RESET \<Rightarrow>
       if ack then
         (if c = 0x2B then (p\<lparr>p_state := PARSE_START\<rparr>, b, True)
          else if c = 0x2D then (p\<lparr>p_state := PARSE_NACK\<rparr>, b, True)
          else (p, b, True))
       else (p\<lparr>p_state := PARSE_START\<rparr>, b, c = 0x2B)
   | PARSE_START \<Rightarrow>
       if c = 0x24 then (p\<lparr>p_state := PARSE_SKIP\<rparr>, b\<lparr>start_pkt_data := parse_idx p + 1\<rparr>, True)
       else (p\<lparr>p_state := PARSE_ERROR\<rparr>, b, True)
   | PARSE_SKIP \<Rightarrow>
       if c = 0x23
       then (p\<lparr>p_state := if ack then PARSE_CHECKSUM_DIGIT_0 else PARSE_FINISHED\<rparr>,
             b\<lparr>end_pkt_data := parse_idx p\<rparr>, True)
       else (p, b, True)
   | PARSE_CHECKSUM_DIGIT_0 \<Rightarrow> (p\<lparr>checksum0 := c, p_state := PARSE_CHECKSUM_DIGIT_1\<rparr>, b, True)
   | PARSE_CHECKSUM_DIGIT_1 \<Rightarrow>
       (let p1 = p\<lparr>checksum1 := c\<rparr>;
            value = (word_of_int (strtol16 (takeWhile (\<lambda>d. d \<noteq> 0) [checksum0 p1, c])) :: u8)
        in (p1\<lparr>p_state := if value \<noteq> sad_buff_checksum b then PARSE_ERROR else PARSE_FINISHED\<rparr>, b, True))
   | _ \<Rightarrow> (p, b, True))"

function parse_loop :: "bool \<Rightarrow> Parser \<Rightarrow> PKT_Buffer \<Rightarrow> Parser \<times> PKT_Buffer" where
  "parse_loop ack p b =
    (if parse_idx p < filled b
     then (case parse_byte ack (pdata b ! parse_idx p) p b of
             (p1, b1, True) \<Rightarrow> parse_loop ack (p1\<lparr>parse_idx := parse_idx p1 + 1\<rparr>) b1
           | (p1, b1, False) \<Rightarrow> parse_loop ack p1 b1)
     else (p, b))"
  by auto
termination
  by (relation "measure (\<lambda>(ack, p, b). 2 * (filled b - parse_idx p) + (if p_state p = PARSE_RESET then 1 else 0))")
    (auto simp: parse_byte_def Let_def split: pars_state.splits if_splits)

declare parse_loop.simps [simp del]

definition sad_parser_pkt :: "bool \<Rightarrow> Parser \<Rightarrow> PKT_Buffer \<Rightarrow> Parser \<times> PKT_Buffer" where
  "sad_parser_pkt ack p b = parse_loop ack p b"

section \<open>Parsing a stream in pieces\<close>

definition fed :: "u8 list \<Rightarrow> PKT_Buffer \<Rightarrow> PKT_Buffer" where
  "fed bs b = b\<lparr>pdata := pdata b @ bs\<rparr>"

lemma fed_simps [simp]:
  "pdata (fed bs b) = pdata b @ bs" "start_pkt_data (fed bs b) = start_pkt_data b"
  "end_pkt_data (fed bs b) = end_pkt_data b" "fed [] b = b" "fed cs (fed bs b) = fed (bs @ cs) b"
  "fed bs (b\<lparr>start_pkt_data := i\<rparr>) = (fed bs b)\<lparr>start_pkt_data := i\<rparr>"
  "fed bs (b\<lparr>end_pkt_data := i\<rparr>) = (fed bs b)\<lparr>end_pkt_data := i\<rparr>"
  by (simp_all add: fed_def)

lemma checksum_fed: "end_pkt_data b \<le> filled b \<Longrightarrow> sad_buff_checksum (fed bs b) = sad_buff_checksum b"
  unfolding sad_buff_checksum_def fed_simps
  by (intro arg_cong [where f="\<lambda>xs. of_nat (sum_list xs)"] map_cong) (auto simp: nth_append)

lemma parse_byte_fed:
  "end_pkt_data b \<le> filled b \<Longrightarrow> parse_byte ack c p (fed bs b) =
     (case parse_byte ack c p b of (p1, b1, k) \<Rightarrow> (p1, fed bs b1, k))"
  by (cases "p_state p") (simp_all add: parse_byte_def checksum_fed Let_def)

lemma parse_byte_keeps:
  "parse_byte ack c p b = (p1, b1, k) \<Longrightarrow> pdata b1 = pdata b \<and> parse_idx p1 = parse_idx p
     \<and> (parse_idx p < filled b \<and> end_pkt_data b \<le> filled b \<longrightarrow> end_pkt_data b1 \<le> filled b1)"
  by (cases "p_state p") (auto simp: parse_byte_def Let_def split: if_splits)

lemma parse_loop_fed:
  "end_pkt_data b \<le> filled b \<Longrightarrow> parse_loop ack p (fed bs b) =
     (case parse_loop ack p b of (p1, b1) \<Rightarrow> parse_loop ack p1 (fed bs b1))"
proof (induction ack p b rule: parse_loop.induct)
  case (1 ack p b)
  show ?case
  proof (cases "parse_idx p < filled b")
    case False
    then show ?thesis by (simp add: parse_loop.simps [of ack p b])
  next
    case True
    obtain p1 b1 k where pb: "parse_byte ack (pdata b ! parse_idx p) p b = (p1, b1, k)"
      by (metis prod_cases3)
    have keep: "end_pkt_data b1 \<le> filled b1"
      using parse_byte_keeps [OF pb] True 1(3) by auto
    have pb': "parse_byte ack ((pdata b @ bs) ! parse_idx p) p (fed bs b) = (p1, fed bs b1, k)"
      using True pb 1(3) by (simp add: nth_append parse_byte_fed)
    show ?thesis
      using True pb pb' 1(1) [OF True pb [symmetric]] 1(2) [OF True pb [symmetric]] keep
      by (cases k) (simp_all add: parse_loop.simps [of ack p b] parse_loop.simps [of ack p "fed bs b"])
  qed
qed

lemma parse_loop_keeps:
  "parse_loop ack p b = (p1, b1) \<Longrightarrow> pdata b1 = pdata b
     \<and> (end_pkt_data b \<le> filled b \<longrightarrow> end_pkt_data b1 \<le> filled b1) \<and> filled b1 \<le> parse_idx p1"
proof (induction ack p b arbitrary: p1 b1 rule: parse_loop.induct)
  case (1 ack p b)
  show ?case
  proof (cases "parse_idx p < filled b")
    case False
    then show ?thesis using 1(3) by (simp add: parse_loop.simps [of ack p b])
  next
    case True
    obtain p2 b2 k where pb: "parse_byte ack (pdata b ! parse_idx p) p b = (p2, b2, k)"
      by (metis prod_cases3)
    have "pdata b1 = pdata b2 \<and> (end_pkt_data b2 \<le> filled b2 \<longrightarrow> end_pkt_data b1 \<le> filled b1)
        \<and> filled b1 \<le> parse_idx p1"
    proof (cases k)
      case True
      have "parse_loop ack (p2\<lparr>parse_idx := parse_idx p2 + 1\<rparr>) b2 = (p1, b1)"
        using 1(3) \<open>parse_idx p < filled b\<close> pb True by (simp add: parse_loop.simps [of ack p b])
      from 1(1) [OF \<open>parse_idx p < filled b\<close> pb [symmetric] refl _ this] True show ?thesis by auto
    next
      case False
      have "parse_loop ack p2 b2 = (p1, b1)"
        using 1(3) \<open>parse_idx p < filled b\<close> pb False by (simp add: parse_loop.simps [of ack p b])
      from 1(2) [OF \<open>parse_idx p < filled b\<close> pb [symmetric] refl _ this] False show ?thesis by auto
    qed
    then show ?thesis using parse_byte_keeps [OF pb] True by auto
  qed
qed

text \<open>The stub's alternation of reads and calls of the parser, as long as no packet is complete.\<close>

fun parse_chunks :: "bool \<Rightarrow> u8 list list \<Rightarrow> Parser \<Rightarrow> PKT_Buffer \<Rightarrow> Parser \<times> PKT_Buffer" where
  "parse_chunks ack [] p b = (p, b)"
| "parse_chunks ack (c # cs) p b =
     (case sad_parser_pkt ack p (fed c b) of (p1, b1) \<Rightarrow> parse_chunks ack cs p1 b1)"

lemma feed_all:
  assumes "filled b \<le> parse_idx p" and "end_pkt_data b \<le> filled b"
  shows "parse_chunks ack cs p b = parse_loop ack p (fed (concat cs) b)"
  using assms
proof (induction cs arbitrary: p b)
  case Nil
  then show ?case by (simp add: parse_loop.simps)
next
  case (Cons c cs)
  obtain p1 b1 where l: "parse_loop ack p (fed c b) = (p1, b1)" by fastforce
  have "parse_loop ack p (fed (concat cs) (fed c b)) = parse_loop ack p1 (fed (concat cs) b1)"
    using parse_loop_fed [of "fed c b" ack p "concat cs"] l Cons.prems by simp
  then show ?case
    using Cons.IH [of b1 p1] parse_loop_keeps [OF l] l Cons.prems by (auto simp: sad_parser_pkt_def)
qed

text \<open>
  C36: parsing a stream as it arrives, in any pieces, leaves the parser and the buffer as parsing it
  in one piece does.
\<close>

theorem chunks_do_not_matter:
  assumes "filled b \<le> parse_idx p" and "end_pkt_data b \<le> filled b"
  shows "parse_chunks ack cs p b = sad_parser_pkt ack p (fed (concat cs) b)"
  using feed_all [OF assms] by (simp add: sad_parser_pkt_def)

lemma chunks_do_not_matter_witness:
  "\<exists>b. sad_buff_create (\<lambda>n. False) 128 = Some b \<and> parse_chunks True [[0x2B, 0x24], [0x3F, 0x23]]
       \<lparr>p_state = PARSE_RESET, parse_idx = 0, checksum0 = 0, checksum1 = 0\<rparr> b
     = sad_parser_pkt True \<lparr>p_state = PARSE_RESET, parse_idx = 0, checksum0 = 0, checksum1 = 0\<rparr>
         (fed [0x2B, 0x24, 0x3F, 0x23] b)"
proof -
  obtain b where "sad_buff_create (\<lambda>n. False) 128 = Some b" "filled b = 0" "end_pkt_data b = 0"
    by (simp add: sad_buff_create_def sad_buff_reset_def Let_def MAX_BUFF_DATA_SIZE_def)
  then show ?thesis
    using chunks_do_not_matter [of b "\<lparr>p_state = PARSE_RESET, parse_idx = 0, checksum0 = 0, checksum1 = 0\<rparr>"
      True "[[0x2B, 0x24], [0x3F, 0x23]]"] by auto
qed

section \<open>Accepting a packet\<close>

lemma parse_step:
  "parse_idx p < filled b \<Longrightarrow> parse_byte ack (pdata b ! parse_idx p) p b = (p1, b1, True) \<Longrightarrow>
     parse_loop ack p b = parse_loop ack (p1\<lparr>parse_idx := parse_idx p1 + 1\<rparr>) b1"
  by (simp add: parse_loop.simps [of ack p b])

lemma parse_stop: "\<not> parse_idx p < filled b \<Longrightarrow> parse_loop ack p b = (p, b)"
  by (simp add: parse_loop.simps)

lemma parse_skip:
  assumes "p_state p = PARSE_SKIP" and "parse_idx p + n \<le> filled b"
    and "\<And>j. j < n \<Longrightarrow> pdata b ! (parse_idx p + j) \<noteq> 0x23"
  shows "parse_loop ack p b = parse_loop ack (p\<lparr>parse_idx := parse_idx p + n\<rparr>) b"
  using assms
proof (induction n arbitrary: p)
  case (Suc n)
  have "parse_loop ack p b = parse_loop ack (p\<lparr>parse_idx := parse_idx p + 1\<rparr>) b"
    using Suc.prems(3) [of 0] Suc.prems(1,2) by (subst parse_step [of p b]) (auto simp: parse_byte_def)
  also have "\<dots> = parse_loop ack ((p\<lparr>parse_idx := parse_idx p + 1\<rparr>)\<lparr>parse_idx := (parse_idx p + 1) + n\<rparr>) b"
    using Suc.IH [of "p\<lparr>parse_idx := parse_idx p + 1\<rparr>"] Suc.prems(1,2) Suc.prems(3) [of "Suc _"] by simp
  finally show ?case by simp
qed simp

definition packet :: "u8 list \<Rightarrow> u8 list \<Rightarrow> u8 list" where
  "packet payload digits = [0x2B, 0x24] @ payload @ [0x23] @ digits"

definition payload_sum :: "u8 list \<Rightarrow> u8" where
  "payload_sum payload = of_nat (sum_list (map unat payload))"

lemma checksum_packet:
  "pdata b = packet payload ds \<Longrightarrow> start_pkt_data b = 2 \<Longrightarrow> end_pkt_data b = 2 + length payload \<Longrightarrow>
     sad_buff_checksum b = payload_sum payload"
proof -
  assume b: "pdata b = packet payload ds" "start_pkt_data b = 2" "end_pkt_data b = 2 + length payload"
  have "map (\<lambda>i. unat (packet payload ds ! i)) [2..<2 + length payload] = map unat payload"
  proof (rule nth_equalityI)
    show "length (map (\<lambda>i. unat (packet payload ds ! i)) [2..<2 + length payload]) = length (map unat payload)"
      by (simp only: length_map length_upt)
  next
    fix i assume "i < length (map (\<lambda>i. unat (packet payload ds ! i)) [2..<2 + length payload])"
    then have "i < length payload" by (simp only: length_map length_upt)
    then have "[2..<2 + length payload] ! i = 2 + i" and "packet payload ds ! (2 + i) = payload ! i"
      by (simp_all only: nth_upt) (simp add: packet_def nth_append)
    with \<open>i < length payload\<close> show
      "map (\<lambda>i. unat (packet payload ds ! i)) [2..<2 + length payload] ! i = map unat payload ! i"
      by (simp del: upt_Suc add: nth_map)
  qed
  then show ?thesis by (simp add: sad_buff_checksum_def payload_sum_def b)
qed

lemma parse_packet:
  assumes "0x23 \<notin> set payload" and "p_state p = PARSE_RESET" "parse_idx p = 0"
    and b: "pdata b = packet payload [d0, d1]"
  shows "\<exists>p' b'. parse_loop True p b = (p', b') \<and> start_pkt_data b' = 2
    \<and> end_pkt_data b' = 2 + length payload \<and> pdata b' = pdata b \<and> parse_idx p' = filled b
    \<and> p_state p' = (if word_of_int (strtol16 (takeWhile (\<lambda>d. d \<noteq> 0) [d0, d1])) = payload_sum payload
                     then PARSE_FINISHED else PARSE_ERROR)"
proof -
  let ?n = "length payload"
  let ?b1 = "b\<lparr>start_pkt_data := Suc (Suc 0)\<rparr>"
  let ?b2 = "?b1\<lparr>end_pkt_data := Suc (Suc ?n)\<rparr>"
  have at: "pdata b ! 0 = 0x2B" "pdata b ! Suc 0 = 0x24" "pdata b ! Suc (Suc ?n) = 0x23"
    "pdata b ! Suc (Suc (Suc ?n)) = d0" "pdata b ! Suc (Suc (Suc (Suc ?n))) = d1" "filled b = 5 + ?n"
    by (simp_all add: b packet_def nth_append)
  have pay: "pdata b ! Suc (Suc j) \<noteq> 0x23" if "j < ?n" for j
    using that assms(1) by (auto simp: b packet_def nth_append dest: nth_mem)
  have 1: "parse_loop True p b = parse_loop True (p\<lparr>p_state := PARSE_START, parse_idx := 1\<rparr>) b"
    by (subst parse_step [of p b]) (auto simp: parse_byte_def assms(2,3) at)
  have 2: "\<dots> = parse_loop True (p\<lparr>p_state := PARSE_SKIP, parse_idx := 2\<rparr>) ?b1"
    by (subst parse_step) (auto simp: parse_byte_def at numeral_2_eq_2)
  have 3: "\<dots> = parse_loop True (p\<lparr>p_state := PARSE_SKIP, parse_idx := 2 + ?n\<rparr>) ?b1"
    by (subst parse_skip [where n = ?n]) (use pay in \<open>auto simp: at\<close>)
  have 4: "\<dots> = parse_loop True (p\<lparr>p_state := PARSE_CHECKSUM_DIGIT_0, parse_idx := 3 + ?n\<rparr>) ?b2"
    by (subst parse_step) (auto simp: parse_byte_def at numeral_eq_Suc)
  have 5: "\<dots> = parse_loop True
      (p\<lparr>checksum0 := d0, p_state := PARSE_CHECKSUM_DIGIT_1, parse_idx := 4 + ?n\<rparr>) ?b2"
    by (subst parse_step) (auto simp: parse_byte_def at numeral_eq_Suc)
  let ?s = "if word_of_int (strtol16 (takeWhile (\<lambda>d. d \<noteq> 0) [d0, d1])) = payload_sum payload
                     then PARSE_FINISHED else PARSE_ERROR"
  have sum: "sad_buff_checksum ?b2 = payload_sum payload"
    by (rule checksum_packet) (simp_all add: b)
  have 6: "parse_loop True (p\<lparr>checksum0 := d0, p_state := PARSE_CHECKSUM_DIGIT_1, parse_idx := 4 + ?n\<rparr>) ?b2
      = parse_loop True (p\<lparr>checksum0 := d0, checksum1 := d1, p_state := ?s, parse_idx := 5 + ?n\<rparr>) ?b2"
    by (subst parse_step) (auto simp: parse_byte_def at sum Let_def numeral_eq_Suc)
  show ?thesis
    unfolding 1 2 3 4 5 6 by (subst parse_stop) (auto simp: at)
qed

lemma strtol_hex_byte:
  "word_of_int (strtol16 (takeWhile (\<lambda>d. d \<noteq> 0) (hex_of_bytes [v]))) = (v :: u8)"
proof -
  let ?h = "hex_chars ! unat (drop_bit 4 v)" and ?l = "hex_chars ! unat (v AND 0xF)"
  have n: "unat v div 16 < 16" "unat v mod 16 < 16"
    using unsigned_less [of v, where ?'a=nat] by simp_all
  have digit: "hex_chars ! k \<noteq> 0 \<and> \<not> is_space (hex_chars ! k) \<and> hex_chars ! k \<noteq> 0x2D \<and> hex_chars ! k \<noteq> 0x2B"
    if "k < 16" for k
    using that by (simp add: less_Suc_eq numeral_eq_Suc, elim disjE) (simp_all add: hex_chars_def is_space_def)
  have "strtol16 (takeWhile (\<lambda>d. d \<noteq> 0) [?h, ?l]) =
      16 * uint (of_nat (unat v div 16) :: u8) + uint (of_nat (unat v mod 16) :: u8)"
    using digit [OF n(1)] digit [OF n(2)] hex_digit_nibble [OF n(1)] hex_digit_nibble [OF n(2)]
    by (simp add: strtol16_def skip_0x_def unat_nibbles)
  also have "word_of_int \<dots> = push_bit 4 (of_nat (unat v div 16)) + (of_nat (unat v mod 16) :: u8)"
    by (simp only: push_bit_eq_mult) (simp add: mult.commute)
  finally show ?thesis by (simp add: nibbles)
qed

definition fresh_parser :: Parser where
  "fresh_parser = \<lparr>p_state = PARSE_RESET, parse_idx = 0, checksum0 = 0, checksum1 = 0\<rparr>"

lemma chunks_packet:
  assumes "filled b = 0" "end_pkt_data b = 0" and "parse_idx p = 0"
    and "concat cs = bs"
  shows "parse_chunks ack cs p b = parse_loop ack p (fed bs b)"
  using assms
proof (induction cs arbitrary: bs)
  case Nil
  then show ?case by (simp add: parse_loop.simps)
next
  case (Cons c cs)
  obtain p1 b1 where l: "parse_loop ack p (fed c b) = (p1, b1)" by fastforce
  have "parse_loop ack p (fed (concat cs) (fed c b)) = parse_loop ack p1 (fed (concat cs) b1)"
    using parse_loop_fed [of "fed c b" ack p "concat cs"] l Cons.prems by simp
  moreover have "parse_chunks ack cs p1 b1 = parse_loop ack p1 (fed (concat cs) b1)"
    using feed_all [of b1 p1 ack cs] parse_loop_keeps [OF l] Cons.prems by auto
  ultimately show ?case using l Cons.prems(4) by (auto simp: sad_parser_pkt_def)
qed

text \<open>
  C35: a well-formed packet, arriving in any pieces, is accepted with the payload's bounds recorded:
  an acknowledgement, a payload without \<open>#\<close> and the checksum in two lower-case digits. With any
  other pair of digits it is accepted exactly when they denote the sum of the payload modulo 256.
\<close>

theorem packet_accepted:
  assumes "0x23 \<notin> set payload" and "p_state p = PARSE_RESET" "parse_idx p = 0"
    and "pdata b = []" "end_pkt_data b = 0"
    and "concat cs = packet payload (hex_of_bytes [payload_sum payload])"
    and "concat cs' = packet payload [d0, d1]"
  shows "(\<exists>p' b'. parse_chunks True cs p b = (p', b') \<and> p_state p' = PARSE_FINISHED
      \<and> start_pkt_data b' = 2 \<and> end_pkt_data b' = 2 + length payload \<and> pdata b' = concat cs)
    \<and> (\<exists>p' b'. parse_chunks True cs' p b = (p', b')
      \<and> p_state p' = (if word_of_int (strtol16 (takeWhile (\<lambda>d. d \<noteq> 0) [d0, d1])) = payload_sum payload
                       then PARSE_FINISHED else PARSE_ERROR))"
proof -
  have chunks: "parse_chunks True xs p b = parse_loop True p (fed bs b)" if "concat xs = bs" for xs bs
    by (rule chunks_packet) (use assms that in simp_all)
  have two: "hex_of_bytes [v] = [hex_chars ! unat (drop_bit 4 v), hex_chars ! unat (v AND 0xF)]" for v
    by simp
  have good: "pdata (fed (concat cs) b) = packet payload
      [hex_chars ! unat (drop_bit 4 (payload_sum payload)), hex_chars ! unat (payload_sum payload AND 0xF)]"
    using assms(4,6) unfolding two by simp
  have "\<exists>p' b'. parse_chunks True cs p b = (p', b') \<and> p_state p' = PARSE_FINISHED
      \<and> start_pkt_data b' = 2 \<and> end_pkt_data b' = 2 + length payload \<and> pdata b' = concat cs"
    using parse_packet [OF assms(1-3) good] strtol_hex_byte [of "payload_sum payload"]
    unfolding chunks [OF refl] two by (auto simp: assms(4))
  moreover have bad: "pdata (fed (concat cs') b) = packet payload [d0, d1]" using assms(4,7) by simp
  have "\<exists>p' b'. parse_chunks True cs' p b = (p', b')
      \<and> p_state p' = (if word_of_int (strtol16 (takeWhile (\<lambda>d. d \<noteq> 0) [d0, d1])) = payload_sum payload
                       then PARSE_FINISHED else PARSE_ERROR)"
    using parse_packet [OF assms(1-3) bad] unfolding chunks [OF refl] by blast
  ultimately show ?thesis by blast
qed

lemma packet_accepted_witness:
  "\<exists>p' b'. parse_chunks True [[0x2B, 0x24, 0x3F], [0x23, 0x33, 0x66]] fresh_parser
       \<lparr>initial_size = 128, start_pkt_data = 0, end_pkt_data = 0, data_size = 128, alloc_size = 128,
        pdata = []\<rparr> = (p', b')
     \<and> p_state p' = PARSE_FINISHED \<and> end_pkt_data b' = 3"
proof -
  have "concat [[0x2B, 0x24, 0x3F], [0x23, 0x33, 0x66]] = packet [0x3F] (hex_of_bytes [payload_sum [0x3F]])"
    by (simp add: packet_def payload_sum_def hex_chars_def)
  from packet_accepted [OF _ _ _ _ _ this, where p = fresh_parser and b = "\<lparr>initial_size = 128,
      start_pkt_data = 0, end_pkt_data = 0, data_size = 128, alloc_size = 128, pdata = []\<rparr>"
      and cs' = "[packet [0x3F] [0x33, 0x66]]" and ?d0.0 = "0x33" and ?d1.0 = "0x66"]
  show ?thesis by (auto simp: fresh_parser_def)
qed

section \<open>The allocation of the buffer\<close>

definition buff_ok :: "PKT_Buffer \<Rightarrow> bool" where
  "buff_ok b \<longleftrightarrow> alloc_size b = data_size b \<and> filled b \<le> data_size b \<and> 0 < data_size b"

lemma grow_to_cases:
  "grow_to oom n b =
    (if n > data_size b \<and> 0 < data_size b
     then if oom (data_size b * 2) then (b, BUFF_OOM)
          else grow_to oom n (b\<lparr>data_size := data_size b * 2, alloc_size := data_size b * 2\<rparr>)
     else (b, BUFF_OK))"
  by (subst grow_to.simps) (simp add: sad_buff_expand_def)

lemma grow_to_ok:
  "buff_ok b \<Longrightarrow> buff_ok (fst (grow_to oom n b)) \<and> pdata (fst (grow_to oom n b)) = pdata b
     \<and> (snd (grow_to oom n b) = BUFF_OK \<and> n \<le> data_size (fst (grow_to oom n b))
        \<or> snd (grow_to oom n b) = BUFF_OOM \<and> (\<exists>k. oom k))"
proof (induction "n - data_size b" arbitrary: b rule: less_induct)
  case less
  let ?b2 = "b\<lparr>data_size := data_size b * 2, alloc_size := data_size b * 2\<rparr>"
  consider "\<not> n > data_size b" | "n > data_size b" "oom (data_size b * 2)"
    | "n > data_size b" "\<not> oom (data_size b * 2)" by blast
  then show ?case
  proof cases
    case 3
    have "buff_ok ?b2" "n - data_size ?b2 < n - data_size b"
      using less.prems 3 by (auto simp: buff_ok_def)
    moreover have "grow_to oom n b = grow_to oom n ?b2"
      using 3 less.prems by (subst grow_to_cases) (simp add: buff_ok_def)
    ultimately show ?thesis using less.hyps [of ?b2] by simp
  qed (use less.prems grow_to_cases [of oom n b] in \<open>auto simp: buff_ok_def\<close>)
qed

text \<open>
  C37: appending to a buffer whose array has the size the code believes never writes past it and keeps
  it so, whatever the length: the data is there in the end, or the allocator refused and nothing was
  added. After a reset of a buffer that had grown to 4096 bytes or more the two sizes differ: the array
  is the initial one again, and an append that fits the old size writes past its end.
\<close>

theorem append_stays_in_buffer:
  "(buff_ok b \<longrightarrow> (\<exists>b' r. sad_buff_append oom b data = Inr (b', r) \<and> buff_ok b'
       \<and> (r = BUFF_OK \<and> pdata b' = pdata b @ data \<or> r = BUFF_OOM \<and> pdata b' = pdata b)
       \<and> ((\<forall>n. \<not> oom n) \<longrightarrow> r = BUFF_OK)))
   \<and> (MAX_BUFF_DATA_SIZE \<le> data_size b \<and> initial_size b < length data \<and> length data \<le> data_size b \<longrightarrow>
        sad_buff_append oom (sad_buff_reset oom b) data = Inl heap_overflow)"
proof -
  have "\<exists>b' r. sad_buff_append oom b data = Inr (b', r) \<and> buff_ok b'
       \<and> (r = BUFF_OK \<and> pdata b' = pdata b @ data \<or> r = BUFF_OOM \<and> pdata b' = pdata b)
       \<and> ((\<forall>n. \<not> oom n) \<longrightarrow> r = BUFF_OK)" if "buff_ok b"
  proof -
    obtain b1 r where g: "grow_to oom (filled b + length data) b = (b1, r)" by fastforce
    show ?thesis
      using grow_to_ok [OF that, of oom "filled b + length data"]
      by (auto simp: sad_buff_append_def buff_ok_def g)
  qed
  moreover have "grow_to oom n b' = (b', BUFF_OK)" if "n \<le> data_size b'" for n b'
    using that by (subst grow_to_cases) simp
  ultimately show ?thesis
    by (auto simp: sad_buff_append_def sad_buff_reset_def Let_def)
qed

lemma append_stays_in_buffer_witness:
  "sad_buff_append (\<lambda>n. False) (sad_buff_reset (\<lambda>n. False) \<lparr>initial_size = 128, start_pkt_data = 0,
     end_pkt_data = 0, data_size = 4096, alloc_size = 4096, pdata = []\<rparr>) (replicate 200 0x41)
   = Inl heap_overflow"
  using append_stays_in_buffer [of "\<lparr>initial_size = 128, start_pkt_data = 0, end_pkt_data = 0,
     data_size = 4096, alloc_size = 4096, pdata = []\<rparr>" "\<lambda>n. False" "replicate 200 0x41"]
  by (simp add: MAX_BUFF_DATA_SIZE_def)

end
