(* ===== verification/Gdb_Target.thy ===== *)
theory Gdb_Target
  imports Gdb_Parser
begin

text \<open>
  The global state of the GDB stub (stub.c, stubb_a_dub.h, sad_gdb_internal.h under
  src/include/stubb_a_dub), the target's parameters and register blocks (target.c) and the software
  breakpoints (breakpoint.c). The debugged system is reached through the table of functions
  \<open>Sys_Ops\<close> only; what the stub relies on from it is the locale \<open>debuggee\<close>, which theory \<open>Debug\<close>
  interprets on the functions of debug.c.
\<close>

unbundle bit_operations_syntax

section \<open>The state\<close>

datatype stub_ret = STUB_OK | STUB_OOM | STUB_SOCKET | STUB_ARCH | STUB_SMP | STUB_CLOSED
  | STUB_HALTED | STUB_UNEXPECTED

text \<open>The enumeration \<open>arch\<close> has the one value \<open>RV32\<close>; \<open>OTHER_ARCH\<close> stands for any other integer.\<close>

datatype arch = RV32 | OTHER_ARCH

record 's Sys_Ops =
  op_core_name :: "u32 \<Rightarrow> 's \<Rightarrow> u8 list result"
  op_read_reg :: "u32 \<Rightarrow> u32 \<Rightarrow> 's \<Rightarrow> u64 result"
  op_write_reg :: "u64 \<Rightarrow> u32 \<Rightarrow> u32 \<Rightarrow> 's \<Rightarrow> 's result"
  op_read_mem :: "nat \<Rightarrow> u64 \<Rightarrow> 's \<Rightarrow> u8 list result"
  op_write_mem :: "u8 list \<Rightarrow> u64 \<Rightarrow> 's \<Rightarrow> 's result"
  op_core_step :: "u32 \<Rightarrow> 's \<Rightarrow> 's result"
  op_core_continue :: "u32 \<Rightarrow> 's \<Rightarrow> 's result"
  op_cores_continue :: "'s \<Rightarrow> 's result"
  op_cores_halt :: "'s \<Rightarrow> 's result"
  op_is_halted :: "'s \<Rightarrow> bool"

record Sys_Conf =
  conf_arch :: arch
  pc_id :: u32
  regs_num :: u32
  smp :: u32
  memory_size :: u64

record Target_Conf =
  breakpoint_val :: u64
  reg_bytes :: nat
  reg_str_bytes :: nat
  regs_bytes :: nat
  regs_str_bytes :: nat
  brkpt_size :: nat

datatype breakpoint_status = BRK_EMPTY | BRK_FULL

datatype brk_ret = BRK_ERROR | BRK_INSERTED | BRK_REMOVED | BRK_STEPPED | BRK_NOT_FOUND

record Breakpoint =
  brk_addr :: u64
  brk_instr :: u64
  brk_status :: breakpoint_status

definition MAX_BREAKPOINTS :: nat where
  "MAX_BREAKPOINTS = 128"

text \<open>
  The globals of stub.c, the blocking mode of the client's socket, what was written to it, the
  allocator and the debugged
  system.
\<close>

record 's Stub =
  input_buffer_g :: PKT_Buffer
  output_buffer_g :: PKT_Buffer
  parser_g :: Parser
  selected_core :: u32
  ack_enabled_g :: bool
  sys_ops_g :: "'s Sys_Ops"
  sys_conf_g :: Sys_Conf
  breakpoints_g :: "Breakpoint list"
  target_conf_g :: Target_Conf
  sad_socket_blocks :: bool
  wire :: "u8 list"
  heap_full :: "nat \<Rightarrow> bool"
  sys :: 's

section \<open>The target\<close>

definition sad_target_init :: "'s Stub \<Rightarrow> stub_ret \<times> 's Stub" where
  "sad_target_init st = (case conf_arch (sys_conf_g st) of
     RV32 \<Rightarrow> (STUB_OK, st\<lparr>target_conf_g := \<lparr>breakpoint_val = 0x00100073, reg_bytes = 4, reg_str_bytes = 8,
               regs_bytes = 4 * unat (regs_num (sys_conf_g st)),
               regs_str_bytes = 8 * unat (regs_num (sys_conf_g st)), brkpt_size = 4\<rparr>\<rparr>)
   | OTHER_ARCH \<Rightarrow> (STUB_UNEXPECTED, st))"

text \<open>The low \<open>n\<close> bytes of a \<open>uint64_t\<close>, in the memory order of the host.\<close>

definition low_bytes :: "nat \<Rightarrow> u64 \<Rightarrow> u8 list" where
  "low_bytes n v = take n (bytes_of_word v)"

fun read_regs_from :: "'s Stub \<Rightarrow> u32 \<Rightarrow> nat list \<Rightarrow> u8 list result" where
  "read_regs_from st core_id [] = Inr []"
| "read_regs_from st core_id (r # rs) =
     and_then (op_read_reg (sys_ops_g st) core_id (of_nat r) (sys st)) (\<lambda>v.
     and_then (read_regs_from st core_id rs) (\<lambda>bs. Inr (low_bytes (reg_bytes (target_conf_g st)) v @ bs)))"

definition sad_target_read_regs :: "'s Stub \<Rightarrow> u32 \<Rightarrow> u8 list result" where
  "sad_target_read_regs st core_id = read_regs_from st core_id [0..<unat (regs_num (sys_conf_g st))]"

fun write_regs_from :: "u8 list \<Rightarrow> u32 \<Rightarrow> nat list \<Rightarrow> 's Stub \<Rightarrow> 's Stub result" where
  "write_regs_from bs core_id [] st = Inr st"
| "write_regs_from bs core_id (r # rs) st =
     (let n = reg_bytes (target_conf_g st); v = word_of_bytes (take n (drop (r * n) bs))
      in and_then (op_write_reg (sys_ops_g st) v core_id (of_nat r) (sys st)) (\<lambda>s.
           write_regs_from bs core_id rs (st\<lparr>sys := s\<rparr>)))"

definition sad_target_write_regs :: "u8 list \<Rightarrow> u32 \<Rightarrow> 's Stub \<Rightarrow> 's Stub result" where
  "sad_target_write_regs bs core_id st =
     write_regs_from bs core_id [0..<unat (regs_num (sys_conf_g st))] st"

section \<open>Breakpoints\<close>

fun first_empty :: "nat \<Rightarrow> Breakpoint list \<Rightarrow> nat option" where
  "first_empty i [] = None"
| "first_empty i (b # bs) = (if brk_status b = BRK_EMPTY then Some i else first_empty (i + 1) bs)"

definition sad_insert_breakpoint :: "u64 \<Rightarrow> 's Stub \<Rightarrow> (brk_ret \<times> 's Stub) result" where
  "sad_insert_breakpoint addr st =
    (let ops = sys_ops_g st; t = target_conf_g st
     in case first_empty 0 (breakpoints_g st) of
          None \<Rightarrow> Inr (BRK_ERROR, st)
        | Some i \<Rightarrow>
            and_then (op_read_mem ops (brkpt_size t) addr (sys st)) (\<lambda>bs.
              let instr = word_of_bytes bs
              in if instr \<noteq> breakpoint_val t
                 then and_then (op_write_mem ops (low_bytes (brkpt_size t) (breakpoint_val t)) addr (sys st)) (\<lambda>s.
                   Inr (BRK_INSERTED, st\<lparr>sys := s, breakpoints_g := (breakpoints_g st)[i :=
                     \<lparr>brk_addr = addr, brk_instr = instr, brk_status = BRK_FULL\<rparr>]\<rparr>))
                 else Inr (BRK_INSERTED, st)))"

fun find_from :: "nat \<Rightarrow> u64 \<Rightarrow> Breakpoint list \<Rightarrow> nat option" where
  "find_from i addr [] = None"
| "find_from i addr (b # bs) =
     (if brk_addr b = addr \<and> brk_status b = BRK_FULL then Some i else find_from (i + 1) addr bs)"

definition sad_find_breakpoint :: "u64 \<Rightarrow> 's Stub \<Rightarrow> nat option" where
  "sad_find_breakpoint addr st = find_from 0 addr (breakpoints_g st)"

definition sad_remove_breakpoint :: "u64 \<Rightarrow> 's Stub \<Rightarrow> (brk_ret \<times> 's Stub) result" where
  "sad_remove_breakpoint addr st = (case sad_find_breakpoint addr st of
     None \<Rightarrow> Inr (BRK_NOT_FOUND, st)
   | Some i \<Rightarrow>
       and_then (op_write_mem (sys_ops_g st) (low_bytes (brkpt_size (target_conf_g st))
           (brk_instr (breakpoints_g st ! i))) addr (sys st)) (\<lambda>s.
         Inr (BRK_REMOVED, st\<lparr>sys := s, breakpoints_g := (breakpoints_g st)[i :=
           (breakpoints_g st ! i)\<lparr>brk_status := BRK_EMPTY\<rparr>]\<rparr>)))"

text \<open>
  The \<open>assert\<close> between the step and the insertion tests that the pointer \<open>is_halted\<close> is not null,
  not that the system is halted.
\<close>

definition sad_step_the_breakpoint :: "u32 \<Rightarrow> 's Stub \<Rightarrow> (brk_ret \<times> 's Stub) result" where
  "sad_step_the_breakpoint core_idx st =
     and_then (op_read_reg (sys_ops_g st) core_idx (pc_id (sys_conf_g st)) (sys st)) (\<lambda>pc.
     and_then (sad_remove_breakpoint pc st) (\<lambda>(ret, st1).
       if ret = BRK_REMOVED
       then and_then (op_core_step (sys_ops_g st1) core_idx (sys st1)) (\<lambda>s.
            and_then (sad_insert_breakpoint pc (st1\<lparr>sys := s\<rparr>)) (\<lambda>(_, st2). Inr (BRK_STEPPED, st2)))
       else Inr (BRK_NOT_FOUND, st1)))"

definition sad_breakpoint_reset :: "'s Stub \<Rightarrow> 's Stub" where
  "sad_breakpoint_reset st =
     st\<lparr>breakpoints_g := map (\<lambda>b. b\<lparr>brk_status := BRK_EMPTY\<rparr>) (breakpoints_g st)\<rparr>"

fun hartid_from :: "'s Stub \<Rightarrow> nat list \<Rightarrow> int result" where
  "hartid_from st [] = Inr (-1)"
| "hartid_from st (i # is) =
     and_then (op_read_reg (sys_ops_g st) (of_nat i) (pc_id (sys_conf_g st)) (sys st)) (\<lambda>pc.
       if sad_find_breakpoint pc st \<noteq> None then Inr (int i) else hartid_from st is)"

definition sad_breakpoint_hartid :: "'s Stub \<Rightarrow> int result" where
  "sad_breakpoint_hartid st = hartid_from st [0..<unat (smp (sys_conf_g st))]"

section \<open>What the stub relies on\<close>

definition overwrite :: "(nat \<Rightarrow> u8) \<Rightarrow> nat \<Rightarrow> u8 list \<Rightarrow> nat \<Rightarrow> u8" where
  "overwrite f p bs = (\<lambda>i. if p \<le> i \<and> i < p + length bs then bs ! (i - p) else f i)"

text \<open>
  A debugged system whose memory of \<open>limit\<close> bytes holds \<open>content\<close> and whose \<open>cores\<close> cores have the
  registers \<open>regval\<close>: reads show it, writes change exactly what they name.
\<close>

locale debuggee =
  fixes ops :: "'s Sys_Ops" and well :: "'s \<Rightarrow> bool" and content :: "'s \<Rightarrow> nat \<Rightarrow> u8"
    and regval :: "'s \<Rightarrow> nat \<Rightarrow> nat \<Rightarrow> u32" and limit cores nregs :: nat
  assumes read_mem: "well s \<Longrightarrow> unat a + n \<le> limit \<Longrightarrow>
      op_read_mem ops n a s = Inr (map (content s) [unat a..<unat a + n])"
    and write_mem: "well s \<Longrightarrow> unat a + length bs \<le> limit \<Longrightarrow>
      \<exists>s'. op_write_mem ops bs a s = Inr s' \<and> well s' \<and> regval s' = regval s
        \<and> content s' = overwrite (content s) (unat a) bs"
    and read_reg: "well s \<Longrightarrow> unat c < cores \<Longrightarrow> unat r < nregs \<Longrightarrow>
      op_read_reg ops c r s = Inr (ucast (regval s (unat c) (unat r)))"
    and write_reg: "well s \<Longrightarrow> unat c < cores \<Longrightarrow> unat r < nregs \<Longrightarrow>
      \<exists>s'. op_write_reg ops v c r s = Inr s' \<and> well s' \<and> content s' = content s
        \<and> regval s' = (regval s)(unat c := (regval s (unat c))(unat r := ucast v))"

end
