(* ===== verification/Gdb_Builder.thy ===== *)
theory Gdb_Builder
  imports Gdb_Target
begin

text \<open>
  The command handlers of the GDB stub: the scanner of a packet's fields (extract.c), the table of
  commands (supported.h, supported.c), one definition per handler, and the frame of a reply
  (builder.c, under src/include/stubb_a_dub/src). A handler that returns early is a branch; the
  \<open>extract_val\<close> macro is \<open>extract_val\<close> with the rest of the handler as its argument. The arrays on
  the stack whose length a packet chooses are lists; the size of the stack is not modelled.
\<close>

unbundle bit_operations_syntax

section \<open>C strings and sprintf\<close>

definition ascii :: "string \<Rightarrow> u8 list" where
  "ascii s = map of_char s"

definition c_str :: "PKT_Buffer \<Rightarrow> nat \<Rightarrow> u8 list" where
  "c_str b p = takeWhile (\<lambda>c. c \<noteq> 0) (drop p (pdata b))"

text \<open>The conversions \<open>%u\<close>, \<open>%d\<close> and \<open>%02x\<close>.\<close>

fun dec_digits :: "nat \<Rightarrow> u8 list" where
  "dec_digits n = (if n < 10 then [0x30 + of_nat n] else dec_digits (n div 10) @ [0x30 + of_nat (n mod 10)])"

fun hex_digits :: "nat \<Rightarrow> u8 list" where
  "hex_digits n = (if n < 16 then [hex_chars ! n] else hex_digits (n div 16) @ [hex_chars ! (n mod 16)])"

declare dec_digits.simps [simp del] hex_digits.simps [simp del]

definition fmt_u :: "u32 \<Rightarrow> u8 list" where
  "fmt_u v = dec_digits (unat v)"

definition fmt_d :: "u32 \<Rightarrow> u8 list" where
  "fmt_d v = (if sint v < 0 then 0x2D # dec_digits (nat (- sint v)) else dec_digits (nat (sint v)))"

definition fmt_02x :: "u32 \<Rightarrow> u8 list" where
  "fmt_02x v = (if v < 16 then 0x30 # hex_digits (unat v) else hex_digits (unat v))"

text \<open>\<open>sprintf\<close> into an array of \<open>n\<close> characters.\<close>

definition sprintf :: "nat \<Rightarrow> u8 list \<Rightarrow> (u8 list \<Rightarrow> 'a result) \<Rightarrow> 'a result" where
  "sprintf n s k = (if length s < n then k s else Inl (Undefined ''sprintf past the end of an array''))"

text \<open>\<open>strtol\<close> saturates at the ends of \<open>long\<close>.\<close>

definition LONG_MAX :: int where "LONG_MAX = 2 ^ 63 - 1"
definition LONG_MIN :: int where "LONG_MIN = - (2 ^ 63)"

definition strtol :: "u8 list \<Rightarrow> int" where
  "strtol cs = max LONG_MIN (min LONG_MAX (strtol16 cs))"

section \<open>Fields of a packet\<close>

text \<open>
  The scan for the terminator starts at the second byte and stops at the packet's end at the latest;
  \<open>None\<close> is \<open>EOB\<close>. The result is the index of the field, the next cursor and the buffer, in which
  the field is ended by a zero byte.
\<close>

fun token_len :: "u8 option \<Rightarrow> u8 list \<Rightarrow> nat" where
  "token_len term [] = 0"
| "token_len term (x # xs) = (if term = Some x then 1 else 1 + token_len term xs)"

definition sad_cursor_tokenizer :: "nat \<Rightarrow> u8 option \<Rightarrow> PKT_Buffer \<Rightarrow> (nat \<times> nat \<times> PKT_Buffer) result" where
  "sad_cursor_tokenizer cursor term b =
    (if cursor = end_pkt_data b + 1
     then Inl (Assert_Failed ''*(cursor) -1 != input_buffer_g->end_pkt_data'')
     else if cursor > end_pkt_data b \<or> end_pkt_data b \<ge> filled b
     then Inl (Undefined ''scan past the end of the packet'')
     else let idx = token_len term (take (end_pkt_data b - cursor) (drop (cursor + 1) (pdata b)))
          in Inr (cursor, cursor + idx + 1, b\<lparr>pdata := (pdata b)[cursor + idx := 0]\<rparr>))"

definition sad_extract_str :: "nat \<Rightarrow> u8 option \<Rightarrow> PKT_Buffer \<Rightarrow> (nat \<times> nat \<times> PKT_Buffer) result" where
  "sad_extract_str cursor term b = sad_cursor_tokenizer cursor term b"

definition sad_extract_uint32 :: "nat \<Rightarrow> u8 option \<Rightarrow> PKT_Buffer \<Rightarrow> (u32 option \<times> nat \<times> PKT_Buffer) result" where
  "sad_extract_uint32 cursor term b =
     and_then (sad_cursor_tokenizer cursor term b) (\<lambda>(start, cursor, b).
       let v = strtol (c_str b start)
       in Inr (if v > 0xFFFFFFFF \<or> v < 0 then None else Some (word_of_int v), cursor, b))"

definition sad_extract_uint64 :: "nat \<Rightarrow> u8 option \<Rightarrow> PKT_Buffer \<Rightarrow> (u64 option \<times> nat \<times> PKT_Buffer) result" where
  "sad_extract_uint64 cursor term b =
     and_then (sad_cursor_tokenizer cursor term b) (\<lambda>(start, cursor, b).
       let v = strtol (c_str b start)
       in Inr (if v = LONG_MAX \<or> v < 0 then None else Some (word_of_int v), cursor, b))"

definition sad_extract_long :: "nat \<Rightarrow> u8 option \<Rightarrow> PKT_Buffer \<Rightarrow> (int option \<times> nat \<times> PKT_Buffer) result" where
  "sad_extract_long cursor term b =
     and_then (sad_cursor_tokenizer cursor term b) (\<lambda>(start, cursor, b).
       let v = strtol (c_str b start)
       in Inr (if v = LONG_MAX \<or> v = LONG_MIN then None else Some v, cursor, b))"

section \<open>Writing the reply\<close>

text \<open>The handlers ignore what \<open>sad_buff_append\<close> returns.\<close>

definition reply :: "u8 list \<Rightarrow> 's Stub \<Rightarrow> 's Stub result" where
  "reply data st =
     and_then (sad_buff_append (heap_full st) (output_buffer_g st) data) (\<lambda>(b, _).
       Inr (st\<lparr>output_buffer_g := b\<rparr>))"

abbreviation reply_str :: "string \<Rightarrow> 's Stub \<Rightarrow> 's Stub result" where
  "reply_str s \<equiv> reply (ascii s)"

definition extract_val ::
    "(nat \<Rightarrow> u8 option \<Rightarrow> PKT_Buffer \<Rightarrow> ('v option \<times> nat \<times> PKT_Buffer) result) \<Rightarrow> nat \<Rightarrow> u8 option
     \<Rightarrow> ('v \<Rightarrow> nat \<Rightarrow> 's Stub \<Rightarrow> 's Stub result) \<Rightarrow> 's Stub \<Rightarrow> 's Stub result" where
  "extract_val ext cursor term k st =
     and_then (ext cursor term (input_buffer_g st)) (\<lambda>(v, cursor, b).
       let st = st\<lparr>input_buffer_g := b\<rparr>
       in case v of None \<Rightarrow> reply_str ''E'' st | Some x \<Rightarrow> k x cursor st)"

abbreviation (input) EOB :: "u8 option" where "EOB \<equiv> None"
abbreviation (input) EQUALS :: "u8 option" where "EQUALS \<equiv> Some 0x3D"
abbreviation (input) COMMA :: "u8 option" where "COMMA \<equiv> Some 0x2C"
abbreviation (input) COLON :: "u8 option" where "COLON \<equiv> Some 0x3A"
abbreviation (input) SEMICOLON :: "u8 option" where "SEMICOLON \<equiv> Some 0x3B"

section \<open>Registers\<close>

definition build_p :: "'s Stub \<Rightarrow> 's Stub result" where
  "build_p st =
     extract_val sad_extract_uint32 (start_pkt_data (input_buffer_g st) + 1) EOB (\<lambda>reg_id cursor st.
       if reg_id \<ge> regs_num (sys_conf_g st) then reply_str ''E'' st
       else and_then (op_read_reg (sys_ops_g st) (selected_core st) reg_id (sys st)) (\<lambda>r.
              reply (snd (sad_bytes_to_hex_chars (low_bytes (reg_bytes (target_conf_g st)) r)
                (reg_str_bytes (target_conf_g st)))) st)) st"

definition build_P :: "'s Stub \<Rightarrow> 's Stub result" where
  "build_P st =
     extract_val sad_extract_uint32 (start_pkt_data (input_buffer_g st) + 1) EQUALS (\<lambda>reg_id cursor.
     extract_val sad_extract_uint64 cursor EOB (\<lambda>r cursor st.
       if reg_id \<ge> regs_num (sys_conf_g st) then reply_str ''E'' st
       else and_then (op_write_reg (sys_ops_g st) r (selected_core st) reg_id (sys st)) (\<lambda>s.
              reply_str ''OK'' (st\<lparr>sys := s\<rparr>)))) st"

definition build_g :: "'s Stub \<Rightarrow> 's Stub result" where
  "build_g st =
     and_then (sad_target_read_regs st (selected_core st)) (\<lambda>bs.
       if regs_bytes (target_conf_g st) * 2 \<noteq> regs_str_bytes (target_conf_g st)
       then Inl (Assert_Failed ''(sizeof(regs_bytes) * 2) == sizeof(regs_chars)'')
       else reply (snd (sad_bytes_to_hex_chars bs (regs_str_bytes (target_conf_g st)))) st)"

text \<open>The loop of \<open>build_G\<close>: a register with a non-hexadecimal digit keeps its old bytes.\<close>

fun merge_regs :: "Target_Conf \<Rightarrow> u8 list \<Rightarrow> u8 list \<Rightarrow> nat list \<Rightarrow> u8 list" where
  "merge_regs t regs_str old [] = old"
| "merge_regs t regs_str old (i # is) =
     (let (ret, bs) = sad_hex_chars_to_bytes (take (reg_str_bytes t) (drop (i * reg_str_bytes t) regs_str))
            (reg_bytes t)
      in if ret = UTIL_X then merge_regs t regs_str old is
         else merge_regs t regs_str
           (take (i * reg_bytes t) old @ bs @ drop (i * reg_bytes t + reg_bytes t) old) is)"

definition build_G :: "'s Stub \<Rightarrow> 's Stub result" where
  "build_G st =
     and_then (sad_extract_str (start_pkt_data (input_buffer_g st) + 1) EOB (input_buffer_g st))
       (\<lambda>(start, _, b).
       let st = st\<lparr>input_buffer_g := b\<rparr>; regs_str = c_str b start; t = target_conf_g st
       in if length regs_str \<noteq> regs_str_bytes t then reply_str ''E'' st
          else and_then (sad_target_read_regs st (selected_core st)) (\<lambda>old.
               and_then (sad_target_write_regs
                   (merge_regs t regs_str old [0..<unat (regs_num (sys_conf_g st))]) (selected_core st) st)
                 (reply_str ''OK'')))"

section \<open>Memory\<close>

definition build_m :: "'s Stub \<Rightarrow> 's Stub result" where
  "build_m st =
     extract_val sad_extract_uint64 (start_pkt_data (input_buffer_g st) + 1) COMMA (\<lambda>addr cursor.
     extract_val sad_extract_uint64 cursor EOB (\<lambda>len cursor st.
       if addr + len \<ge> memory_size (sys_conf_g st) then reply_str ''E'' st
       else and_then (op_read_mem (sys_ops_g st) (unat len) addr (sys st)) (\<lambda>mem.
              reply (snd (sad_bytes_to_hex_chars mem (2 * unat len))) st))) st"

definition sad_hex_str_to_bytes :: "u8 list \<Rightarrow> nat \<Rightarrow> util_ret \<times> u8 list" where
  "sad_hex_str_to_bytes src dest_size = sad_hex_chars_to_bytes src dest_size"

text \<open>
  A digit that is not hexadecimal leaves the rest of the array \<open>data\<close> as it was on the stack; the
  result of the decoder is not looked at.
\<close>

definition build_M :: "'s Stub \<Rightarrow> 's Stub result" where
  "build_M st =
     extract_val sad_extract_uint64 (start_pkt_data (input_buffer_g st) + 1) COMMA (\<lambda>addr cursor.
     extract_val sad_extract_uint64 cursor COLON (\<lambda>len cursor st.
       if addr + len \<ge> memory_size (sys_conf_g st) then reply_str ''E'' st
       else and_then (sad_extract_str cursor EOB (input_buffer_g st)) (\<lambda>(start, _, b).
         let st = st\<lparr>input_buffer_g := b\<rparr>; mem_str = c_str b start
         in if length mem_str \<noteq> 2 * unat len then reply_str ''E'' st
            else case sad_hex_str_to_bytes mem_str (unat len) of
                   (UTIL_OK, data) \<Rightarrow> and_then (op_write_mem (sys_ops_g st) data addr (sys st)) (\<lambda>s.
                     reply_str ''OK'' (st\<lparr>sys := s\<rparr>))
                 | _ \<Rightarrow> Inl (Undefined ''uninitialised bytes written to the memory'')))) st"

section \<open>Queries\<close>

definition build_qstmrk :: "'s Stub \<Rightarrow> 's Stub result" where
  "build_qstmrk st = reply_str ''S05'' st"

definition build_T :: "'s Stub \<Rightarrow> 's Stub result" where
  "build_T st = reply_str ''OK'' st"

definition build_unsupported :: "'s Stub \<Rightarrow> 's Stub result" where
  "build_unsupported st = Inr st"

definition build_Q :: "'s Stub \<Rightarrow> 's Stub result" where
  "build_Q st =
     and_then (sad_extract_str (start_pkt_data (input_buffer_g st)) COLON (input_buffer_g st))
       (\<lambda>(start, _, b).
       let st = st\<lparr>input_buffer_g := b\<rparr>
       in if c_str b start = ascii ''QStartNoAckMode'' then reply_str ''OK'' (st\<lparr>ack_enabled_g := False\<rparr>)
          else Inr st)"

text \<open>The ids of the threads after the first: \<open>%u,\<close> for all but the last.\<close>

fun thread_ids :: "nat list \<Rightarrow> 's Stub \<Rightarrow> 's Stub result" where
  "thread_ids [] st = Inr st"
| "thread_ids (i # is) st =
     sprintf 16 (fmt_u (of_nat i) @ [0x2C]) (\<lambda>s. and_then (reply s st) (thread_ids is))"

text \<open>
  \<open>qThreadExtraInfo\<close>. Both fields start at the packet's first byte: the second scan puts another
  zero byte into the same buffer, in which the later tests read the command again.
\<close>

definition thread_extra_info :: "nat \<Rightarrow> ('s Stub \<Rightarrow> 's Stub result) \<Rightarrow> 's Stub \<Rightarrow> 's Stub result" where
  "thread_extra_info cursor_extra k =
     extract_val sad_extract_uint32 cursor_extra EOB (\<lambda>thread_id cursor st.
       if thread_id - 1 \<ge> smp (sys_conf_g st) then reply_str ''E'' st
       else and_then (op_core_name (sys_ops_g st)
              (if thread_id = 0 then selected_core st else thread_id - 1) (sys st)) (\<lambda>core_name.
            and_then (reply (snd (sad_bytes_to_hex_chars core_name (2 * length core_name))) st) k))"

definition thread_info :: "'s Stub \<Rightarrow> 's Stub result" where
  "thread_info st =
     and_then (reply_str ''m'' st) (\<lambda>st.
     and_then (thread_ids [1..<unat (smp (sys_conf_g st))] st) (\<lambda>st.
       sprintf 16 (fmt_u (if smp (sys_conf_g st) > 1 then smp (sys_conf_g st) else 1)) (\<lambda>s. reply s st)))"

definition query :: "nat \<Rightarrow> string \<Rightarrow> ('s Stub \<Rightarrow> 's Stub result) \<Rightarrow> 's Stub \<Rightarrow> 's Stub result" where
  "query command name f st = (if c_str (input_buffer_g st) command = ascii name then f st else Inr st)"

definition build_q :: "'s Stub \<Rightarrow> 's Stub result" where
  "build_q st =
    (let at = start_pkt_data (input_buffer_g st)
     in and_then (sad_extract_str at COLON (input_buffer_g st)) (\<lambda>(command, _, b).
        and_then (sad_extract_str at COMMA b) (\<lambda>(command_extra, cursor_extra, b).
          let st = st\<lparr>input_buffer_g := b\<rparr>;
              others = (\<lambda>st.
                and_then (query command ''qSupported'' (reply_str ''swbreak+;vCont+;QStartNoAckMode+'') st) (\<lambda>st.
                and_then (query command ''qfThreadInfo'' thread_info st) (\<lambda>st.
                and_then (query command ''qsThreadInfo'' (reply_str ''l'') st) (\<lambda>st.
                and_then (query command ''qC'' (\<lambda>st. sprintf 10 (ascii ''QC'' @ fmt_u (selected_core st + 1))
                    (\<lambda>s. reply s st)) st)
                  (query command ''qSymbol'' (reply_str ''OK''))))))
          in if take 16 (c_str b command_extra) = ascii ''qThreadExtraInfo''
             then thread_extra_info cursor_extra others st else others st)))"

section \<open>Thread selection and breakpoints\<close>

definition build_H :: "'s Stub \<Rightarrow> 's Stub result" where
  "build_H st =
    (let at = start_pkt_data (input_buffer_g st)
     in and_then (sad_extract_str at EOB (input_buffer_g st)) (\<lambda>(command, _, b).
        let st = st\<lparr>input_buffer_g := b\<rparr>
        in if take 2 (c_str b command) \<noteq> ascii ''Hg'' then Inr st
           else extract_val sad_extract_uint32 (at + 2) EOB (\<lambda>thread_id cursor st.
             if thread_id = 0 then reply_str ''OK'' (st\<lparr>selected_core := thread_id\<rparr>)
             else if thread_id - 1 \<ge> smp (sys_conf_g st) then reply_str ''E'' st
             else reply_str ''OK'' (st\<lparr>selected_core := thread_id - 1\<rparr>)) st))"

text \<open>The tests that \<open>Z\<close> and \<open>z\<close> share, after their three fields.\<close>

definition brk_request ::
    "u32 \<Rightarrow> u64 \<Rightarrow> u32 \<Rightarrow> (u64 \<Rightarrow> 's Stub \<Rightarrow> (brk_ret \<times> 's Stub) result) \<Rightarrow> brk_ret \<Rightarrow> 's Stub \<Rightarrow> 's Stub result" where
  "brk_request type addr kind f good st =
    (if addr \<ge> memory_size (sys_conf_g st) then reply_str ''E'' st
     else if unat kind \<noteq> brkpt_size (target_conf_g st) then reply_str ''E'' st
     else if type \<noteq> 0 then reply_str ''E'' st
     else and_then (f addr st) (\<lambda>(ret, st). if ret \<noteq> good then reply_str ''E'' st else reply_str ''OK'' st))"

definition build_Z :: "'s Stub \<Rightarrow> 's Stub result" where
  "build_Z st =
     extract_val sad_extract_uint32 (start_pkt_data (input_buffer_g st) + 1) COMMA (\<lambda>type cursor.
     extract_val sad_extract_uint64 cursor COMMA (\<lambda>addr cursor.
     extract_val sad_extract_uint32 cursor SEMICOLON (\<lambda>kind cursor.
       brk_request type addr kind sad_insert_breakpoint BRK_INSERTED))) st"

definition build_z :: "'s Stub \<Rightarrow> 's Stub result" where
  "build_z st =
     extract_val sad_extract_uint32 (start_pkt_data (input_buffer_g st) + 1) COMMA (\<lambda>type cursor.
     extract_val sad_extract_uint64 cursor COMMA (\<lambda>addr cursor.
     extract_val sad_extract_uint32 cursor EOB (\<lambda>kind cursor.
       brk_request type addr kind sad_remove_breakpoint BRK_REMOVED))) st"

section \<open>Running the system\<close>

text \<open>
  One round of \<open>wait_for_halt\<close>: what the other threads of the process have done since the last one,
  and what \<open>read\<close> returns (\<open>None\<close> with \<open>w_would_block\<close> for EAGAIN).
\<close>

record 's wait_event =
  w_run :: "'s \<Rightarrow> 's"
  w_read :: "u8 list option"
  w_would_block :: bool

definition sad_socket_blocking :: "bool \<Rightarrow> 's Stub \<Rightarrow> 's Stub" where
  "sad_socket_blocking blocking st = st\<lparr>sad_socket_blocks := blocking\<rparr>"

definition buff_at :: "PKT_Buffer \<Rightarrow> nat \<Rightarrow> u8 result" where
  "buff_at b i = (if i < filled b then Inr (pdata b ! i)
     else Inl (Undefined ''byte outside the filled part of the buffer''))"

fun wait_loop :: "'s wait_event list \<Rightarrow> 's Stub \<Rightarrow> (bool \<times> 's Stub) result" where
  "wait_loop [] st = Inl Out_Of_Fuel"
| "wait_loop (ev # evs) st =
     (let st = st\<lparr>sys := w_run ev (sys st)\<rparr>
      in and_then (sad_buff_from_socket (heap_full st) (input_buffer_g st) (w_read ev) (w_would_block ev)) (\<lambda>(b, _).
         let st = st\<lparr>input_buffer_g := b\<rparr>
         in and_then (if filled b = 0 then Inl (Undefined ''data[-1]'') else buff_at b (filled b - 1)) (\<lambda>c.
            if c = 0x03 then and_then (op_cores_halt (sys_ops_g st) (sys st)) (\<lambda>s. Inr (False, st\<lparr>sys := s\<rparr>))
            else if op_is_halted (sys_ops_g st) (sys st) then Inr (True, st)
            else wait_loop evs st)))"

definition wait_for_halt :: "'s wait_event list \<Rightarrow> 's Stub \<Rightarrow> (bool \<times> 's Stub) result" where
  "wait_for_halt evs st =
     and_then (wait_loop evs (sad_socket_blocking False st)) (\<lambda>(stop, st). Inr (stop, sad_socket_blocking True st))"

fun step_breakpoints :: "nat list \<Rightarrow> 's Stub \<Rightarrow> 's Stub result" where
  "step_breakpoints [] st = Inr st"
| "step_breakpoints (i # is) st =
     and_then (sad_step_the_breakpoint (of_nat i) st) (\<lambda>(_, st). step_breakpoints is st)"

text \<open>The \<open>switch\<close> on the action; \<open>None\<close> is its early return.\<close>

definition vcont_action :: "u8 \<Rightarrow> int \<Rightarrow> 's Stub \<Rightarrow> 's Stub option result" where
  "vcont_action action thread_id st =
    (let ops = sys_ops_g st
     in if action = 0x63 then
          and_then
            (if thread_id = -1
             then and_then (step_breakpoints [0..<unat (smp (sys_conf_g st))] st) (\<lambda>st.
                  and_then (op_cores_continue ops (sys st)) (\<lambda>s. Inr (st\<lparr>sys := s\<rparr>)))
             else and_then (sad_step_the_breakpoint (word_of_int thread_id) st) (\<lambda>(_, st).
                  and_then (op_core_continue ops (word_of_int thread_id) (sys st)) (\<lambda>s. Inr (st\<lparr>sys := s\<rparr>))))
            (\<lambda>st. Inr (Some st))
        else if action = 0x73 then
          (if thread_id = -1 then Inr None
           else and_then (sad_step_the_breakpoint (word_of_int thread_id) st) (\<lambda>(brk_ret, st).
                if brk_ret = BRK_NOT_FOUND
                then and_then (op_core_step ops (word_of_int thread_id) (sys st)) (\<lambda>s. Inr (Some (st\<lparr>sys := s\<rparr>)))
                else Inr (Some st)))
        else Inr None)"

fun stop_regs :: "u32 \<Rightarrow> nat list \<Rightarrow> 's Stub \<Rightarrow> 's Stub result" where
  "stop_regs halter_id [] st = Inr st"
| "stop_regs halter_id (r # rs) st =
     and_then (op_read_reg (sys_ops_g st) halter_id (of_nat r) (sys st)) (\<lambda>v.
       sprintf 16 (fmt_02x (of_nat r) @ [0x3A]) (\<lambda>s.
       and_then (reply s st) (\<lambda>st.
       and_then (reply (snd (sad_bytes_to_hex_chars (low_bytes (reg_bytes (target_conf_g st)) v)
          (reg_str_bytes (target_conf_g st)))) st) (\<lambda>st.
       and_then (reply_str '';'' st) (stop_regs halter_id rs)))))"

definition stop_reply :: "int \<Rightarrow> 's Stub \<Rightarrow> 's Stub result" where
  "stop_reply thread_id st =
     and_then (reply_str ''T05swbreak:;'' st) (\<lambda>st.
     and_then (if thread_id = -1 then sad_breakpoint_hartid st else Inr thread_id) (\<lambda>halter_id.
       if thread_id = -1 \<and> halter_id = -1 then Inr st
       else sprintf 16 (ascii ''thread:'' @ fmt_d (word_of_int halter_id + 1) @ ascii '';'') (\<lambda>s.
            and_then (reply s st) (\<lambda>st.
            sprintf 16 (ascii ''core:'' @ fmt_d (word_of_int halter_id + 1) @ ascii '';'') (\<lambda>s.
            and_then (reply s st) (
            stop_regs (word_of_int halter_id) [0..<unat (regs_num (sys_conf_g st))]))))))"

definition vcont_run :: "'s wait_event list \<Rightarrow> u8 \<Rightarrow> int \<Rightarrow> 's Stub \<Rightarrow> 's Stub result" where
  "vcont_run waits action thread_id st =
    (if thread_id - 1 \<ge> uint (smp (sys_conf_g st)) \<or> thread_id < -1 then reply_str ''E'' st
     else let thread_id = (if thread_id = 0 then uint (selected_core st) else thread_id);
              thread_id = (if thread_id > 0 then thread_id - 1 else thread_id)
          in and_then (vcont_action action thread_id st) (\<lambda>r. case r of
               None \<Rightarrow> reply_str ''E'' st
             | Some st \<Rightarrow> and_then (wait_for_halt waits st) (\<lambda>(stop, st).
                 if \<not> stop then reply_str ''S02'' st else stop_reply thread_id st)))"

definition build_v :: "'s wait_event list \<Rightarrow> 's Stub \<Rightarrow> 's Stub result" where
  "build_v waits st =
     and_then (sad_extract_str (start_pkt_data (input_buffer_g st)) SEMICOLON (input_buffer_g st))
       (\<lambda>(command, cursor, b).
       let st = st\<lparr>input_buffer_g := b\<rparr>
       in if c_str b command = ascii ''vCont?'' then reply_str ''s;c'' st
          else if c_str b command = ascii ''vCont'' then
            and_then (buff_at b cursor) (\<lambda>action.
            and_then (buff_at b (cursor + 1)) (\<lambda>colon.
              if colon = 0x3A
              then extract_val sad_extract_long (cursor + 2) COLON (\<lambda>thread_id cursor.
                     vcont_run waits action thread_id) st
              else vcont_run waits action (-1) st))
          else Inr st)"

section \<open>The table of commands and the reply\<close>

datatype cmd_type = COMMAND_p | COMMAND_P | COMMAND_q | COMMAND_Q | COMMAND_qstmrk | COMMAND_m | COMMAND_M
  | COMMAND_G | COMMAND_g | COMMAND_T | COMMAND_z | COMMAND_Z | COMMAND_H | COMMAND_v | COMMAND_unsupported

definition supported_cmds :: "(u8 \<times> cmd_type) list" where
  "supported_cmds = [(0x70, COMMAND_p), (0x50, COMMAND_P), (0x71, COMMAND_q), (0x51, COMMAND_Q),
     (0x3F, COMMAND_qstmrk), (0x6D, COMMAND_m), (0x4D, COMMAND_M), (0x47, COMMAND_G), (0x67, COMMAND_g),
     (0x54, COMMAND_T), (0x7A, COMMAND_z), (0x5A, COMMAND_Z), (0x48, COMMAND_H), (0x76, COMMAND_v),
     (0x30, COMMAND_unsupported)]"

definition supported_idx :: "u8 \<Rightarrow> cmd_type" where
  "supported_idx c = (case map_of supported_cmds c of None \<Rightarrow> COMMAND_unsupported | Some t \<Rightarrow> t)"

fun build :: "cmd_type \<Rightarrow> 's wait_event list \<Rightarrow> 's Stub \<Rightarrow> 's Stub result" where
  "build COMMAND_p waits st = build_p st"
| "build COMMAND_P waits st = build_P st"
| "build COMMAND_q waits st = build_q st"
| "build COMMAND_Q waits st = build_Q st"
| "build COMMAND_qstmrk waits st = build_qstmrk st"
| "build COMMAND_m waits st = build_m st"
| "build COMMAND_M waits st = build_M st"
| "build COMMAND_G waits st = build_G st"
| "build COMMAND_g waits st = build_g st"
| "build COMMAND_T waits st = build_T st"
| "build COMMAND_z waits st = build_z st"
| "build COMMAND_Z waits st = build_Z st"
| "build COMMAND_H waits st = build_H st"
| "build COMMAND_v waits st = build_v waits st"
| "build COMMAND_unsupported waits st = build_unsupported st"

definition sad_builder_build_resp :: "'s wait_event list \<Rightarrow> 's Stub \<Rightarrow> 's Stub result" where
  "sad_builder_build_resp waits st =
     and_then (buff_at (input_buffer_g st) (start_pkt_data (input_buffer_g st))) (\<lambda>data_str.
     and_then (reply_str (if ack_enabled_g st then ''+$'' else ''$'') st) (\<lambda>st.
       let st = st\<lparr>output_buffer_g := (output_buffer_g st)\<lparr>start_pkt_data := filled (output_buffer_g st)\<rparr>\<rparr>
       in and_then (build (supported_idx data_str) waits st) (\<lambda>st.
          let st = st\<lparr>output_buffer_g := (output_buffer_g st)\<lparr>end_pkt_data := filled (output_buffer_g st)\<rparr>\<rparr>
          in and_then (reply_str ''#'' st) (\<lambda>st.
             let checksum = sad_buff_checksum (output_buffer_g st)
             in sprintf 3 (fmt_02x (ucast checksum)) (\<lambda>s. reply s st)))))"

end
