(* ===== verification/Gdb_Stub.thy ===== *)
theory Gdb_Stub
  imports Gdb_Builder
begin

text \<open>
  The stub's life cycle and its main loop (stub.c) and the writing of a buffer to the socket (end of
  buffer.c), under src/include/stubb_a_dub/src. The socket is a parameter: what \<open>read\<close> and \<open>write\<close>
  return is given event by event, and \<open>wire\<close> collects what was written.
\<close>

unbundle bit_operations_syntax

section \<open>Writing to the socket\<close>

datatype write_result = W_Wrote nat | W_Again | W_Fail

text \<open>
  The loop of \<open>sad_buff_to_socket\<close> over the results of \<open>write\<close> other than EINTR; \<open>write\<close> returns at
  most the length it is given. \<open>None\<close>: still writing when the results end.
\<close>

fun to_socket :: "u8 list \<Rightarrow> write_result list \<Rightarrow> u8 list \<times> buff_ret option" where
  "to_socket [] ws = ([], Some BUFF_OK)"
| "to_socket (c # cs) [] = ([], None)"
| "to_socket (c # cs) (w # ws) = (case w of
     W_Again \<Rightarrow> ([], Some BUFF_WOULD_BLOCK)
   | W_Fail \<Rightarrow> ([], Some BUFF_FD_ERR)
   | W_Wrote n \<Rightarrow> if n = 0 then ([], Some BUFF_FD_ERR)
       else (let (sent, r) = to_socket (drop n (c # cs)) ws in (take n (c # cs) @ sent, r)))"

definition sad_buff_to_socket :: "write_result list \<Rightarrow> 's Stub \<Rightarrow> (buff_ret \<times> 's Stub) result" where
  "sad_buff_to_socket ws st =
    (let (sent, r) = to_socket (pdata (output_buffer_g st)) ws; st = st\<lparr>wire := wire st @ sent\<rparr>
     in case r of None \<Rightarrow> Inl Out_Of_Fuel | Some r \<Rightarrow> Inr (r, st))"

section \<open>Resetting and initialising\<close>

definition sad_stub_reset_input_state :: "'s Stub \<Rightarrow> 's Stub" where
  "sad_stub_reset_input_state st =
     st\<lparr>parser_g := sad_parser_reset (parser_g st),
        input_buffer_g := sad_buff_reset (heap_full st) (input_buffer_g st)\<rparr>"

definition sad_stub_reset_output_state :: "'s Stub \<Rightarrow> 's Stub" where
  "sad_stub_reset_output_state st =
     st\<lparr>output_buffer_g := sad_buff_reset (heap_full st) (output_buffer_g st)\<rparr>"

definition sad_stub_reset :: "'s Stub \<Rightarrow> 's Stub" where
  "sad_stub_reset st = sad_stub_reset_output_state (sad_stub_reset_input_state st)"

definition DEFAULT_BUFF_SIZE :: nat where "DEFAULT_BUFF_SIZE = 1024"
definition MAX_SMP :: u32 where "MAX_SMP = 16"

record 's Stub_Conf =
  sc_ops :: "'s Sys_Ops"
  sc_conf :: Sys_Conf
  sc_buffers_size :: nat

definition sad_builder_init :: "'s Stub \<Rightarrow> 's Stub" where
  "sad_builder_init st = st\<lparr>selected_core := 0\<rparr>"

text \<open>
  \<open>socket_ret\<close> is what \<open>sad_socket_init\<close> returns. \<open>None\<close> in the result: the globals have no usable
  buffers (they are null or freed). A refused allocation leaves \<open>ret\<close> as \<open>sad_target_init\<close> has set it.
\<close>

definition sad_stub_init :: "'s Stub_Conf \<Rightarrow> stub_ret \<Rightarrow> 's Stub \<Rightarrow> stub_ret \<times> 's Stub option" where
  "sad_stub_init c socket_ret st0 =
    (let buff_size = (if sc_buffers_size c > 0 then sc_buffers_size c else DEFAULT_BUFF_SIZE);
         st = st0\<lparr>sys_conf_g := sc_conf c, sys_ops_g := sc_ops c\<rparr>
     in if conf_arch (sc_conf c) \<noteq> RV32 then (STUB_ARCH, None)
        else if smp (sc_conf c) > MAX_SMP then (STUB_SMP, None)
        else let (ret, st) = sad_target_init st
             in if ret \<noteq> STUB_OK then (STUB_UNEXPECTED, None)
                else case sad_buff_create (heap_full st) buff_size of
                  None \<Rightarrow> (ret, None)
                | Some input \<Rightarrow> (case sad_buff_create (heap_full st) buff_size of
                    None \<Rightarrow> (ret, None)
                  | Some output \<Rightarrow>
                      let st = sad_stub_reset (sad_builder_init
                        (st\<lparr>input_buffer_g := input, output_buffer_g := output\<rparr>))
                      in if socket_ret \<noteq> STUB_OK then (socket_ret, None)
                         else (STUB_OK, Some ((sad_breakpoint_reset st)\<lparr>ack_enabled_g := True\<rparr>))))"

section \<open>The main loop\<close>

text \<open>
  One turn: what the other threads did meanwhile, what \<open>read\<close> returns, the rounds of a wait for a
  halt, what the \<open>write\<close>s return.
\<close>

record 's event =
  ev_run :: "'s \<Rightarrow> 's"
  ev_read :: "u8 list option"
  ev_would_block :: bool
  ev_waits :: "'s wait_event list"
  ev_writes :: "write_result list"

text \<open>The three tests on the parser's state; the result is the return value, \<open>None\<close> to go on.\<close>

definition turn_error :: "'s event \<Rightarrow> 's Stub \<Rightarrow> (stub_ret option \<times> 's Stub) result" where
  "turn_error ev st =
    (if p_state (parser_g st) = PARSE_ERROR
     then and_then (reply_str ''-'' (sad_stub_reset_output_state st)) (\<lambda>st.
          and_then (sad_buff_to_socket (ev_writes ev) st) (\<lambda>(r, st).
            if r = BUFF_FD_ERR then Inr (Some STUB_SOCKET, st) else Inr (None, sad_stub_reset_input_state st)))
     else Inr (None, st))"

definition turn_nack :: "'s event \<Rightarrow> 's Stub \<Rightarrow> (stub_ret option \<times> 's Stub) result" where
  "turn_nack ev st =
    (if p_state (parser_g st) = PARSE_NACK
     then and_then (sad_buff_to_socket (ev_writes ev) st) (\<lambda>(r, st).
            if r = BUFF_FD_ERR then Inr (Some STUB_SOCKET, st) else Inr (None, sad_stub_reset_input_state st))
     else Inr (None, st))"

definition turn_finished :: "'s event \<Rightarrow> 's Stub \<Rightarrow> (stub_ret option \<times> 's Stub) result" where
  "turn_finished ev st =
    (if p_state (parser_g st) = PARSE_FINISHED
     then and_then (sad_builder_build_resp (ev_waits ev) (sad_stub_reset_output_state st)) (\<lambda>st.
          and_then (sad_buff_to_socket (ev_writes ev) st) (\<lambda>(r, st).
            if r = BUFF_FD_ERR then Inr (Some STUB_SOCKET, st) else Inr (None, sad_stub_reset_input_state st)))
     else Inr (None, st))"

definition go_on :: "(stub_ret option \<times> 's Stub) result \<Rightarrow> ('s Stub \<Rightarrow> (stub_ret option \<times> 's Stub) result)
    \<Rightarrow> (stub_ret option \<times> 's Stub) result" where
  "go_on r k = and_then r (\<lambda>(ret, st). case ret of None \<Rightarrow> k st | Some e \<Rightarrow> Inr (Some e, st))"

definition parse_input :: "'s Stub \<Rightarrow> 's Stub" where
  "parse_input st =
    (let (p, b) = sad_parser_pkt (ack_enabled_g st) (parser_g st) (input_buffer_g st)
     in st\<lparr>parser_g := p, input_buffer_g := b\<rparr>)"

definition stub_turn :: "'s event \<Rightarrow> 's Stub \<Rightarrow> (stub_ret option \<times> 's Stub) result" where
  "stub_turn ev st =
    (let st = st\<lparr>sys := ev_run ev (sys st)\<rparr>
     in and_then (sad_buff_from_socket (heap_full st) (input_buffer_g st) (ev_read ev) (ev_would_block ev)) (\<lambda>(b, b_ret).
        let st = st\<lparr>input_buffer_g := b\<rparr>
        in if b_ret = BUFF_OOM then Inr (Some STUB_OOM, st)
           else if b_ret = BUFF_FD_ERR then Inr (Some STUB_SOCKET, st)
           else if b_ret = BUFF_CLOSED then Inr (Some STUB_CLOSED, st)
           else go_on (go_on (turn_error ev (parse_input st)) (turn_nack ev)) (turn_finished ev)))"

text \<open>The loop along the events; \<open>None\<close> says that it is still running when they end.\<close>

fun stub_loop :: "'s event list \<Rightarrow> 's Stub \<Rightarrow> (stub_ret option \<times> 's Stub) result" where
  "stub_loop [] st = Inr (None, st)"
| "stub_loop (ev # evs) st = go_on (stub_turn ev st) (stub_loop evs)"

definition sad_stub_handle_cmds :: "'s event list \<Rightarrow> 's Stub \<Rightarrow> (stub_ret option \<times> 's Stub) result" where
  "sad_stub_handle_cmds evs st =
    (if \<not> op_is_halted (sys_ops_g st) (sys st) then Inr (Some STUB_HALTED, st) else stub_loop evs st)"

definition sad_stub_deinit :: "'s Stub \<Rightarrow> 's Stub" where
  "sad_stub_deinit st = st\<lparr>ack_enabled_g := True, input_buffer_g := sad_buff_destroy (input_buffer_g st),
     output_buffer_g := sad_buff_destroy (output_buffer_g st)\<rparr>"

end
