(* ===== verification/Gdb_Break.thy ===== *)
theory Gdb_Break
  imports Gdb_Target
begin

text \<open>
  Software breakpoints are invisible: \<open>under bs f\<close> is the memory \<open>f\<close> with the saved instruction of
  every inserted breakpoint put back, and inserting, removing and stepping over a breakpoint keep it
  (up to what the stepped instruction itself does). Breakpoints must not overlap each other, which
  the code does not test; \<open>table_ok\<close> is the invariant of the table.
\<close>

unbundle bit_operations_syntax

section \<open>Searching the table\<close>

lemma first_empty_Some:
  "first_empty k bs = Some i \<Longrightarrow> k \<le> i \<and> i - k < length bs \<and> brk_status (bs ! (i - k)) = BRK_EMPTY"
  by (induction k bs rule: first_empty.induct) (auto simp: nth_Cons' Suc_diff_Suc split: if_splits)

lemma first_empty_None: "first_empty k bs = None \<longleftrightarrow> (\<forall>b\<in>set bs. brk_status b = BRK_FULL)"
  by (induction k bs rule: first_empty.induct) (auto intro: breakpoint_status.exhaust)

lemma find_from_Some:
  "find_from k addr bs = Some i \<Longrightarrow>
     k \<le> i \<and> i - k < length bs \<and> brk_addr (bs ! (i - k)) = addr \<and> brk_status (bs ! (i - k)) = BRK_FULL"
  by (induction k addr bs rule: find_from.induct) (auto simp: nth_Cons' Suc_diff_Suc split: if_splits)

lemma find_from_None:
  "find_from k addr bs = None \<longleftrightarrow> (\<forall>b\<in>set bs. brk_addr b = addr \<longrightarrow> brk_status b = BRK_EMPTY)"
  by (induction k addr bs rule: find_from.induct) (auto intro: breakpoint_status.exhaust)

section \<open>The bytes of an instruction\<close>

definition ebreak :: u64 where
  "ebreak = 0x00100073"

lemma length_low_bytes [simp]: "n \<le> 8 \<Longrightarrow> length (low_bytes n v) = n"
  by (simp add: low_bytes_def)

lemma low_bytes_word:
  assumes "length bs = n" and "n \<le> 8"
  shows "low_bytes n (word_of_bytes bs) = bs"
proof (rule nth_equalityI)
  show "length (low_bytes n (word_of_bytes bs)) = length bs" using assms by simp
next
  fix i assume "i < length (low_bytes n (word_of_bytes bs))"
  with assms have i: "i < n" by simp
  show "low_bytes n (word_of_bytes bs) ! i = bs ! i"
  proof (rule bit_word_eqI)
    fix k assume "k < LENGTH(8)"
    then have "(8 * i + k) div 8 = i" "(8 * i + k) mod 8 = k" by simp_all
    then show "bit (low_bytes n (word_of_bytes bs) ! i) k = bit (bs ! i) k"
      using i assms \<open>k < LENGTH(8)\<close>
      by (simp add: low_bytes_def nth_bytes_of_word bit_simps bit_word_of_bytes)
  qed
qed

lemma word_low_bytes_ebreak: "word_of_bytes (low_bytes 4 ebreak) = ebreak"
  by (simp add: low_bytes_def bytes_of_word_def ebreak_def upt_rec)

section \<open>The memory under the breakpoints\<close>

definition covers :: "Breakpoint \<Rightarrow> nat \<Rightarrow> bool" where
  "covers b i \<longleftrightarrow> brk_status b = BRK_FULL \<and> unat (brk_addr b) \<le> i \<and> i < unat (brk_addr b) + 4"

definition under :: "Breakpoint list \<Rightarrow> (nat \<Rightarrow> u8) \<Rightarrow> nat \<Rightarrow> u8" where
  "under bs f i = (case find (\<lambda>b. covers b i) bs of
     None \<Rightarrow> f i | Some b \<Rightarrow> low_bytes 4 (brk_instr b) ! (i - unat (brk_addr b)))"

definition apart :: "u64 \<Rightarrow> u64 \<Rightarrow> bool" where
  "apart a b \<longleftrightarrow> unat a + 4 \<le> unat b \<or> unat b + 4 \<le> unat a"

lemma apart_sym: "apart a b \<longleftrightarrow> apart b a"
  by (auto simp: apart_def)

definition entry_ok :: "nat \<Rightarrow> (nat \<Rightarrow> u8) \<Rightarrow> Breakpoint \<Rightarrow> bool" where
  "entry_ok limit f b \<longleftrightarrow> brk_status b = BRK_FULL \<longrightarrow>
     unat (brk_addr b) + 4 \<le> limit
     \<and> map f [unat (brk_addr b)..<unat (brk_addr b) + 4] = low_bytes 4 ebreak
     \<and> (\<exists>bs. length bs = 4 \<and> brk_instr b = word_of_bytes bs) \<and> brk_instr b \<noteq> ebreak"

lemma entry_ok_cong:
  "entry_ok limit f b \<Longrightarrow>
     map f' [unat (brk_addr b)..<unat (brk_addr b) + 4] = map f [unat (brk_addr b)..<unat (brk_addr b) + 4] \<Longrightarrow>
     entry_ok limit f' b"
  by (simp only: entry_ok_def)

lemma entry_ok_empty: "brk_status b \<noteq> BRK_FULL \<Longrightarrow> entry_ok limit f b"
  by (simp add: entry_ok_def)

definition table_ok :: "nat \<Rightarrow> Breakpoint list \<Rightarrow> (nat \<Rightarrow> u8) \<Rightarrow> bool" where
  "table_ok limit bs f \<longleftrightarrow> (\<forall>b\<in>set bs. entry_ok limit f b)
     \<and> (\<forall>j<length bs. \<forall>k<length bs. j \<noteq> k \<longrightarrow> brk_status (bs ! j) = BRK_FULL \<longrightarrow>
          brk_status (bs ! k) = BRK_FULL \<longrightarrow> apart (brk_addr (bs ! j)) (brk_addr (bs ! k)))"

lemma covers_unique:
  assumes "table_ok limit bs f" "j < length bs" "k < length bs" "covers (bs ! j) i" "covers (bs ! k) i"
  shows "j = k"
proof (rule ccontr)
  assume "j \<noteq> k"
  then have "apart (brk_addr (bs ! j)) (brk_addr (bs ! k))"
    using assms by (simp add: table_ok_def covers_def)
  then show False using assms(4,5) by (auto simp: apart_def covers_def)
qed

lemma under_at:
  assumes "table_ok limit bs f" "j < length bs" "covers (bs ! j) i"
  shows "under bs f i = low_bytes 4 (brk_instr (bs ! j)) ! (i - unat (brk_addr (bs ! j)))"
proof -
  obtain b where b: "find (\<lambda>b. covers b i) bs = Some b"
    using assms(2,3) by (cases "find (\<lambda>b. covers b i) bs") (auto simp: find_None_iff)
  then obtain k where "k < length bs" "covers b i" "b = bs ! k" by (auto simp: find_Some_iff)
  with covers_unique [OF assms(1,2)] assms(3) have "b = bs ! j" by blast
  with b show ?thesis by (simp add: under_def)
qed

lemma under_free: "(\<And>b. b \<in> set bs \<Longrightarrow> \<not> covers b i) \<Longrightarrow> under bs f i = f i"
  by (simp add: under_def find_None_iff [THEN iffD2])

lemma nth_window: "p \<le> i \<Longrightarrow> i < p + n \<Longrightarrow> map f [p..<p + n] ! (i - p) = f i"
  by simp

lemma overwrite_same: "map (overwrite f p bs) [p..<p + length bs] = bs"
  by (rule nth_equalityI) (simp_all add: overwrite_def)

lemma overwrite_apart:
  "p + length bs \<le> q \<or> q + n \<le> p \<Longrightarrow> map (overwrite f p bs) [q..<q + n] = map f [q..<q + n]"
  by (auto simp: overwrite_def)

text \<open>Putting an entry into an empty slot, with its breakpoint written to the memory.\<close>

lemma table_insert:
  assumes ok: "table_ok limit bs f" and k: "k < length bs" "brk_status (bs ! k) = BRK_EMPTY"
    and free: "\<And>b. b \<in> set bs \<Longrightarrow> brk_status b = BRK_FULL \<Longrightarrow> apart addr (brk_addr b)"
    and lim: "unat addr + 4 \<le> limit" and d: "d = map f [unat addr..<unat addr + 4]"
    and new: "word_of_bytes d \<noteq> ebreak"
  defines "bs' \<equiv> bs[k := \<lparr>brk_addr = addr, brk_instr = word_of_bytes d, brk_status = BRK_FULL\<rparr>]"
    and "f' \<equiv> overwrite f (unat addr) (low_bytes 4 ebreak)"
  shows "table_ok limit bs' f' \<and> under bs' f' = under bs f"
proof
  have len: "length d = 4" using d by simp
  have old: "entry_ok limit f' b" if "b \<in> set bs" for b
  proof (cases "brk_status b = BRK_FULL")
    case True
    have "map f' [unat (brk_addr b)..<unat (brk_addr b) + 4] = map f [unat (brk_addr b)..<unat (brk_addr b) + 4]"
      unfolding f'_def by (rule overwrite_apart) (use free [OF that True] in \<open>auto simp: apart_def\<close>)
    moreover have "entry_ok limit f b" using ok that by (simp only: table_ok_def)
    ultimately show ?thesis by (rule entry_ok_cong [rotated])
  qed (simp add: entry_ok_empty)
  have "map f' [unat addr..<unat addr + 4] = low_bytes 4 ebreak"
    using overwrite_same [of f "unat addr" "low_bytes 4 ebreak"] by (simp add: f'_def)
  then have mine: "entry_ok limit f' \<lparr>brk_addr = addr, brk_instr = word_of_bytes d, brk_status = BRK_FULL\<rparr>"
    using lim new len by (auto simp: entry_ok_def)
  have nth: "bs' ! j = (if j = k then \<lparr>brk_addr = addr, brk_instr = word_of_bytes d, brk_status = BRK_FULL\<rparr>
      else bs ! j)" if "j < length bs" for j
    using that k by (simp add: bs'_def nth_list_update)
  show ok': "table_ok limit bs' f'"
    unfolding table_ok_def
  proof (intro conjI ballI allI impI)
    fix b assume "b \<in> set bs'"
    then show "entry_ok limit f' b"
      using old mine set_update_subset_insert [of bs k] by (auto simp: bs'_def)
  next
    fix j l assume jl: "j < length bs'" "l < length bs'" "j \<noteq> l" "brk_status (bs' ! j) = BRK_FULL"
      "brk_status (bs' ! l) = BRK_FULL"
    then have len: "j < length bs" "l < length bs" by (simp_all add: bs'_def)
    consider "j = k" "l \<noteq> k" | "j \<noteq> k" "l = k" | "j \<noteq> k" "l \<noteq> k" using jl(3) by blast
    then show "apart (brk_addr (bs' ! j)) (brk_addr (bs' ! l))"
    proof cases
      case 1
      then show ?thesis using free [of "bs ! l"] nth len jl by simp
    next
      case 2
      then show ?thesis using free [of "bs ! j"] nth len jl by (simp add: apart_sym)
    next
      case 3
      then show ?thesis using ok nth len jl by (simp add: table_ok_def)
    qed
  qed
  show "under bs' f' = under bs f"
  proof
    fix i
    have fine: "covers b i \<Longrightarrow> b \<in> set bs \<Longrightarrow> \<not> (unat addr \<le> i \<and> i < unat addr + 4)" for b
      using free [of b] by (auto simp: covers_def apart_def)
    consider "unat addr \<le> i \<and> i < unat addr + 4"
      | j where "j < length bs" "covers (bs ! j) i" "\<not> (unat addr \<le> i \<and> i < unat addr + 4)"
      | "\<And>b. b \<in> set bs \<Longrightarrow> \<not> covers b i" "\<not> (unat addr \<le> i \<and> i < unat addr + 4)"
      by (metis in_set_conv_nth)
    then show "under bs' f' i = under bs f i"
    proof cases
      case 1
      have "under bs' f' i = low_bytes 4 (word_of_bytes d) ! (i - unat addr)"
        using under_at [OF ok', of k i] nth [of k] k 1 by (simp add: covers_def bs'_def)
      also have "\<dots> = d ! (i - unat addr)" by (simp add: low_bytes_word [OF len])
      also have "\<dots> = f i" unfolding d by (rule nth_window) (use 1 in simp_all)
      also have "\<dots> = under bs f i" using fine 1 by (intro under_free [symmetric]) blast
      finally show ?thesis .
    next
      case 2
      have "j \<noteq> k" using 2 k by (auto simp: covers_def)
      then have "bs' ! j = bs ! j" using nth 2 by simp
      then show ?thesis
        using under_at [OF ok', of j i] under_at [OF ok, of j i] 2 by (simp add: bs'_def)
    next
      case 3
      have "\<not> covers b i" if "b \<in> set bs'" for b
      proof -
        from that have "\<exists>j<length bs. b = bs' ! j" by (auto simp: in_set_conv_nth bs'_def)
        then obtain j where "j < length bs" "b = bs' ! j" by blast
        then show ?thesis using nth [of j] 3(2) 3(1) [of "bs ! j"] by (auto simp: covers_def)
      qed
      then have "under bs' f' i = f' i" by (rule under_free)
      also have "\<dots> = f i" using 3(2) by (auto simp: f'_def overwrite_def)
      also have "\<dots> = under bs f i" using 3(1) by (rule under_free [symmetric])
      finally show ?thesis .
    qed
  qed
qed

text \<open>Emptying a slot, with the saved instruction written back.\<close>

lemma table_remove:
  assumes ok: "table_ok limit bs f" and k: "k < length bs" "brk_status (bs ! k) = BRK_FULL"
  defines "bs' \<equiv> bs[k := (bs ! k)\<lparr>brk_status := BRK_EMPTY\<rparr>]"
    and "f' \<equiv> overwrite f (unat (brk_addr (bs ! k))) (low_bytes 4 (brk_instr (bs ! k)))"
  shows "table_ok limit bs' f' \<and> under bs' f' = under bs f"
proof
  let ?a = "unat (brk_addr (bs ! k))"
  have nth: "bs' ! j = (if j = k then (bs ! k)\<lparr>brk_status := BRK_EMPTY\<rparr> else bs ! j)"
    if "j < length bs" for j
    using that k by (simp add: bs'_def nth_list_update)
  have others: "apart (brk_addr (bs ! k)) (brk_addr (bs ! j))"
    if "j < length bs" "j \<noteq> k" "brk_status (bs ! j) = BRK_FULL" for j
    using ok that k by (auto simp: table_ok_def)
  have other_ok: "entry_ok limit f' (bs ! j)" if "j < length bs" "j \<noteq> k" for j
  proof (cases "brk_status (bs ! j) = BRK_FULL")
    case True
    have "map f' [unat (brk_addr (bs ! j))..<unat (brk_addr (bs ! j)) + 4]
        = map f [unat (brk_addr (bs ! j))..<unat (brk_addr (bs ! j)) + 4]"
      unfolding f'_def by (rule overwrite_apart) (use others [OF that True] in \<open>auto simp: apart_def\<close>)
    moreover have "entry_ok limit f (bs ! j)" using ok that(1) by (simp only: table_ok_def nth_mem)
    ultimately show ?thesis by (rule entry_ok_cong [rotated])
  qed (simp add: entry_ok_empty)
  show ok': "table_ok limit bs' f'"
    unfolding table_ok_def
  proof (intro conjI ballI allI impI)
    fix b assume "b \<in> set bs'"
    then obtain j where "j < length bs" "b = bs' ! j" by (auto simp: in_set_conv_nth bs'_def)
    then show "entry_ok limit f' b" using nth other_ok by (simp add: entry_ok_def)
  next
    fix j l assume jl: "j < length bs'" "l < length bs'" "j \<noteq> l" "brk_status (bs' ! j) = BRK_FULL"
      "brk_status (bs' ! l) = BRK_FULL"
    then have "j < length bs" "l < length bs" by (simp_all add: bs'_def)
    then show "apart (brk_addr (bs' ! j)) (brk_addr (bs' ! l))"
      using ok jl(3-5) nth by (cases "j = k"; cases "l = k") (simp_all add: table_ok_def)
  qed
  show "under bs' f' = under bs f"
  proof
    fix i
    consider "?a \<le> i \<and> i < ?a + 4"
      | j where "j < length bs" "j \<noteq> k" "covers (bs ! j) i"
      | "\<And>j. j < length bs \<Longrightarrow> \<not> covers (bs ! j) i" "\<not> (?a \<le> i \<and> i < ?a + 4)"
      using k by (auto simp: covers_def)
    then show "under bs' f' i = under bs f i"
    proof cases
      case 1
      have "covers (bs ! k) i" using 1 k by (simp add: covers_def)
      then have alone: "\<not> covers (bs' ! j) i" if "j < length bs" for j
        using that nth covers_unique [OF ok that k(1)] by (auto simp: covers_def)
      have "under bs' f' i = f' i"
        by (rule under_free) (use alone in \<open>auto simp: in_set_conv_nth bs'_def\<close>)
      with 1 show ?thesis
        using under_at [OF ok k(1) \<open>covers (bs ! k) i\<close>] by (simp add: f'_def overwrite_def)
    next
      case 2
      then have "bs' ! j = bs ! j" using nth by simp
      then show ?thesis
        using under_at [OF ok', of j i] under_at [OF ok, of j i] 2 by (simp add: bs'_def)
    next
      case 3
      have alone: "\<not> covers (bs' ! j) i" if "j < length bs" for j
        using that nth 3(1) by (auto simp: covers_def)
      have "under bs' f' i = f' i"
        by (rule under_free) (use alone in \<open>auto simp: in_set_conv_nth bs'_def\<close>)
      moreover have "under bs f i = f i"
        by (rule under_free) (use 3(1) in \<open>auto simp: in_set_conv_nth\<close>)
      ultimately show ?thesis using 3(2) by (simp add: f'_def overwrite_def)
    qed
  qed
qed

section \<open>The operations on a debugged system\<close>

definition target_ok :: "'s Stub \<Rightarrow> bool" where
  "target_ok st \<longleftrightarrow> brkpt_size (target_conf_g st) = 4 \<and> breakpoint_val (target_conf_g st) = ebreak"

definition brk_inv :: "'s Sys_Ops \<Rightarrow> ('s \<Rightarrow> bool) \<Rightarrow> ('s \<Rightarrow> nat \<Rightarrow> u8) \<Rightarrow> nat \<Rightarrow> 's Stub \<Rightarrow> bool" where
  "brk_inv ops well content limit st \<longleftrightarrow> sys_ops_g st = ops \<and> target_ok st \<and> well (sys st)
     \<and> table_ok limit (breakpoints_g st) (content (sys st))"

text \<open>The program the debugger's user sees.\<close>

definition original :: "('s \<Rightarrow> nat \<Rightarrow> u8) \<Rightarrow> 's Stub \<Rightarrow> nat \<Rightarrow> u8" where
  "original content st = under (breakpoints_g st) (content (sys st))"

context debuggee
begin

abbreviation inv :: "'s Stub \<Rightarrow> bool" where
  "inv \<equiv> brk_inv ops well content limit"

abbreviation orig :: "'s Stub \<Rightarrow> nat \<Rightarrow> u8" where
  "orig \<equiv> original content"

lemma brk_inv_update:
  "inv st \<Longrightarrow> well s \<Longrightarrow> table_ok limit bs (content s) \<Longrightarrow> inv (st\<lparr>sys := s, breakpoints_g := bs\<rparr>)"
  by (simp add: brk_inv_def target_ok_def)

lemma original_update: "orig (st\<lparr>sys := s, breakpoints_g := bs\<rparr>) = under bs (content s)"
  by (simp add: original_def)

lemma insert_cases:
  assumes "inv st" and "unat addr + 4 \<le> limit"
  obtains (full) "first_empty 0 (breakpoints_g st) = None" "sad_insert_breakpoint addr st = Inr (BRK_ERROR, st)"
  | (there) "first_empty 0 (breakpoints_g st) \<noteq> None" "word_of_bytes (map (content (sys st)) [unat addr..<unat addr + 4]) = ebreak"
      "sad_insert_breakpoint addr st = Inr (BRK_INSERTED, st)"
  | (new) k s where "first_empty 0 (breakpoints_g st) = Some k" "well s" "regval s = regval (sys st)"
      "word_of_bytes (map (content (sys st)) [unat addr..<unat addr + 4]) \<noteq> ebreak"
      "content s = overwrite (content (sys st)) (unat addr) (low_bytes 4 ebreak)"
      "sad_insert_breakpoint addr st = Inr (BRK_INSERTED, st\<lparr>sys := s, breakpoints_g := (breakpoints_g st)[k :=
        \<lparr>brk_addr = addr, brk_instr = word_of_bytes (map (content (sys st)) [unat addr..<unat addr + 4]),
         brk_status = BRK_FULL\<rparr>]\<rparr>)"
proof -
  have I: "sys_ops_g st = ops" "brkpt_size (target_conf_g st) = 4" "breakpoint_val (target_conf_g st) = ebreak"
    "well (sys st)"
    using assms(1) by (simp_all add: brk_inv_def target_ok_def)
  note rd = read_mem [OF I(4) assms(2)]
  obtain s where wr: "op_write_mem ops (low_bytes 4 ebreak) addr (sys st) = Inr s" "well s"
    "regval s = regval (sys st)" "content s = overwrite (content (sys st)) (unat addr) (low_bytes 4 ebreak)"
    using write_mem [OF I(4), of addr "low_bytes 4 ebreak"] assms(2) by auto
  show ?thesis
  proof (cases "first_empty 0 (breakpoints_g st)")
    case None
    then show ?thesis by (intro full) (simp_all add: sad_insert_breakpoint_def)
  next
    case (Some k)
    show ?thesis
    proof (cases "(word_of_bytes (map (content (sys st)) [unat addr..<unat addr + 4]) :: u64) = ebreak")
      case True
      then show ?thesis
        by (intro there) (simp_all only: sad_insert_breakpoint_def Let_def Some option.case option.distinct
            I rd and_then.simps simp_thms not_False_eq_True if_False if_True)
    next
      case False
      then show ?thesis
        by (intro new [of k s]) (simp_all only: Some wr sad_insert_breakpoint_def Let_def option.case I rd
            and_then.simps simp_thms not_False_eq_True if_True)
    qed
  qed
qed

lemma insert_original:
  assumes I: "inv st" and lim: "unat addr + 4 \<le> limit"
    and free: "\<And>b. b \<in> set (breakpoints_g st) \<Longrightarrow> brk_status b = BRK_FULL \<Longrightarrow>
      brk_addr b = addr \<or> apart addr (brk_addr b)"
  obtains ret st' where "sad_insert_breakpoint addr st = Inr (ret, st')" "inv st'"
    "orig st' = orig st" "regval (sys st') = regval (sys st)"
    "ret = (if \<forall>b\<in>set (breakpoints_g st). brk_status b = BRK_FULL then BRK_ERROR else BRK_INSERTED)"
proof (cases rule: insert_cases [OF I lim])
  case 1
  then show ?thesis using that [of BRK_ERROR st] I by (simp add: first_empty_None)
next
  case 2
  then have "\<not> (\<forall>b\<in>set (breakpoints_g st). brk_status b = BRK_FULL)"
    using first_empty_None [of 0 "breakpoints_g st"] by simp
  then show ?thesis using that [of BRK_INSERTED st] 2 I by simp
next
  case (3 k s)
  have tab: "table_ok limit (breakpoints_g st) (content (sys st))" using I by (simp add: brk_inv_def)
  have k: "k < length (breakpoints_g st)" "brk_status (breakpoints_g st ! k) = BRK_EMPTY"
    using first_empty_Some [OF 3(1)] by simp_all
  have far: "apart addr (brk_addr b)" if "b \<in> set (breakpoints_g st)" "brk_status b = BRK_FULL" for b
  proof (rule ccontr)
    assume "\<not> ?thesis"
    then have "brk_addr b = addr" using free that by blast
    then have "map (content (sys st)) [unat addr..<unat addr + 4] = low_bytes 4 ebreak"
      using tab that by (auto simp only: table_ok_def entry_ok_def)
    with 3(4) show False by (simp only: word_low_bytes_ebreak)
  qed
  note tr = table_insert [OF tab k far lim refl 3(4), folded 3(5)]
  have "inv (st\<lparr>sys := s, breakpoints_g := (breakpoints_g st)[k := \<lparr>brk_addr = addr,
      brk_instr = word_of_bytes (map (content (sys st)) [unat addr..<unat addr + 4]), brk_status = BRK_FULL\<rparr>]\<rparr>)"
    by (rule brk_inv_update [OF I 3(2) conjunct1 [OF tr]])
  moreover have "orig (st\<lparr>sys := s, breakpoints_g := (breakpoints_g st)[k := \<lparr>brk_addr = addr,
      brk_instr = word_of_bytes (map (content (sys st)) [unat addr..<unat addr + 4]), brk_status = BRK_FULL\<rparr>]\<rparr>)
      = orig st"
    unfolding original_update by (simp only: conjunct2 [OF tr] original_def)
  moreover have "\<not> (\<forall>b\<in>set (breakpoints_g st). brk_status b = BRK_FULL)"
    using 3(1) first_empty_None [of 0 "breakpoints_g st"] by simp
  ultimately show ?thesis using that 3(3,6) by simp
qed

lemma remove_original:
  assumes I: "inv st"
  obtains (none) "sad_find_breakpoint addr st = None" "sad_remove_breakpoint addr st = Inr (BRK_NOT_FOUND, st)"
  | (removed) st' where "sad_find_breakpoint addr st \<noteq> None"
      "sad_remove_breakpoint addr st = Inr (BRK_REMOVED, st')" "inv st'" "orig st' = orig st"
      "regval (sys st') = regval (sys st)" "sad_find_breakpoint addr st' = None"
      "\<And>i. unat addr \<le> i \<Longrightarrow> i < unat addr + 4 \<Longrightarrow> content (sys st') i = orig st i"
proof (cases "sad_find_breakpoint addr st")
  case None
  then show ?thesis using none by (simp add: sad_remove_breakpoint_def)
next
  case (Some k)
  let ?bs = "breakpoints_g st"
  have k: "k < length ?bs" "brk_addr (?bs ! k) = addr" "brk_status (?bs ! k) = BRK_FULL"
    using Some find_from_Some [of 0 addr ?bs k] by (simp_all add: sad_find_breakpoint_def)
  have I': "sys_ops_g st = ops" "brkpt_size (target_conf_g st) = 4" "well (sys st)"
    and tab: "table_ok limit ?bs (content (sys st))"
    using I by (simp_all add: brk_inv_def target_ok_def)
  have "unat addr + 4 \<le> limit" using tab k by (auto simp: table_ok_def entry_ok_def dest: nth_mem)
  then obtain s where wr: "op_write_mem ops (low_bytes 4 (brk_instr (?bs ! k))) addr (sys st) = Inr s" "well s"
    "regval s = regval (sys st)"
    "content s = overwrite (content (sys st)) (unat addr) (low_bytes 4 (brk_instr (?bs ! k)))"
    using write_mem [OF I'(3), of addr "low_bytes 4 (brk_instr (?bs ! k))"] by auto
  let ?bs' = "?bs[k := (?bs ! k)\<lparr>brk_status := BRK_EMPTY\<rparr>]"
  let ?st = "st\<lparr>sys := s, breakpoints_g := ?bs'\<rparr>"
  note tr = table_remove [OF tab k(1,3), unfolded k(2)]
  show ?thesis
  proof (rule removed [of ?st])
    show "sad_find_breakpoint addr st \<noteq> None" using Some by simp
    show "sad_remove_breakpoint addr st = Inr (BRK_REMOVED, ?st)"
      by (simp add: sad_remove_breakpoint_def Some I' wr)
    show "inv ?st" using I wr tr by (simp add: brk_inv_def target_ok_def)
    show "orig ?st = orig st" using wr tr by (simp add: original_def)
    show "regval (sys ?st) = regval (sys st)" using wr by simp
    have "brk_status b = BRK_EMPTY" if b: "b \<in> set ?bs'" "brk_addr b = addr" for b
    proof -
      from b obtain j where "j < length ?bs" "b = ?bs' ! j" by (auto simp: in_set_conv_nth)
      then have "j \<noteq> k \<Longrightarrow> brk_status b = BRK_FULL \<Longrightarrow> apart addr addr"
        using tab k b(2) by (simp add: table_ok_def) (metis nth_list_update_neq)
      then have "j \<noteq> k \<Longrightarrow> brk_status b \<noteq> BRK_FULL" by (auto simp: apart_def)
      then show ?thesis
        using k \<open>b = ?bs' ! j\<close> by (cases "j = k"; cases "brk_status b") simp_all
    qed
    then show "sad_find_breakpoint addr ?st = None"
      by (auto simp: sad_find_breakpoint_def find_from_None)
    fix i assume i: "unat addr \<le> i" "i < unat addr + 4"
    have "orig st i = low_bytes 4 (brk_instr (?bs ! k)) ! (i - unat addr)"
      using under_at [OF tab k(1), of i] k i by (simp add: original_def covers_def)
    then show "content (sys ?st) i = orig st i" using i wr by (simp add: overwrite_def)
  qed
qed

lemma found_entry:
  assumes I: "inv st" and found: "sad_find_breakpoint addr st \<noteq> None"
  shows "unat addr + 4 \<le> limit"
    and "b \<in> set (breakpoints_g st) \<Longrightarrow> brk_status b = BRK_FULL \<Longrightarrow> brk_addr b = addr \<or> apart addr (brk_addr b)"
proof -
  let ?bs = "breakpoints_g st"
  from found obtain k where "find_from 0 addr ?bs = Some k" by (auto simp: sad_find_breakpoint_def)
  then have k: "k < length ?bs" "brk_addr (?bs ! k) = addr" "brk_status (?bs ! k) = BRK_FULL"
    using find_from_Some [of 0 addr ?bs k] by simp_all
  have tab: "table_ok limit ?bs (content (sys st))" using I by (simp add: brk_inv_def)
  show "unat addr + 4 \<le> limit" using tab k by (auto simp: table_ok_def entry_ok_def dest: nth_mem)
  show "brk_addr b = addr \<or> apart addr (brk_addr b)" if b: "b \<in> set ?bs" "brk_status b = BRK_FULL"
  proof -
    from b(1) obtain j where "j < length ?bs" "b = ?bs ! j" by (auto simp: in_set_conv_nth)
    then show ?thesis using tab k b(2) unfolding table_ok_def by (cases "j = k") auto
  qed
qed

text \<open>
  Stepping over a breakpoint runs the original program: \<open>st1\<close> is the state with the breakpoint
  taken out, \<open>s\<close> what the step of the core makes of it.
\<close>

lemma step_original:
  assumes I: "inv st" and core: "unat core < cores" "unat (pc_id (sys_conf_g st)) < nregs"
    and pc: "pc = ucast (regval (sys st) (unat core) (unat (pc_id (sys_conf_g st))))"
    and rem: "sad_remove_breakpoint pc st = Inr (BRK_REMOVED, st1)"
    and step: "op_core_step ops core (sys st1) = Inr s" "well s"
    and keep: "table_ok limit (breakpoints_g st1) (content s)"
  obtains st2 where "sad_step_the_breakpoint core st = Inr (BRK_STEPPED, st2)" "inv st2"
    "orig st2 = under (breakpoints_g st1) (content s)" "regval (sys st2) = regval s"
    "orig st1 = orig st"
proof -
  have ops: "sys_ops_g st = ops" "well (sys st)" using I by (simp_all add: brk_inv_def)
  have rd: "op_read_reg (sys_ops_g st) core (pc_id (sys_conf_g st)) (sys st) = Inr pc"
    using read_reg [OF ops(2) core] by (simp add: ops pc)
  from rem have found: "sad_find_breakpoint pc st \<noteq> None"
    by (auto simp: sad_remove_breakpoint_def split: option.splits)
  have st1: "inv st1" "orig st1 = orig st"
    by (rule remove_original [OF I, of pc]; use rem in simp)+
  obtain k s0 where upd: "st1 = st\<lparr>sys := s0, breakpoints_g := (breakpoints_g st)[k := (breakpoints_g st ! k)\<lparr>
      brk_status := BRK_EMPTY\<rparr>]\<rparr>" and k: "k < length (breakpoints_g st)"
    using rem find_from_Some [of 0 pc "breakpoints_g st"]
    by (auto simp: sad_remove_breakpoint_def sad_find_breakpoint_def result_simps split: option.splits)
  have inv2: "inv (st1\<lparr>sys := s\<rparr>)"
    using st1(1) step(2) keep by (simp add: brk_inv_def target_ok_def)
  have free: "brk_addr b = pc \<or> apart pc (brk_addr b)"
    if "b \<in> set (breakpoints_g (st1\<lparr>sys := s\<rparr>))" "brk_status b = BRK_FULL" for b
    using that found_entry(2) [OF I found, of b]
      set_update_subset_insert [of "breakpoints_g st" k "(breakpoints_g st ! k)\<lparr>brk_status := BRK_EMPTY\<rparr>"]
    by (auto simp: upd)
  obtain ret st2 where ins: "sad_insert_breakpoint pc (st1\<lparr>sys := s\<rparr>) = Inr (ret, st2)" "inv st2"
    "orig st2 = orig (st1\<lparr>sys := s\<rparr>)" "regval (sys st2) = regval (sys (st1\<lparr>sys := s\<rparr>))"
    using insert_original [OF inv2 found_entry(1) [OF I found] free] by blast
  have "sys_ops_g st1 = ops" using st1(1) by (simp add: brk_inv_def)
  then have "sad_step_the_breakpoint core st = Inr (BRK_STEPPED, st2)"
    by (simp add: sad_step_the_breakpoint_def rd rem step ins)
  then show ?thesis using that ins st1(2) by (simp add: original_def)
qed

end

end
