(* ===== verification/Debug.thy ===== *)
theory Debug
  imports Gdb_Stub Gdb_Break Threads_Mgr Sbi Contract
begin

text \<open>
  The emulator as the stub sees it (src/src/debug.c): the table of functions over the cores' array and
  the guest's memory, the configuration, and \<open>run_debug\<close>. The interpretation \<open>dbg\<close> shows that the
  table satisfies the interface \<open>debuggee\<close> of theory \<open>Gdb_Target\<close>.
\<close>

section \<open>The debugged system\<close>

record Debuggee =
  dbg_machine :: machine
  dbg_ram :: memory

definition out_of_regs :: stop where
  "out_of_regs = Undefined ''access outside regs''"

definition core_of :: "u32 \<Rightarrow> Debuggee \<Rightarrow> Cthread" where
  "core_of core_id d = cthreads (dbg_machine d) ! unat core_id"

definition read_reg :: "u32 \<Rightarrow> u32 \<Rightarrow> Debuggee \<Rightarrow> u64 result" where
  "read_reg core_id reg_id d =
    (if unat core_id \<ge> ctx_cores (dbg_machine d) then Inl out_of_cores
     else if unat reg_id \<ge> REG_NUMS then Inl out_of_regs
     else Inr (ucast (regs (ct_core (core_of core_id d)) (unat reg_id))))"

definition write_reg :: "u64 \<Rightarrow> u32 \<Rightarrow> u32 \<Rightarrow> Debuggee \<Rightarrow> Debuggee result" where
  "write_reg input core_id reg_id d =
    (if unat core_id \<ge> ctx_cores (dbg_machine d) then Inl out_of_cores
     else if unat reg_id \<ge> REG_NUMS then Inl out_of_regs
     else let k = ct_core (core_of core_id d)
          in Inr (d\<lparr>dbg_machine := set_core (unat core_id)
               (k\<lparr>regs := (regs k)(unat reg_id := ucast input)\<rparr>) (dbg_machine d)\<rparr>))"

definition read_mem :: "nat \<Rightarrow> u64 \<Rightarrow> Debuggee \<Rightarrow> u8 list result" where
  "read_mem output_sz addr d = mem_rb_ptr_s (dbg_ram d) (ucast addr) output_sz"

definition write_mem :: "u8 list \<Rightarrow> u64 \<Rightarrow> Debuggee \<Rightarrow> Debuggee result" where
  "write_mem input addr d =
     and_then (mem_wb_ptr_s (dbg_ram d) (ucast addr) input) (\<lambda>m. Inr (d\<lparr>dbg_ram := m\<rparr>))"

fun hsm_name :: "cthread_state \<Rightarrow> string" where
  "hsm_name STATE_STARTED = ''[HSM] Started''"
| "hsm_name STATE_STOPPED = ''[HSM] Stopped''"
| "hsm_name STATE_SUSPENDED = ''[HSM] Suspended''"
| "hsm_name STATE_START_PENDING = ''[HSM] Start-pending''"
| "hsm_name STATE_STOP_PENDING = ''[HSM] Stop-pending''"
| "hsm_name STATE_SUSPEND_PENDING = ''[HSM] Suspend-pending''"
| "hsm_name STATE_RESUME_PENDING = ''[HSM] Resume-pending''"
| "hsm_name _ = ''''"

definition core_name :: "u32 \<Rightarrow> Debuggee \<Rightarrow> u8 list result" where
  "core_name core_id d =
    (if unat core_id \<ge> ctx_cores (dbg_machine d) then Inl out_of_cores
     else Inr (ascii (hsm_name (cthread_get_hsm_state (core_of core_id d)))))"

text \<open>
  \<open>threads_mgr_step_core\<close> returns after the handshake of \<open>cthread_signal_step\<close>: theory \<open>Hsm\<close>
  (\<open>step_handshake\<close>) shows that this is one turn of \<open>vcore_run\<close> on a core that was started and
  nothing on another, and leaves the core halted. \<open>plat\<close> is the build's platform.
\<close>

definition one_turn :: "machine platform \<Rightarrow> nat \<Rightarrow> Debuggee \<Rightarrow> Debuggee result" where
  "one_turn plat i d =
    (let m = (dbg_machine d)\<lparr>me := i\<rparr>; h = \<lparr>core = ct_core (cthreads m ! i), ram = dbg_ram d, world = m\<rparr>
     in and_then (vcore_run plat [id] h) (\<lambda>(_, h).
          Inr \<lparr>dbg_machine = set_core i (core h) (world h), dbg_ram = ram h\<rparr>))"

definition set_state :: "nat \<Rightarrow> cthread_state \<Rightarrow> machine \<Rightarrow> machine" where
  "set_state i s m = m\<lparr>cthreads := (cthreads m)[i := (cthreads m ! i)\<lparr>ct_state := s, ct_signal := HALT_S\<rparr>]\<rparr>"

definition core_step :: "machine platform \<Rightarrow> u32 \<Rightarrow> Debuggee \<Rightarrow> Debuggee result" where
  "core_step plat core_id d =
    (let i = unat core_id
     in and_then (threads_mgr_step_core i (dbg_machine d)) (\<lambda>m.
        let d = d\<lparr>dbg_machine := set_state i STATE_STEPPING m\<rparr>
        in and_then (if ct_old_signal (cthreads m ! i) = START_S then one_turn plat i d else Inr d) (\<lambda>d.
             Inr (d\<lparr>dbg_machine := set_state i STATE_HALTED (dbg_machine d)\<rparr>))))"

text \<open>\<open>busy\<close>: a halt of all cores is going on when the continue tries its mutex.\<close>

definition debug_ops :: "machine platform \<Rightarrow> bool \<Rightarrow> Debuggee Sys_Ops" where
  "debug_ops plat busy = \<lparr>
     op_core_name = core_name, op_read_reg = read_reg, op_write_reg = write_reg,
     op_read_mem = read_mem, op_write_mem = write_mem, op_core_step = core_step plat,
     op_core_continue = (\<lambda>i d. and_then (threads_mgr_continue_core (unat i) (dbg_machine d)) (\<lambda>m.
       Inr (d\<lparr>dbg_machine := m\<rparr>))),
     op_cores_continue = (\<lambda>d. and_then (threads_mgr_continue_cores busy (dbg_machine d)) (\<lambda>m.
       Inr (d\<lparr>dbg_machine := m\<rparr>))),
     op_cores_halt = (\<lambda>d. Inr (d\<lparr>dbg_machine := threads_mgr_halt_cores (dbg_machine d)\<rparr>)),
     op_is_halted = (\<lambda>d. threads_mgr_are_halted (dbg_machine d))\<rparr>"

definition debug_conf :: "nat \<Rightarrow> nat \<Rightarrow> Sys_Conf" where
  "debug_conf cores mem_sz = \<lparr>conf_arch = RV32, pc_id = of_nat PC, regs_num = 33, smp = of_nat cores,
     memory_size = of_nat mem_sz\<rparr>"

definition STUB_BUFF_SIZE :: nat where "STUB_BUFF_SIZE = 128"

text \<open>
  \<open>run_debug\<close> with the socket's behaviour \<open>socket_ret\<close> and \<open>evs\<close>; it never returns to \<open>main\<close> except
  that the stub is still running when the events end (\<open>Inr\<close>).
\<close>

definition run_debug :: "machine platform \<Rightarrow> bool \<Rightarrow> stub_ret \<Rightarrow> Debuggee event list \<Rightarrow> Debuggee Stub
    \<Rightarrow> Debuggee Stub result" where
  "run_debug plat busy socket_ret evs st0 =
    (let d = sys st0; m = dbg_machine d;
         c = \<lparr>sc_ops = debug_ops plat busy, sc_conf = debug_conf (ctx_cores m) (mem_size (dbg_ram d)),
              sc_buffers_size = STUB_BUFF_SIZE\<rparr>
     in case sad_stub_init c socket_ret st0 of
          (ret, st) \<Rightarrow>
            if ret \<noteq> STUB_OK then Inl (Crash ''Failed to initialize DEBUG Stub'')
            else (case st of
              None \<Rightarrow> Inl (Undefined ''null packet buffer'')
            | Some st \<Rightarrow> and_then (sad_stub_handle_cmds evs st) (\<lambda>(r, st). case r of
                None \<Rightarrow> Inr st
              | Some STUB_CLOSED \<Rightarrow> Inl (Exit 0)
              | Some STUB_OK \<Rightarrow> Inr st
              | Some _ \<Rightarrow> Inl (Crash ''Error during DEBUGGING''))))"

section \<open>The interface\<close>

definition dbg_well :: "nat \<Rightarrow> nat \<Rightarrow> Debuggee \<Rightarrow> bool" where
  "dbg_well limit cores d \<longleftrightarrow> mem_size (dbg_ram d) = limit \<and> limit \<le> 2 ^ 32 \<and> ctx_cores (dbg_machine d) = cores"

definition dbg_content :: "Debuggee \<Rightarrow> nat \<Rightarrow> u8" where
  "dbg_content d = mem_bytes (dbg_ram d)"

definition dbg_regval :: "Debuggee \<Rightarrow> nat \<Rightarrow> nat \<Rightarrow> u32" where
  "dbg_regval d c = regs (ct_core (cthreads (dbg_machine d) ! c))"

lemma unat_addr: "unat (a :: u64) < 2 ^ 32 \<Longrightarrow> unat (ucast a :: u32) = unat a"
  by (simp add: unsigned_ucast_eq unsigned_take_bit_eq take_bit_nat_eq_self)

lemma dbg_addr:
  assumes "unat (a :: u64) + n \<le> limit" "limit \<le> 2 ^ 32"
  shows "n = 0 \<or> unat (ucast a :: u32) = unat a" and "unat (ucast a :: u32) + n \<le> limit"
proof -
  show "n = 0 \<or> unat (ucast a :: u32) = unat a" using assms unat_addr [of a] by linarith
  show "unat (ucast a :: u32) + n \<le> limit"
  proof (cases "unat a < 2 ^ 32")
    case True
    then show ?thesis using unat_addr assms(1) by simp
  next
    case False
    then have "unat a = 2 ^ 32" "n = 0" using assms by linarith+
    have "unat (ucast a :: u32) = unat a mod 2 ^ 32"
      by (simp add: unsigned_ucast_eq unsigned_take_bit_eq take_bit_eq_mod)
    then have "unat (ucast a :: u32) = 0" by (simp only: \<open>unat a = 2 ^ 32\<close> mod_self)
    then show ?thesis using \<open>n = 0\<close> by simp
  qed
qed

lemma store_bytes_overwrite:
  "bs = [] \<or> p = q \<Longrightarrow> mem_bytes (store_bytes m p bs) = overwrite (mem_bytes m) q bs"
  by (auto simp: store_bytes_def overwrite_def fun_eq_iff)

interpretation dbg: debuggee "debug_ops plat busy" "dbg_well limit cores" dbg_content dbg_regval
  limit cores REG_NUMS
  for plat busy limit cores
proof unfold_locales
  fix s :: Debuggee and a n assume w: "dbg_well limit cores s" and a: "unat (a :: u64) + n \<le> limit"
  note d = dbg_addr [OF a]
  show "op_read_mem (debug_ops plat busy) n a s = Inr (map (dbg_content s) [unat a..<unat a + n])"
    using w d by (auto simp: dbg_well_def debug_ops_def read_mem_def mem_rb_ptr_s_def in_mem_def
        load_bytes_def dbg_content_def)
next
  fix s :: Debuggee and a bs assume w: "dbg_well limit cores s" and a: "unat (a :: u64) + length (bs :: u8 list) \<le> limit"
  note d = dbg_addr [OF a]
  show "\<exists>s'. op_write_mem (debug_ops plat busy) bs a s = Inr s' \<and> dbg_well limit cores s'
      \<and> dbg_regval s' = dbg_regval s \<and> dbg_content s' = overwrite (dbg_content s) (unat a) bs"
    using w d by (auto simp: dbg_well_def debug_ops_def write_mem_def mem_wb_ptr_s_def in_mem_def
        dbg_content_def dbg_regval_def fun_eq_iff mem_simps intro!: store_bytes_overwrite [THEN fun_cong])
next
  fix s :: Debuggee and c r :: u32
  assume w: "dbg_well limit cores s" "unat c < cores" "unat r < REG_NUMS"
  then show "op_read_reg (debug_ops plat busy) c r s = Inr (ucast (dbg_regval s (unat c) (unat r)))"
    by (simp add: dbg_well_def debug_ops_def read_reg_def dbg_regval_def core_of_def)
  show "\<exists>s'. op_write_reg (debug_ops plat busy) v c r s = Inr s' \<and> dbg_well limit cores s'
      \<and> dbg_content s' = dbg_content s
      \<and> dbg_regval s' = (dbg_regval s)(unat c := (dbg_regval s (unat c))(unat r := ucast v))" for v
    using w by (auto simp: dbg_well_def debug_ops_def write_reg_def dbg_regval_def core_of_def
        dbg_content_def thread_simps fun_eq_iff Let_def)
qed

end
