(* ===== verification/Start.thy ===== *)
theory Start
  imports Loader_Props Args_Props Emu_Props Debug
begin

text \<open>
  The start of the program (src/src/main.c): \<open>main\<close> composes the command line, the memory, the arguments
  and streams of the USER build, the loader, the core threads and the debugger. What the system answers
  on the way is the record \<open>boot_env\<close>.
\<close>

record 'h boot_env =
  mmap_ok :: bool
  args_malloc_ok :: bool
  threads_malloc_ok :: bool
  thread_calls :: "nat \<Rightarrow> pthread_calls"
  core0_rubbish :: VCore_Init
  file_at :: "u8 list \<Rightarrow> exe_file"
  env_host :: "'h host"

text \<open>\<open>core0_rubbish\<close> is the content of the local variable \<open>core0_init\<close> before its fields are assigned.\<close>

definition user_setup :: "'h boot_env \<Rightarrow> Args_Context \<Rightarrow> memory \<Rightarrow> 'h \<Rightarrow> (memory \<times> 'h) result" where
  "user_setup env c m s = (case elf_args c of
     None \<Rightarrow> Inl (Undefined ''strlen of NULL'')
   | Some args \<Rightarrow>
       and_then (emu_args (args_malloc_ok env) (stack_base c) args m) (\<lambda>m.
       and_then (emu_std (env_host env) (elf_stdin c) (elf_stdout c) (elf_stderr c) s) (\<lambda>s. Inr (m, s))))"

text \<open>\<open>main\<close> up to \<open>threads_mgr_init\<close>: the context, the memory, the cores, the host.\<close>

definition main_setup :: "build_kind \<Rightarrow> 'h boot_env \<Rightarrow> opt list \<Rightarrow> 'h
    \<Rightarrow> (Args_Context \<times> memory \<times> machine \<times> 'h) result" where
  "main_setup bd env opts s =
    and_then (ctx_init bd opts) (\<lambda>c.
    and_then (mem_init (if mmap_ok env then Some (mem_bytes_size c) else None)) (\<lambda>m.
    let core0_init = (core0_rubbish env)\<lparr>init_sp := stack_base c\<rparr>
    in and_then (if bd = USER_BUILD then user_setup env c m s else Inr (m, s)) (\<lambda>(m, s).
       let f = file_at env (name_of (elf_name c))
       in and_then (if arg_binary c then ld_bin f m core0_init else ld_elf (bd = USER_BUILD) f m core0_init)
            (\<lambda>(m, core0_init).
          and_then (threads_mgr_init_run (threads_malloc_ok env) (thread_calls env) (unat (arg_cores c)) (arg_debug c)
            (Some core0_init)) (\<lambda>mgr. Inr (c, m, mgr, s))))))"

text \<open>
  The whole of \<open>main\<close>: with \<open>-d\<close> the stub takes over, on its zero-initialised globals \<open>st0\<close>; else core 0
  is continued and \<open>main\<close> idles.
\<close>

datatype main_state = Cores_Run machine memory | Stub_Ended "Debuggee Stub"

definition main_c :: "build_kind \<Rightarrow> machine platform \<Rightarrow> 'h boot_env \<Rightarrow> opt list \<Rightarrow> 'h \<Rightarrow> bool \<Rightarrow> stub_ret
    \<Rightarrow> Debuggee event list \<Rightarrow> Debuggee Stub \<Rightarrow> main_state result" where
  "main_c bd plat env opts s busy socket_ret evs st0 =
    and_then (main_setup bd env opts s) (\<lambda>(c, m, mgr, s).
      if arg_debug c
      then and_then (run_debug plat busy socket_ret evs
             (st0\<lparr>sys := \<lparr>dbg_machine = mgr, dbg_ram = m\<rparr>\<rparr>)) (\<lambda>st. Inr (Stub_Ended st))
      else and_then (main_start mgr) (\<lambda>mgr. Inr (Cores_Run mgr m)))"

section \<open>The state the guest starts in\<close>

lemma main_setup_steps:
  assumes "main_setup bd env opts s = Inr (c, m, mgr, s')"
  obtains m0 m1 i1 where "ctx_init bd opts = Inr c" "mem_init (Some (mem_bytes_size c)) = Inr m0"
    "(if bd = USER_BUILD then user_setup env c m0 s else Inr (m0, s)) = Inr (m1, s')"
    "(if arg_binary c then ld_bin (file_at env (name_of (elf_name c))) m1 ((core0_rubbish env)\<lparr>init_sp := stack_base c\<rparr>)
      else ld_elf (bd = USER_BUILD) (file_at env (name_of (elf_name c))) m1 ((core0_rubbish env)\<lparr>init_sp := stack_base c\<rparr>))
       = Inr (m, i1)"
    "threads_mgr_init True (unat (arg_cores c)) (arg_debug c) (Some i1) = Inr mgr"
proof -
  have alloc: "threads_mgr_init_run ok f n d i = Inr mgr \<Longrightarrow> threads_mgr_init True n d i = Inr mgr" for ok f n d i
    by (cases ok) (auto simp: threads_mgr_init_run_def threads_mgr_init_def result_simps)
  have map_ok: "mem_init (if ok then Some n else None) = Inr m0 \<Longrightarrow> mem_init (Some n) = Inr m0" for ok n m0
    by (cases ok) (simp_all add: mem_init_def)
  obtain m0 p q where st: "ctx_init bd opts = Inr c"
    "mem_init (if mmap_ok env then Some (mem_bytes_size c) else None) = Inr m0"
    "(if bd = USER_BUILD then user_setup env c m0 s else Inr (m0, s)) = Inr p"
    "(if arg_binary c then ld_bin (file_at env (name_of (elf_name c))) (fst p) ((core0_rubbish env)\<lparr>init_sp := stack_base c\<rparr>)
      else ld_elf (bd = USER_BUILD) (file_at env (name_of (elf_name c))) (fst p) ((core0_rubbish env)\<lparr>init_sp := stack_base c\<rparr>))
       = Inr q"
    "threads_mgr_init_run (threads_malloc_ok env) (thread_calls env) (unat (arg_cores c)) (arg_debug c) (Some (snd q))
       = Inr mgr"
    "m = fst q" "s' = snd p"
    using assms unfolding main_setup_def Let_def by (auto simp: and_then_eq_Inr case_prod_beta)
  show thesis
    using that [OF st(1) map_ok [OF st(2)], of "fst p" "snd q"] st alloc [OF st(5)] by simp
qed

text \<open>The argument block and the size of the memory through the set-up of the USER build.\<close>

lemma place_args_size: "place_args n argp dst str m = Inr m' \<Longrightarrow> mem_size m' = mem_size m"
  by (induction n arbitrary: argp dst str m)
    (auto simp: Let_def result_simps mem_ww_def mem_wb_ptr_s_def mem_simps split: if_splits)

lemma emu_args_size: "emu_args ok sb args m = Inr m' \<Longrightarrow> mem_size m' = mem_size m"
  by (auto simp: emu_args_def Let_def result_simps mem_ww_def mem_wb_ptr_s_def mem_simps case_prod_beta
      dest!: place_args_size split: if_splits)

lemma sizes_arg_strings: "sizes (arg_strings s) \<le> length s + 1"
proof (induction s rule: arg_strings.induct)
  case (2 c cs)
  show ?case
  proof (cases "c = blank")
    case True
    then show ?thesis using 2(1) by (auto split: list.splits)
  next
    case False
    let ?w = "takeWhile (\<lambda>x. x \<noteq> blank) (c # cs)"
    have len: "length (c # cs) = length ?w + length (dropWhile (\<lambda>x. x \<noteq> blank) (c # cs))"
      by (metis length_append takeWhile_dropWhile_id)
    show ?thesis
    proof (cases "dropWhile (\<lambda>x. x \<noteq> blank) (c # cs)")
      case Nil
      then have "arg_strings (c # cs) = [?w]"
        by (simp only: arg_strings.simps(2) Nil False if_False list.case)
      then show ?thesis using len by simp
    next
      case (Cons b rest)
      then have "arg_strings (c # cs) = ?w # arg_strings rest"
        by (simp only: arg_strings.simps(2) Cons False if_False list.case)
      then show ?thesis using len Cons 2(2) [OF False Cons] by simp
    qed
  qed
qed simp

definition args_ready :: "Args_Context \<Rightarrow> memory \<Rightarrow> bool" where
  "args_ready c m \<longleftrightarrow> (\<forall>args. elf_args c = Some args \<and> 0 \<notin> set args \<longrightarrow>
     arg_block m (unat (stack_base c)) (unat (stack_base c) + 8 + 4 * length (arg_strings args)) (arg_strings args))"

lemma emu_args_ready:
  assumes run: "emu_args ok (stack_base c) args m = Inr m'" and c: "elf_args c = Some args"
    and small: "unat (stack_base c) + 5 * PAGE_SIZE + 8 < 2 ^ 32"
  shows "args_ready c m'"
proof -
  let ?ws = "arg_strings args" and ?sb = "stack_base c"
  let ?d = "unat ?sb + 8 + 4 * length ?ws"
  have run: "emu_args True ?sb args m = Inr m'" and len: "length args < PAGE_SIZE"
    using run by (auto simp: emu_args_def split: if_splits)
  have "sizes ?ws \<le> PAGE_SIZE" "length ?ws \<le> PAGE_SIZE"
    using sizes_arg_strings [of args] sizes_length [of ?ws] len by linarith+
  then have d: "?d + sizes ?ws < 2 ^ 32" using small by linarith
  have "arg_block m' (unat ?sb) ?d ?ws" if z: "0 \<notin> set args"
  proof (cases "?d + sizes ?ws \<le> mem_size m")
    case True
    then show ?thesis using emu_args_fits [OF z len refl refl d True] run by auto
  next
    case False
    then show ?thesis using emu_args_too_big [OF z len refl refl d] run by simp
  qed
  then show ?thesis using c by (simp add: args_ready_def)
qed

lemma image_outside: "(\<And>ph. ph \<in> set phs \<Longrightarrow> segment_byte d ph p = None) \<Longrightarrow> elf_image d phs f p = f p"
  by (induction phs arbitrary: f) simp_all

text \<open>No loadable segment reaches the page of the stack.\<close>

definition below_stack :: "Args_Context \<Rightarrow> Elf32_Phdr \<Rightarrow> bool" where
  "below_stack c ph \<longleftrightarrow> (p_type ph = 1 \<longrightarrow> unat (p_vaddr ph) + unat (p_memsz ph) \<le> unat (stack_base c))"

lemma image_below_stack:
  "\<forall>ph\<in>set phs. below_stack c ph \<Longrightarrow> unat (stack_base c) \<le> p \<Longrightarrow> elf_image d phs f p = f p"
  by (rule image_outside) (auto simp: below_stack_def segment_byte_def)

lemma args_ready_above:
  assumes "args_ready c m" and same: "\<And>p. unat (stack_base c) \<le> p \<Longrightarrow> mem_bytes m' p = mem_bytes m p"
  shows "args_ready c m'"
proof -
  have "load_bytes m' p n = load_bytes m p n" if "unat (stack_base c) \<le> p" for p n
    using that same by (intro load_bytes_cong) simp
  then show ?thesis using assms(1) by (simp add: args_ready_def arg_block_def placed_def)
qed

definition starts_at :: "machine \<Rightarrow> Args_Context \<Rightarrow> u32 \<Rightarrow> bool" where
  "starts_at mgr c entry \<longleftrightarrow> ctx_cores mgr = unat (arg_cores c) \<and> ctx_debug mgr = arg_debug c
     \<and> threads_mgr_are_halted mgr
     \<and> ct_old_signal (cthreads mgr ! 0) = START_S \<and> regs (ct_core (cthreads mgr ! 0)) PC = entry
     \<and> regs (ct_core (cthreads mgr ! 0)) SP = stack_base c
     \<and> (\<forall>i. 0 < i \<and> i < ctx_cores mgr \<longrightarrow> ct_old_signal (cthreads mgr ! i) = STOP_S)"

lemma init_starts_at:
  assumes "threads_mgr_init True (unat (arg_cores c)) (arg_debug c) (Some i1) = Inr mgr" "init_sp i1 = stack_base c"
  shows "starts_at mgr c (init_pc i1)"
proof -
  have n: "0 < unat (arg_cores c)" using assms(1) by (auto simp: threads_mgr_init_def split: if_splits)
  have mgr: "mgr = \<lparr>cthreads = \<lparr>ct_state = STATE_HALTED, ct_signal = HALT_S, ct_old_signal = START_S,
      ct_core = vcore_init (Some i1)\<rparr> # map stopped_core [1..<unat (arg_cores c)], me = 0, ctx_debug = arg_debug c\<rparr>"
    using assms(1) n by (auto simp: threads_mgr_init_def cthread_init_def init_rest_eq)
  then show ?thesis
    using n assms(2)
    by (auto simp: starts_at_def threads_mgr_are_halted_def all_halted_iff stopped_core_simps vcore_init_def nth_Cons')
qed

lemma ctx_init_ok: "ctx_init bd opts = Inr c \<Longrightarrow> ctx_ok bd c"
  using options_ok ctx_start_ok by (fastforce simp: ctx_init_def result_simps split: if_splits)

text \<open>What is in the memory when the loader runs.\<close>

lemma memory_before_load:
  assumes "ctx_init bd opts = Inr c" "mem_init (Some (mem_bytes_size c)) = Inr m0"
    and "(if bd = USER_BUILD then user_setup env c m0 s else Inr (m0, s)) = Inr (m1, s')"
  shows "mem_size m1 = mem_bytes_size c" "mem_size m1 \<le> 2 ^ 32" "bd = SUPERVISOR_BUILD \<Longrightarrow> mem_bytes m1 = (\<lambda>_. 0)"
    and "bd = USER_BUILD \<Longrightarrow> unat (stack_base c) + 5 * PAGE_SIZE + 8 < 2 ^ 32 \<Longrightarrow> args_ready c m1"
proof -
  have zero: "mem_bytes m0 = (\<lambda>_. 0)" "mem_size m0 = mem_bytes_size c" using assms(2) by (auto simp: mem_init_def)
  show m1: "mem_size m1 = mem_bytes_size c" "bd = SUPERVISOR_BUILD \<Longrightarrow> mem_bytes m1 = (\<lambda>_. 0)"
    "bd = USER_BUILD \<Longrightarrow> unat (stack_base c) + 5 * PAGE_SIZE + 8 < 2 ^ 32 \<Longrightarrow> args_ready c m1"
    using assms(3) zero by (auto simp: user_setup_def result_simps dest: emu_args_size emu_args_ready
        split: if_splits option.splits)
  show "mem_size m1 \<le> 2 ^ 32" using ctx_init_ok [OF assms(1)] m1(1) by (auto simp: ctx_ok_def)
qed

lemma bin_loads:
  assumes "ld_bin f m init = Inr (m', init')"
  shows "\<exists>d. f = File d \<and> load_bytes m' 0 (length d) = d \<and> mem_size m' = mem_size m \<and> init' = init\<lparr>init_pc := 0\<rparr>"
proof -
  obtain d where d: "ld_read_and_map_file f = Inr d" "mem_wb_ptr_s m 0 d = Inr m'" "init' = init\<lparr>init_pc := 0\<rparr>"
    using assms by (auto simp: ld_bin_def result_simps)
  have "f = File d" using d(1) by (auto simp: ld_read_and_map_file_def split: exe_file.splits if_splits)
  moreover have "m' = store_bytes m 0 d" using d(2) by (auto simp: mem_simps split: if_splits)
  ultimately show ?thesis using d(3) load_store_same [of m 0 d] by (simp add: mem_simps)
qed

lemma setup_state:
  assumes "main_setup bd env opts s = Inr (c, m, mgr, s')"
  shows "ctx_ok bd c \<and> mem_size m = mem_bytes_size c
    \<and> (\<exists>d. file_at env (name_of (elf_name c)) = File d
         \<and> (if arg_binary c then starts_at mgr c 0 \<and> load_bytes m 0 (length d) = d
            else \<exists>phs. described d phs \<and> (\<forall>ph\<in>set phs. fits m ph)
                   \<and> starts_at mgr c (word_at (map (file_byte d) [0..<52]) 24)
                   \<and> (bd = SUPERVISOR_BUILD \<longrightarrow> mem_bytes m = elf_image d phs (\<lambda>_. 0))
                   \<and> (bd = USER_BUILD \<and> (\<forall>ph\<in>set phs. below_stack c ph)
                        \<and> unat (stack_base c) + 5 * PAGE_SIZE + 8 < 2 ^ 32 \<longrightarrow> args_ready c m)))"
proof (rule main_setup_steps [OF assms])
  fix m0 m1 i1
  let ?f = "file_at env (name_of (elf_name c))" and ?i0 = "(core0_rubbish env)\<lparr>init_sp := stack_base c\<rparr>"
  assume c: "ctx_init bd opts = Inr c" and m0: "mem_init (Some (mem_bytes_size c)) = Inr m0"
    and user: "(if bd = USER_BUILD then user_setup env c m0 s else Inr (m0, s)) = Inr (m1, s')"
    and load: "(if arg_binary c then ld_bin ?f m1 ?i0 else ld_elf (bd = USER_BUILD) ?f m1 ?i0) = Inr (m, i1)"
    and mgr: "threads_mgr_init True (unat (arg_cores c)) (arg_debug c) (Some i1) = Inr mgr"
  note ok = ctx_init_ok [OF c] and m1 = memory_before_load [OF c m0 user]
  show ?thesis
  proof (cases "arg_binary c")
    case True
    then show ?thesis
      using bin_loads [of ?f m1 ?i0 m i1] load ok m1(1) init_starts_at [OF mgr] by auto
  next
    case False
    then have run: "ld_elf (bd = USER_BUILD) ?f m1 ?i0 = Inr (m, i1)" using load by simp
    obtain d phs where d: "?f = File d" "described d phs" "\<forall>ph\<in>set phs. fits m1 ph" "mem_size m = mem_size m1"
      "mem_bytes m = elf_image d phs (mem_bytes m1)" "init_pc i1 = word_at (map (file_byte d) [0..<52]) 24"
      "init_sp i1 = stack_base c"
      using elf_loads [OF run m1(2)] by auto
    have "args_ready c m" if above: "\<forall>ph\<in>set phs. below_stack c ph" "args_ready c m1"
      using that(2) by (rule args_ready_above) (simp add: d(5) image_below_stack [OF above(1)])
    moreover have "\<forall>ph\<in>set phs. fits m ph" using d(3,4) by (simp add: fits_def)
    ultimately have "\<exists>phs. described d phs \<and> (\<forall>ph\<in>set phs. fits m ph)
        \<and> starts_at mgr c (word_at (map (file_byte d) [0..<52]) 24)
        \<and> (bd = SUPERVISOR_BUILD \<longrightarrow> mem_bytes m = elf_image d phs (\<lambda>_. 0))
        \<and> (bd = USER_BUILD \<and> (\<forall>ph\<in>set phs. below_stack c ph)
             \<and> unat (stack_base c) + 5 * PAGE_SIZE + 8 < 2 ^ 32 \<longrightarrow> args_ready c m)"
      using init_starts_at [OF mgr d(7)] d(2,5,6) m1(3,4) by metis
    then show ?thesis using False ok m1(1) d(1,4) by simp
  qed
qed


text \<open>A start of the USER build with \<open>-m 1 -f a\<close>, on a host without files where \<open>dup2\<close> succeeds.\<close>

definition quiet_host :: "unit host" where
  "quiet_host = \<lparr>h_open = (\<lambda>_ _ s. (- 1, s)), h_close = (\<lambda>_ s. (0, s)), h_dup2 = (\<lambda>_ t s. (t, s)),
     h_lseek = (\<lambda>_ _ _ s. (- 1, s)), h_read = (\<lambda>_ _ s. ((- 1, []), s)), h_write = (\<lambda>_ _ s. (- 1, s)),
     h_fstat = (\<lambda>_ s. ((- 1, undefined), s)), h_gettimeofday = (\<lambda>s. ((- 1, undefined, []), s)),
     h_clock_gettime = (\<lambda>_ s. ((- 1, undefined), s))\<rparr>"

definition tiny_boot :: "unit boot_env" where
  "tiny_boot = \<lparr>mmap_ok = True, args_malloc_ok = True, threads_malloc_ok = True,
     thread_calls = (\<lambda>_. \<lparr>pc_attr_init = 0, pc_setdetachstate = 0, pc_create = 0\<rparr>), core0_rubbish = tiny_init,
     file_at = (\<lambda>n. if n = [0x61] then File tiny_elf else No_file), env_host = quiet_host\<rparr>"

lemma tiny_runs: "run_all (thread_calls tiny_boot) is = Inr ()"
  by (induction "is") (simp_all add: tiny_boot_def cthread_run_def)

lemma tiny_ctx:
  "\<exists>c. ctx_init USER_BUILD [Opt_m [0x31], Opt_f [0x61]] = Inr c \<and> mem_bytes_size c = 1048576
     \<and> stack_base c = 0xFF000 \<and> elf_args c = Some [0x61] \<and> name_of (elf_name c) = [0x61]
     \<and> elf_stdin c = None \<and> elf_stdout c = None \<and> elf_stderr c = None \<and> \<not> arg_debug c"
proof -
  have small: "0 < PATH_MAX" "1 \<noteq> PATH_MAX" by (simp_all add: PATH_MAX_def)
  have one: "atoi [0x31] = Inr 1" by code_simp
  have run: "\<exists>c. ctx_init USER_BUILD [Opt_m [0x31], Opt_f [0x61]] = Inr c \<and> mem_bytes_size c = 1048576
      \<and> stack_base c = 0xFF000 \<and> elf_stdin c = None \<and> elf_stdout c = None \<and> elf_stderr c = None \<and> \<not> arg_debug c"
    using small one by (simp add: ctx_init_def ctx_option_def Let_def set_memory_def set_file_def copy_name.simps
        MAX_MEM_SIZE_MB_def PAGE_SIZE_def ctx_start_def)
  then obtain c where c: "ctx_init USER_BUILD [Opt_m [0x31], Opt_f [0x61]] = Inr c" "mem_bytes_size c = 1048576"
    "stack_base c = 0xFF000" "elf_stdin c = None" "elf_stdout c = None" "elf_stderr c = None" "\<not> arg_debug c" by auto
  then obtain j where "ctx_options USER_BUILD [Opt_m [0x31], Opt_f [0x61]] (0, ctx_start) = Inr (j, c)"
    by (auto simp: ctx_init_def result_simps split: if_splits)
  then have "elf_args c = Some [0x61] \<and> name_of (elf_name c) = takeWhile (\<lambda>x. x \<noteq> blank) [0x61]"
    by (rule one_file) (simp_all add: is_f_def ctx_start_def)
  then show ?thesis using c by auto
qed

lemma tiny_user_setup:
  "\<exists>c m mgr. main_setup USER_BUILD tiny_boot [Opt_m [0x31], Opt_f [0x61]] () = Inr (c, m, mgr, ())
     \<and> mem_bytes_size c = 1048576 \<and> \<not> arg_binary c \<and> \<not> arg_debug c \<and> name_of (elf_name c) = [0x61]"
proof -
  obtain c where c: "ctx_init USER_BUILD [Opt_m [0x31], Opt_f [0x61]] = Inr c" "mem_bytes_size c = 1048576"
    "stack_base c = 0xFF000" "elf_args c = Some [0x61]" "name_of (elf_name c) = [0x61]"
    "elf_stdin c = None" "elf_stdout c = None" "elf_stderr c = None" "\<not> arg_debug c" using tiny_ctx by blast
  have ok: "arg_cores c = 1" "\<not> arg_binary c" using ctx_init_ok [OF c(1)] by (auto simp: ctx_ok_def)
  let ?m0 = "\<lparr>mem_bytes = (\<lambda>_. 0), mem_size = 1048576\<rparr>"
  obtain m1 where m1: "emu_args True 0xFF000 [0x61] ?m0 = Inr m1" "mem_size m1 = 1048576"
  proof -
    have "sizes [[0x61 :: u8]] = 2" by simp
    moreover have "arg_strings [0x61] = [[0x61]]" by simp
    ultimately have "\<exists>m'. emu_args True 0xFF000 [0x61] ?m0 = Inr m' \<and> arg_block m' (unat (0xFF000 :: u32)) 1044492 [[0x61]]
      \<and> outside_same (\<lambda>i. unat (0xFF000 :: u32) \<le> i \<and> i < 1044492 + sizes [[0x61]]) ?m0 m'"
      by (intro emu_args_fits) (simp_all add: PAGE_SIZE_def)
    then show thesis using that emu_args_size by fastforce
  qed
  have std: "emu_std quiet_host None None None () = Inr ()"
    by (simp add: emu_std_def emu_stream_def quiet_host_def ELF_FDS_BASELINE_def)
  obtain m2 i2 where m2: "ld_elf True (File tiny_elf) m1 (tiny_init\<lparr>init_sp := 0xFF000\<rparr>) = Inr (m2, i2)"
    using tiny_loads [of m1 True "tiny_init\<lparr>init_sp := 0xFF000\<rparr>"] m1(2) by auto
  obtain mgr where mgr: "threads_mgr_init True 1 (arg_debug c) (Some i2) = Inr mgr"
    by (simp add: threads_mgr_init_def cthread_init_def)
  have "main_setup USER_BUILD tiny_boot [Opt_m [0x31], Opt_f [0x61]] () = Inr (c, m2, mgr, ())"
    using c ok m1 m2 mgr std tiny_runs
    by (simp add: main_setup_def threads_mgr_init_run_def mem_init_def tiny_boot_def user_setup_def Let_def)
  then show ?thesis using c ok by blast
qed


end
