(* ===== verification/Start_Run.thy ===== *)
theory Start_Run
  imports Start
begin

text \<open>
  What runs after \<open>main\<close> without the debugger: core 0 reaches its first instruction, and the other cores
  never execute one, whatever hart starts are sent to them.
\<close>

section \<open>A core that nobody debugs\<close>

text \<open>
  The steps of theory \<open>Hsm\<close> that are left: the core's own thread, the requests of SBI calls, and the
  \<open>vcore_init\<close> of a hart start, here without any condition.
\<close>

inductive unattended :: "hsm \<Rightarrow> hsm \<Rightarrow> bool" where
  thread: "thread_step turn (cth s, tpc s) = (c, p) \<Longrightarrow>
    (\<And>k. atomic_exit_loop (turn k) = atomic_exit_loop k) \<Longrightarrow>
    unattended s (s\<lparr>cth := c, tpc := p, executed := executed s + (if is_exec (tpc s) then 1 else 0)\<rparr>)"
| request: "run_signal g \<Longrightarrow> cthread_signal_hsm g (cth s) = Inr c \<Longrightarrow> unattended s (s\<lparr>cth := c\<rparr>)"
| init: "unattended s (s\<lparr>cth := (cth s)\<lparr>ct_core := vcore_init (Some i)\<rparr>\<rparr>)"

definition parked :: "hsm \<Rightarrow> bool" where
  "parked s \<longleftrightarrow> ct_state (cth s) = STATE_HALTED \<and> ct_signal (cth s) = HALT_S
     \<and> (tpc s = At_Lock \<or> tpc s = Waiting HALT_S) \<and> executed s = 0"

lemma parked_step: "unattended s s' \<Longrightarrow> parked s \<Longrightarrow> parked s'"
  by (induction rule: unattended.induct)
    (auto simp: parked_def thread_step_def cthread_fsm_def cthread_wait_on_sign_def wait_ack_def run_signal_def
      cthread_signal_hsm_def hsm_leave_def Let_def)

lemma parked_forever: "unattended\<^sup>*\<^sup>* s s' \<Longrightarrow> parked s \<Longrightarrow> parked s'"
  by (induction rule: rtranclp_induct) (auto intro: parked_step)

section \<open>After main\<close>

lemma core0_executes:
  assumes "ct_signal k = START_S" "p = At_Lock \<or> p = Waiting HALT_S"
  shows "\<exists>n\<le>2. \<exists>c. thread_steps turn n (k, p) = (c, Exec False) \<and> ct_state c = STATE_STARTED
    \<and> \<not> exit_flag c \<and> regs (ct_core c) = regs (ct_core k)"
  using assms(2)
proof
  assume "p = At_Lock"
  then have "thread_steps turn 1 (k, p) = ((set_exit_flag False k)\<lparr>ct_state := STATE_STARTED\<rparr>, Exec False)"
    using assms(1) by (simp add: thread_step_def cthread_fsm_def thread_steps_def)
  then show ?thesis by (intro exI [of _ 1]) (auto simp: thread_simps)
next
  assume "p = Waiting HALT_S"
  then have "thread_steps turn 2 (k, p) = ((set_exit_flag False k)\<lparr>ct_state := STATE_STARTED\<rparr>, Exec False)"
    using assms(1) by (simp add: numeral_eq_Suc thread_step_def cthread_fsm_def cthread_wait_on_sign_def fsm_after_wait_def)
  then show ?thesis by (intro exI [of _ 2]) (auto simp: thread_simps)
qed

text \<open>The cores as \<open>threads_mgr_init\<close> leaves them, and what \<open>main\<close> does to them without the debugger.\<close>

lemma setup_cores:
  assumes "main_setup bd env opts s = Inr (c, m, mgr, s')"
  shows "ctx_cores mgr = unat (arg_cores c)" "ctx_debug mgr = arg_debug c" "0 < ctx_cores mgr"
    and "ct_state (cthreads mgr ! 0) = STATE_HALTED" "ct_old_signal (cthreads mgr ! 0) = START_S"
    and "\<And>i. i < ctx_cores mgr \<Longrightarrow> parked (hsm_init (cthreads mgr ! i))"
proof -
  obtain i1 where "threads_mgr_init True (unat (arg_cores c)) (arg_debug c) (Some i1) = Inr mgr"
    using main_setup_steps [OF assms] by metis
  then have n: "0 < unat (arg_cores c)"
    and mgr: "mgr = \<lparr>cthreads = \<lparr>ct_state = STATE_HALTED, ct_signal = HALT_S, ct_old_signal = START_S,
      ct_core = vcore_init (Some i1)\<rparr> # map stopped_core [1..<unat (arg_cores c)], me = 0, ctx_debug = arg_debug c\<rparr>"
    by (auto simp: threads_mgr_init_def cthread_init_def init_rest_eq split: if_splits)
  show "ctx_cores mgr = unat (arg_cores c)" "ctx_debug mgr = arg_debug c" "0 < ctx_cores mgr"
    "ct_state (cthreads mgr ! 0) = STATE_HALTED" "ct_old_signal (cthreads mgr ! 0) = START_S"
    using n by (simp_all add: mgr)
  fix i assume "i < ctx_cores mgr"
  then show "parked (hsm_init (cthreads mgr ! i))"
    using n by (cases i) (simp_all add: mgr parked_def hsm_init_def stopped_core_def)
qed

lemma main_start_effect:
  assumes "main_start mgr0 = Inr mgr" "\<not> ctx_debug mgr0" "0 < ctx_cores mgr0"
    and "ct_state (cthreads mgr0 ! 0) = STATE_HALTED" "ct_old_signal (cthreads mgr0 ! 0) = START_S"
  shows "ctx_cores mgr = ctx_cores mgr0" "ct_signal (cthreads mgr ! 0) = START_S"
    and "regs (ct_core (cthreads mgr ! 0)) = regs (ct_core (cthreads mgr0 ! 0))"
    and "\<And>i. 0 < i \<Longrightarrow> cthreads mgr ! i = cthreads mgr0 ! i"
proof -
  have "cthread_signal_continue (cthreads mgr0 ! 0) = Inr (continued (cthreads mgr0 ! 0))"
    using assms(4,5) by (simp add: continue_halted)
  then have "mgr = mgr0\<lparr>cthreads := (cthreads mgr0)[0 := continued (cthreads mgr0 ! 0)]\<rparr>"
    using assms(1-3) by (auto simp: main_start_def on_core_def)
  then show "ctx_cores mgr = ctx_cores mgr0" "ct_signal (cthreads mgr ! 0) = START_S"
    "regs (ct_core (cthreads mgr ! 0)) = regs (ct_core (cthreads mgr0 ! 0))"
    "\<And>i. 0 < i \<Longrightarrow> cthreads mgr ! i = cthreads mgr0 ! i"
    using assms(3,5) by (simp_all add: thread_simps continued_def)
qed

text \<open>
  C15: after \<open>main\<close> without the debugger, core 0 is about to execute its first instruction after at most
  two steps of its thread, with the registers it has been given; every other core stays HALTED and never
  executes an instruction, whatever hart starts, stops and suspends the running core asks for.
\<close>

theorem main_runs_core0_only:
  assumes "main_c bd plat env opts s busy socket_ret evs st0 = Inr (Cores_Run mgr m)"
  shows "\<exists>c mgr0 s'. main_setup bd env opts s = Inr (c, m, mgr0, s') \<and> ctx_cores mgr = unat (arg_cores c)
    \<and> (\<forall>turn p. p = At_Lock \<or> p = Waiting HALT_S \<longrightarrow>
         (\<exists>n\<le>2. \<exists>k. thread_steps turn n (cthreads mgr ! 0, p) = (k, Exec False) \<and> ct_state k = STATE_STARTED
            \<and> \<not> exit_flag k \<and> regs (ct_core k) = regs (ct_core (cthreads mgr0 ! 0))))
    \<and> (\<forall>i hs. 0 < i \<and> i < ctx_cores mgr \<and> unattended\<^sup>*\<^sup>* (hsm_init (cthreads mgr ! i)) hs \<longrightarrow>
         ct_state (cth hs) = STATE_HALTED \<and> executed hs = 0)"
proof -
  obtain c mgr0 s' where st: "main_setup bd env opts s = Inr (c, m, mgr0, s')" and nd: "\<not> arg_debug c"
    and run: "main_start mgr0 = Inr mgr"
    using assms by (auto simp: main_c_def result_simps case_prod_beta split: if_splits)
  note cores = setup_cores [OF st]
  have nodebug: "\<not> ctx_debug mgr0" using nd cores(2) by simp
  note eff = main_start_effect [OF run nodebug cores(3-5)]
  have "ct_state (cth hs) = STATE_HALTED \<and> executed hs = 0"
    if "0 < i" "i < ctx_cores mgr" "unattended\<^sup>*\<^sup>* (hsm_init (cthreads mgr ! i)) hs" for i hs
    using parked_forever [OF that(3)] cores(6) [of i] that(1,2) eff(1,4) by (simp add: parked_def)
  then show ?thesis using st cores(1) eff(1) core0_executes [OF eff(2)] eff(3) by metis
qed

text \<open>The SUPERVISOR build with \<open>-c 2 -f a\<close>, and \<open>-d\<close> before it when \<open>d\<close> holds.\<close>

definition two_opts :: "bool \<Rightarrow> opt list" where
  "two_opts d = (if d then [Opt_d] else []) @ [Opt_c [0x32], Opt_f [0x61]]"

lemma two_cores_ctx:
  "\<exists>c. ctx_init SUPERVISOR_BUILD (two_opts d) = Inr c \<and> arg_cores c = 2 \<and> arg_debug c = d
     \<and> \<not> arg_binary c \<and> mem_bytes_size c = DEF_MEM_SIZE \<and> name_of (elf_name c) = [0x61]"
proof -
  have small: "0 < PATH_MAX" "1 \<noteq> PATH_MAX" by (simp_all add: PATH_MAX_def)
  have two: "atoi [0x32] = Inr 2" by code_simp
  have "\<exists>c. ctx_init SUPERVISOR_BUILD (two_opts d) = Inr c \<and> arg_cores c = 2 \<and> arg_debug c = d
     \<and> \<not> arg_binary c \<and> mem_bytes_size c = DEF_MEM_SIZE"
    using small two by (simp add: two_opts_def ctx_init_def ctx_option_def Let_def set_cores_def set_file_def
        copy_name.simps MAX_NPROCS_def ctx_start_def)
  then obtain c where c: "ctx_init SUPERVISOR_BUILD (two_opts d) = Inr c" "arg_cores c = 2"
    "arg_debug c = d" "\<not> arg_binary c" "mem_bytes_size c = DEF_MEM_SIZE" by blast
  then obtain j where "ctx_options SUPERVISOR_BUILD (two_opts d) (0, ctx_start) = Inr (j, c)"
    by (auto simp: ctx_init_def result_simps split: if_splits)
  then have "elf_args c = Some [0x61] \<and> name_of (elf_name c) = takeWhile (\<lambda>x. x \<noteq> blank) [0x61]"
    by (rule one_file) (simp_all add: is_f_def two_opts_def ctx_start_def)
  then show ?thesis using c by auto
qed

lemma two_cores_setup:
  "\<exists>c m mgr. main_setup SUPERVISOR_BUILD tiny_boot (two_opts d) () = Inr (c, m, mgr, ()) \<and> arg_cores c = 2 \<and> arg_debug c = d"
proof -
  obtain c where c: "ctx_init SUPERVISOR_BUILD (two_opts d) = Inr c" "arg_cores c = 2" "arg_debug c = d"
    "\<not> arg_binary c" "mem_bytes_size c = DEF_MEM_SIZE" "name_of (elf_name c) = [0x61]" using two_cores_ctx by blast
  let ?m = "\<lparr>mem_bytes = (\<lambda>_. 0), mem_size = DEF_MEM_SIZE\<rparr>"
  have "20 < DEF_MEM_SIZE" by (simp add: DEF_MEM_SIZE_def)
  then obtain m i where m: "ld_elf False (File tiny_elf) ?m (tiny_init\<lparr>init_sp := stack_base c\<rparr>) = Inr (m, i)"
    using tiny_loads [of ?m False "tiny_init\<lparr>init_sp := stack_base c\<rparr>"] by auto
  obtain mgr where "threads_mgr_init True 2 d (Some i) = Inr mgr"
    by (simp add: threads_mgr_init_def cthread_init_def init_rest_eq)
  then have "main_setup SUPERVISOR_BUILD tiny_boot (two_opts d) () = Inr (c, m, mgr, ())"
    using c m tiny_runs by (simp add: main_setup_def threads_mgr_init_run_def mem_init_def tiny_boot_def Let_def)
  then show ?thesis using c(2,3) by blast
qed

lemma main_runs_core0_only_witness:
  "\<forall>plat busy st0. \<exists>mgr m. main_c SUPERVISOR_BUILD plat tiny_boot (two_opts False) () busy STUB_OK [] st0
       = Inr (Cores_Run mgr m)
     \<and> ctx_cores mgr = 2 \<and> (\<forall>hs. unattended\<^sup>*\<^sup>* (hsm_init (cthreads mgr ! 1)) hs \<longrightarrow> executed hs = 0)"
proof (intro allI)
  fix plat :: "machine platform" and busy and st0 :: "Debuggee Stub"
  obtain c m mgr0 where st: "main_setup SUPERVISOR_BUILD tiny_boot (two_opts False) () = Inr (c, m, mgr0, ())"
    "arg_cores c = 2" "\<not> arg_debug c" using two_cores_setup [of False] by blast
  note cores = setup_cores [OF st(1)]
  have "\<exists>mgr. main_start mgr0 = Inr mgr"
    using cores(2-5) st(3) by (simp add: main_start_def on_core_def continue_halted)
  then obtain mgr where run: "main_c SUPERVISOR_BUILD plat tiny_boot (two_opts False) () busy STUB_OK [] st0
      = Inr (Cores_Run mgr m)"
    using st by (auto simp: main_c_def)
  from main_runs_core0_only [OF run] have two: "ctx_cores mgr = 2" and others:
    "\<And>i hs. 0 < i \<Longrightarrow> i < ctx_cores mgr \<Longrightarrow> unattended\<^sup>*\<^sup>* (hsm_init (cthreads mgr ! i)) hs \<Longrightarrow> executed hs = 0"
    using st by auto
  have "executed hs = 0" if "unattended\<^sup>*\<^sup>* (hsm_init (cthreads mgr ! 1)) hs" for hs
    by (rule others [OF _ _ that]) (simp_all add: two)
  then show "\<exists>mgr m. main_c SUPERVISOR_BUILD plat tiny_boot (two_opts False) () busy STUB_OK [] st0
       = Inr (Cores_Run mgr m)
     \<and> ctx_cores mgr = 2 \<and> (\<forall>hs. unattended\<^sup>*\<^sup>* (hsm_init (cthreads mgr ! 1)) hs \<longrightarrow> executed hs = 0)"
    using run two by blast
qed

end
