(* ===== verification/Gdb_Fields.thy ===== *)
theory Gdb_Fields
  imports Gdb_Stub Gdb_Break
begin

text \<open>
  Lemmas on the pieces every handler is made of: a field cut out of a packet, a number printed and
  read back, a reply appended to the output buffer.
\<close>

unbundle bit_operations_syntax

section \<open>Fields\<close>

lemma token_len_sep: "term = Some x \<Longrightarrow> x \<notin> set xs \<Longrightarrow> token_len term (xs @ x # ys) = length xs + 1"
  by (induction xs) auto

lemma token_len_end: "(\<And>x. term = Some x \<Longrightarrow> x \<notin> set xs) \<Longrightarrow> token_len term xs = length xs"
  by (induction xs) auto

lemma c_str_field:
  "0 \<notin> set fld \<Longrightarrow> pdata b = pre @ fld @ 0 # post \<Longrightarrow> c_str b (length pre) = fld"
  unfolding c_str_def by (simp, subst takeWhile_append2) auto

text \<open>A field that ends with its separator, and the last field of a packet.\<close>

lemma tokenizer_sep:
  assumes data: "pdata b = pre @ fld @ x # post" and fld: "fld = f # fs" "x \<notin> set fs"
    and fin: "length pre + length fld < end_pkt_data b" "end_pkt_data b < filled b"
  shows "sad_cursor_tokenizer (length pre) (Some x) b =
     Inr (length pre, length pre + length fld + 1, b\<lparr>pdata := pre @ fld @ 0 # post\<rparr>)"
proof -
  let ?rest = "take (end_pkt_data b - length pre) (drop (length pre + 1) (pdata b))"
  have "drop (length pre + 1) (pdata b) = fs @ x # post" by (simp add: data fld(1))
  moreover have "length fs + 1 \<le> end_pkt_data b - length pre" using fin(1) fld(1) by simp
  then obtain k where "end_pkt_data b - length pre = length fs + 1 + k" using le_Suc_ex by blast
  ultimately have "?rest = fs @ x # take k post" by simp
  then have "token_len (Some x) ?rest = length fld" using fld by (simp add: token_len_sep)
  moreover have "(pre @ fld @ x # post)[length pre + length fld := 0] = pre @ fld @ 0 # post"
    by (simp add: list_update_append)
  ultimately show ?thesis
    using fin by (simp add: sad_cursor_tokenizer_def Let_def data)
qed

lemma tokenizer_last:
  assumes data: "pdata b = pre @ fld @ x # post" and fin: "end_pkt_data b = length pre + length fld"
    and sep: "\<And>c. term = Some c \<Longrightarrow> c \<notin> set (tl fld) \<and> c \<noteq> x"
  shows "sad_cursor_tokenizer (length pre) term b =
     Inr (length pre, length pre + length fld + 1, b\<lparr>pdata := pre @ fld @ 0 # post\<rparr>)"
proof -
  let ?rest = "take (end_pkt_data b - length pre) (drop (length pre + 1) (pdata b))"
  have "token_len term ?rest = length fld"
  proof (cases fld)
    case Nil
    then show ?thesis using fin by simp
  next
    case (Cons f fs)
    have "drop (length pre + 1) (pdata b) = (fs @ [x]) @ post" by (simp add: data Cons)
    then have "?rest = fs @ [x]" using fin by (simp add: Cons)
    then show ?thesis using sep Cons by (subst token_len_end) (auto simp: Cons)
  qed
  moreover have "(pre @ fld @ x # post)[length pre + length fld := 0] = pre @ fld @ 0 # post"
    by (simp add: list_update_append)
  ultimately show ?thesis using fin data by (simp add: sad_cursor_tokenizer_def Let_def)
qed

section \<open>Numbers\<close>

text \<open>The digits a client sends: lower-case hexadecimal without leading zeros.\<close>

lemma hex_number_append:
  "(\<And>c. c \<in> set cs \<Longrightarrow> hex_digit c \<noteq> None) \<Longrightarrow> hex_number a (cs @ ds) = hex_number (hex_number a cs) ds"
proof (induction cs arbitrary: a)
  case (Cons c cs)
  obtain v where "hex_digit c = Some v" using Cons.prems [of c] by auto
  then show ?case using Cons by simp
qed simp

lemma hex_chars_digit:
  "n < 16 \<Longrightarrow> hex_digit (hex_chars ! n) = Some (of_nat n)"
  by (rule hex_digit_nibble)

lemma hex_digits_hex: "c \<in> set (hex_digits n) \<Longrightarrow> hex_digit c \<noteq> None"
proof (induction n rule: hex_digits.induct)
  case (1 n)
  have "n < 16 \<and> c = hex_chars ! n \<or> \<not> n < 16 \<and> (c \<in> set (hex_digits (n div 16)) \<or> c = hex_chars ! (n mod 16))"
    using 1(2) by (auto simp: hex_digits.simps [of n] split: if_splits)
  then show ?case using 1(1) hex_chars_digit [of n] hex_chars_digit [of "n mod 16"] by auto
qed

lemma uint_of_nat_digit: "k < 16 \<Longrightarrow> uint (of_nat k :: u8) = int k"
  by (simp add: uint_nat unat_of_nat)

lemma hex_number_digits: "hex_number 0 (hex_digits n) = int n"
proof (induction n rule: hex_digits.induct)
  case (1 n)
  show ?case
  proof (cases "n < 16")
    case True
    then show ?thesis by (subst hex_digits.simps) (simp add: hex_chars_digit uint_of_nat_digit)
  next
    case False
    have "n mod 16 < 16" by simp
    then have "hex_number 0 (hex_digits n) = 16 * int (n div 16) + int (n mod 16)"
      using False 1 hex_digits_hex [of _ "n div 16"]
      by (subst hex_digits.simps) (simp add: hex_number_append hex_chars_digit uint_of_nat_digit)
    also have "\<dots> = int (16 * (n div 16) + n mod 16)" by (simp only: of_nat_add of_nat_mult of_nat_numeral)
    finally show ?thesis by (simp only: mult_div_mod_eq)
  qed
qed

lemma hex_digit_plain:
  assumes "hex_digit c \<noteq> None"
  shows "c \<noteq> 0 \<and> \<not> is_space c \<and> c \<noteq> 0x2D \<and> c \<noteq> 0x2B \<and> c \<noteq> 0x78 \<and> c \<noteq> 0x58 \<and> c \<noteq> 0x2C \<and> c \<noteq> 0x3A
     \<and> c \<noteq> 0x3D \<and> c \<noteq> 0x3B \<and> c \<noteq> 0x23"
proof -
  have "c \<in> {0x30..0x39} \<union> {0x41..0x46} \<union> {0x61..0x66}"
    using assms by (auto simp: hex_digit_def split: if_splits)
  then show ?thesis by (auto simp: is_space_def word_le_nat_alt)
qed

lemma hex_digits_Nil [simp]: "hex_digits n \<noteq> []"
  by (subst hex_digits.simps) simp

lemma strtol16_hex:
  assumes "\<And>c. c \<in> set cs \<Longrightarrow> hex_digit c \<noteq> None"
  shows "strtol16 cs = hex_number 0 cs"
proof (cases cs)
  case (Cons c r)
  have c: "\<not> is_space c" "c \<noteq> 0x2D" "c \<noteq> 0x2B" using hex_digit_plain [OF assms [of c]] Cons by simp_all
  have "skip_0x cs = cs"
  proof (cases r)
    case (Cons d q)
    have "d \<noteq> 0x78 \<and> d \<noteq> 0x58" using hex_digit_plain [OF assms [of d]] Cons \<open>cs = c # r\<close> by simp
    then show ?thesis using Cons \<open>cs = c # r\<close> by (simp add: skip_0x_def split: list.splits)
  qed (simp add: skip_0x_def Cons)
  then show ?thesis using c Cons by (simp add: strtol16_def)
qed (simp add: strtol16_def)

lemma strtol_digits: "int n < LONG_MAX \<Longrightarrow> strtol (hex_digits n) = int n"
  using strtol16_hex [of "hex_digits n"] hex_digits_hex [of _ n] hex_number_digits [of n]
  by (simp add: strtol_def LONG_MIN_def)

lemma hex_digits_no:
  "0 \<notin> set (hex_digits n)" "0x2C \<notin> set (hex_digits n)" "0x3A \<notin> set (hex_digits n)" "0x3D \<notin> set (hex_digits n)"
  "0x3B \<notin> set (hex_digits n)" "0x23 \<notin> set (hex_digits n)"
  using hex_digit_plain [OF hex_digits_hex [of _ n]] by blast+

section \<open>Replies\<close>

definition can_reply :: "'s Stub \<Rightarrow> bool" where
  "can_reply st \<longleftrightarrow> buff_ok (output_buffer_g st) \<and> (\<forall>n. \<not> heap_full st n)"

definition out :: "'s Stub \<Rightarrow> u8 list" where
  "out st = pdata (output_buffer_g st)"

lemma grow_to_enough: "n \<le> data_size b \<Longrightarrow> grow_to oom n b = (b, BUFF_OK)"
  by (subst grow_to_cases) simp

lemma grow_to_marks:
  "buff_ok b \<Longrightarrow> start_pkt_data (fst (grow_to oom n b)) = start_pkt_data b
     \<and> end_pkt_data (fst (grow_to oom n b)) = end_pkt_data b"
proof (induction "n - data_size b" arbitrary: b rule: less_induct)
  case less
  let ?b2 = "b\<lparr>data_size := data_size b * 2, alloc_size := data_size b * 2\<rparr>"
  show ?case
  proof (cases "n > data_size b \<and> \<not> oom (data_size b * 2)")
    case True
    then have "buff_ok ?b2" "n - data_size ?b2 < n - data_size b" "grow_to oom n b = grow_to oom n ?b2"
      using less.prems by (auto simp: buff_ok_def grow_to_cases [of oom n b])
    then show ?thesis using less.hyps [of ?b2] by simp
  qed (use grow_to_cases [of oom n b] in auto)
qed

lemma reply_ok:
  assumes "can_reply st"
  obtains b where "reply data st = Inr (st\<lparr>output_buffer_g := b\<rparr>)" "buff_ok b" "pdata b = out st @ data"
    "start_pkt_data b = start_pkt_data (output_buffer_g st)"
    "end_pkt_data b = end_pkt_data (output_buffer_g st)"
proof -
  let ?b = "output_buffer_g st" and ?n = "filled (output_buffer_g st) + length data"
  obtain b1 r where g: "grow_to (heap_full st) ?n ?b = (b1, r)" by fastforce
  have "buff_ok b1 \<and> pdata b1 = pdata ?b \<and> r = BUFF_OK \<and> ?n \<le> data_size b1"
    using grow_to_ok [of ?b "heap_full st" ?n] assms g by (auto simp: can_reply_def)
  then show ?thesis
    using that [of "b1\<lparr>pdata := pdata b1 @ data\<rparr>"] grow_to_marks [of ?b "heap_full st" ?n] assms
    by (auto simp: reply_def sad_buff_append_def g buff_ok_def can_reply_def out_def)
qed

text \<open>
  The output buffer of \<open>st'\<close> is that of \<open>st\<close> with more bytes at its end, none of them the \<open>#\<close> that
  ends a packet; every handler keeps to this.
\<close>

definition kept :: "'s Stub \<Rightarrow> 's Stub \<Rightarrow> bool" where
  "kept st st' \<longleftrightarrow> can_reply st' \<and> start_pkt_data (output_buffer_g st') = start_pkt_data (output_buffer_g st)
     \<and> (\<exists>x. out st' = out st @ x \<and> 0x23 \<notin> set x)"

lemma kept_refl: "can_reply st \<Longrightarrow> kept st st"
  by (simp add: kept_def)

lemma kept_same:
  "kept st st1 \<Longrightarrow> output_buffer_g st2 = output_buffer_g st1 \<Longrightarrow> heap_full st2 = heap_full st1 \<Longrightarrow> kept st st2"
  by (auto simp: kept_def can_reply_def out_def)

lemma kept_reply:
  assumes "kept st st1" and "0x23 \<notin> set data"
  shows "ok_and (kept st) (reply data st1)"
proof -
  have "can_reply st1" using assms(1) by (simp add: kept_def)
  then obtain b where "reply data st1 = Inr (st1\<lparr>output_buffer_g := b\<rparr>)" "buff_ok b" "pdata b = out st1 @ data"
    "start_pkt_data b = start_pkt_data (output_buffer_g st1)" by (rule reply_ok)
  with assms show ?thesis by (auto simp: kept_def can_reply_def out_def)
qed

lemma ok_and_bind: "(\<And>x. r = Inr x \<Longrightarrow> ok_and P (f x)) \<Longrightarrow> ok_and P (and_then r f)"
  by (cases r) auto

lemma kept_bind:
  "ok_and (kept st) r \<Longrightarrow> (\<And>x. kept st x \<Longrightarrow> ok_and P (f x)) \<Longrightarrow> ok_and P (and_then r f)"
  by (cases r) auto

lemma kept_extract:
  assumes "kept st st1" and "\<And>x c st2. kept st st2 \<Longrightarrow> ok_and (kept st) (k x c st2)"
  shows "ok_and (kept st) (extract_val ext cursor term k st1)"
  unfolding extract_val_def
proof (rule ok_and_bind)
  fix r assume "ext cursor term (input_buffer_g st1) = Inr r"
  obtain v c b where r: "r = (v, c, b)" by (cases r)
  have "kept st (st1\<lparr>input_buffer_g := b\<rparr>)" using assms(1) by (rule kept_same) simp_all
  then show "ok_and (kept st) (case r of (v, cursor, b) \<Rightarrow>
      let st = st1\<lparr>input_buffer_g := b\<rparr> in case v of None \<Rightarrow> reply_str ''E'' st | Some x \<Rightarrow> k x cursor st)"
    using assms(2) kept_reply [of st "st1\<lparr>input_buffer_g := b\<rparr>"]
    by (cases v) (simp_all add: r ascii_def)
qed

lemma no_hash_hex [simp]: "0x23 \<notin> set (hex_of_bytes bs)"
proof (induction bs)
  case (Cons v bs)
  have "n < 16 \<Longrightarrow> hex_chars ! n \<noteq> 0x23" for n
    using hex_digit_plain [of "hex_chars ! n"] hex_chars_digit [of n] by auto
  from this [of "unat (drop_bit 4 v)"] this [of "unat (v AND 0xF)"] Cons show ?case
    using unsigned_less [of v, where ?'a=nat] by (auto simp: unat_nibbles)
qed simp

lemma no_hash_codec [simp]: "0x23 \<notin> set (snd (sad_bytes_to_hex_chars bs n))"
  by (simp add: sad_bytes_to_hex_chars_def)

lemma no_hash_dec: "0x23 \<notin> set (dec_digits n)"
proof (induction n rule: dec_digits.induct)
  case (1 n)
  have "k < 10 \<Longrightarrow> 0x30 + (of_nat k :: u8) \<noteq> 0x23" for k
    by (simp add: less_Suc_eq numeral_eq_Suc, elim disjE) simp_all
  from this [of n] this [of "n mod 10"] 1 show ?case
    by (subst dec_digits.simps) (auto split: if_splits)
qed

lemma no_hash_fmt [simp]:
  "0x23 \<notin> set (fmt_u v)" "0x23 \<notin> set (fmt_d v)" "0x23 \<notin> set (fmt_02x v)"
  by (simp_all add: fmt_u_def fmt_d_def fmt_02x_def no_hash_dec hex_digits_no)

end
