(* ===== verification/Gdb_Frame.thy ===== *)
theory Gdb_Frame
  imports Gdb_Fields
begin

text \<open>
  Whatever the packet, a handler only appends to the output buffer and never a \<open>#\<close>; so every reply
  is a frame, and the stub's own parser accepts it.
\<close>

unbundle bit_operations_syntax

section \<open>Operations that leave the output alone\<close>

definition same_out :: "'s Stub \<Rightarrow> 's Stub \<Rightarrow> bool" where
  "same_out st st' \<longleftrightarrow> output_buffer_g st' = output_buffer_g st \<and> heap_full st' = heap_full st"

lemma kept_same_out: "kept st st1 \<Longrightarrow> same_out st1 st2 \<Longrightarrow> kept st st2"
  by (auto simp: same_out_def intro: kept_same)

lemma write_regs_same: "write_regs_from bs c rs st = Inr st' \<Longrightarrow> same_out st st'"
  by (induction bs c rs st rule: write_regs_from.induct) (auto simp: same_out_def Let_def result_simps)

lemma insert_same: "sad_insert_breakpoint addr st = Inr (ret, st') \<Longrightarrow> same_out st st'"
  by (auto simp: sad_insert_breakpoint_def same_out_def Let_def result_simps split: option.splits if_splits)

lemma remove_same: "sad_remove_breakpoint addr st = Inr (ret, st') \<Longrightarrow> same_out st st'"
  by (auto simp: sad_remove_breakpoint_def same_out_def result_simps split: option.splits)

lemma same_out_trans: "same_out st st1 \<Longrightarrow> same_out st1 st2 \<Longrightarrow> same_out st st2"
  by (simp add: same_out_def)

lemma same_out_sys [simp]: "same_out st (st\<lparr>sys := s\<rparr>)"
  by (simp add: same_out_def)

lemma step_brk_same: "sad_step_the_breakpoint c st = Inr (ret, st') \<Longrightarrow> same_out st st'"
  by (auto simp: sad_step_the_breakpoint_def result_simps split: if_splits
      dest!: insert_same remove_same intro: same_out_trans) (auto simp: same_out_def)

lemma step_breakpoints_same: "step_breakpoints cs st = Inr st' \<Longrightarrow> same_out st st'"
proof (induction cs arbitrary: st)
  case (Cons i cs)
  then show ?case by (auto simp: result_simps dest!: step_brk_same intro: same_out_trans)
qed (simp add: same_out_def)

lemma wait_loop_same: "same_out st0 st \<Longrightarrow> ok_and (\<lambda>p. same_out st0 (snd p)) (wait_loop evs st)"
proof (induction evs arbitrary: st)
  case (Cons ev evs)
  have "same_out st0 (st\<lparr>sys := s, input_buffer_g := b\<rparr>)" "same_out st0 (st\<lparr>input_buffer_g := b, sys := s\<rparr>)"
    for s b
    using Cons.prems by (simp_all add: same_out_def)
  then show ?case
    unfolding wait_loop.simps Let_def by (intro ok_and_bind) (auto intro!: ok_and_bind Cons.IH)
qed simp

lemma wait_for_halt_same: "wait_for_halt evs st = Inr (stop, st') \<Longrightarrow> same_out st st'"
  using wait_loop_same [of st "sad_socket_blocking False st" evs]
  by (auto simp: wait_for_halt_def sad_socket_blocking_def result_simps same_out_def)

lemma vcont_continue_same:
  assumes "vcont_action 0x63 t st = Inr (Some st')"
  shows "same_out st st'"
proof (cases "t = -1")
  case True
  then obtain st1 s where "step_breakpoints [0..<unat (smp (sys_conf_g st))] st = Inr st1" "st' = st1\<lparr>sys := s\<rparr>"
    using assms by (auto simp: vcont_action_def Let_def result_simps)
  then show ?thesis by (auto dest!: step_breakpoints_same simp: same_out_def)
next
  case False
  then obtain r st1 s where "sad_step_the_breakpoint (word_of_int t) st = Inr (r, st1)" "st' = st1\<lparr>sys := s\<rparr>"
    using assms by (auto simp: vcont_action_def Let_def result_simps)
  then show ?thesis by (auto dest!: step_brk_same simp: same_out_def)
qed

lemma vcont_step_same:
  assumes "vcont_action a t st = Inr (Some st')" "a \<noteq> 0x63"
  shows "same_out st st'"
proof -
  obtain r st1 s where "sad_step_the_breakpoint (word_of_int t) st = Inr (r, st1)"
    "st' = st1 \<or> st' = st1\<lparr>sys := s\<rparr>"
    using assms by (auto simp: vcont_action_def Let_def result_simps split: if_splits)
  then show ?thesis by (auto dest!: step_brk_same simp: same_out_def)
qed

section \<open>Handlers\<close>

lemma kept_sprintf: "(length s < n \<Longrightarrow> ok_and P (k s)) \<Longrightarrow> ok_and P (sprintf n s k)"
  by (simp add: sprintf_def)

lemmas handler_defs = build_p_def build_P_def build_g_def build_G_def build_m_def build_M_def build_qstmrk_def
  build_T_def build_unsupported_def build_Q_def build_H_def build_Z_def build_z_def

lemmas kept_intros = kept_extract kept_reply kept_sprintf impI conjI

lemma kept_sys: "kept st st1 \<Longrightarrow> kept st (st1\<lparr>sys := s\<rparr>)"
  by (auto intro: kept_same)

lemma kept_input: "kept st st1 \<Longrightarrow> kept st (st1\<lparr>input_buffer_g := b\<rparr>)"
  by (auto intro: kept_same)

lemma kept_ack: "kept st st1 \<Longrightarrow> kept st (st1\<lparr>ack_enabled_g := x\<rparr>)"
  by (auto intro: kept_same)

lemma kept_select: "kept st st1 \<Longrightarrow> kept st (st1\<lparr>selected_core := x\<rparr>)"
  by (auto intro: kept_same)

lemmas kept_updates = kept_sys kept_input kept_ack kept_select

lemma kept_p: "kept st st1 \<Longrightarrow> ok_and (kept st) (build_p st1)"
  unfolding build_p_def by (intro kept_extract) (auto intro!: ok_and_bind kept_reply simp: ascii_def)

lemma kept_P: "kept st st1 \<Longrightarrow> ok_and (kept st) (build_P st1)"
  unfolding build_P_def
  by (intro kept_extract) (auto intro!: ok_and_bind kept_reply kept_updates simp: ascii_def)

lemma kept_g: "kept st st1 \<Longrightarrow> ok_and (kept st) (build_g st1)"
  unfolding build_g_def by (auto intro!: ok_and_bind kept_reply)

lemma kept_G: "kept st st1 \<Longrightarrow> ok_and (kept st) (build_G st1)"
  unfolding build_G_def sad_target_write_regs_def Let_def
  by (auto intro!: ok_and_bind kept_reply kept_updates simp: ascii_def
      dest!: write_regs_same intro: kept_same_out [OF kept_input])

lemma kept_m: "kept st st1 \<Longrightarrow> ok_and (kept st) (build_m st1)"
  unfolding build_m_def by (intro kept_extract) (auto intro!: ok_and_bind kept_reply simp: ascii_def)

lemma kept_M: "kept st st1 \<Longrightarrow> ok_and (kept st) (build_M st1)"
  unfolding build_M_def Let_def
  by (intro kept_extract) (auto intro!: ok_and_bind kept_reply kept_updates simp: ascii_def
      split: util_ret.splits prod.splits)

lemma kept_Q: "kept st st1 \<Longrightarrow> ok_and (kept st) (build_Q st1)"
  unfolding build_Q_def Let_def by (auto intro!: ok_and_bind kept_reply kept_updates simp: ascii_def)

lemma kept_H: "kept st st1 \<Longrightarrow> ok_and (kept st) (build_H st1)"
  unfolding build_H_def Let_def
  by (auto intro!: ok_and_bind kept_extract kept_reply kept_updates simp: ascii_def)

lemma kept_brk_request:
  assumes "kept st st1" and "\<And>ret st2. f addr st1 = Inr (ret, st2) \<Longrightarrow> same_out st1 st2"
  shows "ok_and (kept st) (brk_request type addr kind f good st1)"
  unfolding brk_request_def using assms
  by (auto intro!: ok_and_bind kept_reply simp: ascii_def intro: kept_same_out)

lemma kept_Z: "kept st st1 \<Longrightarrow> ok_and (kept st) (build_Z st1)"
  unfolding build_Z_def by (intro kept_extract kept_brk_request) (auto intro: insert_same)

lemma kept_z: "kept st st1 \<Longrightarrow> ok_and (kept st) (build_z st1)"
  unfolding build_z_def by (intro kept_extract kept_brk_request) (auto intro: remove_same)

lemma kept_query: "kept st st1 \<Longrightarrow> (kept st st1 \<Longrightarrow> ok_and (kept st) (f st1)) \<Longrightarrow> ok_and (kept st) (query c name f st1)"
  by (simp add: query_def)

lemma kept_thread_ids: "kept st st1 \<Longrightarrow> ok_and (kept st) (thread_ids cs st1)"
proof (induction cs arbitrary: st1)
  case (Cons i cs)
  then show ?case by (auto intro!: kept_sprintf kept_bind [where st = st] kept_reply)
qed simp

lemma kept_thread_info: "kept st st1 \<Longrightarrow> ok_and (kept st) (thread_info st1)"
  unfolding thread_info_def
  by (intro kept_bind [where st = st] kept_thread_ids kept_sprintf kept_reply) (auto simp: ascii_def)

lemma kept_extra:
  assumes "kept st st1" and k: "\<And>st2. kept st st2 \<Longrightarrow> ok_and (kept st) (k st2)"
  shows "ok_and (kept st) (thread_extra_info c k st1)"
  unfolding thread_extra_info_def
proof (rule kept_extract [OF assms(1)])
  fix thread_id c' and st2 :: "'a Stub" assume st2: "kept st st2"
  have "ok_and (kept st) (and_then r (\<lambda>core_name. and_then (reply (snd (sad_bytes_to_hex_chars core_name
      (2 * length core_name))) st2) k))" for r
    by (rule ok_and_bind, rule kept_bind [OF kept_reply k]) (use st2 in simp_all)
  then show "ok_and (kept st) (if smp (sys_conf_g st2) \<le> thread_id - 1 then reply_str ''E'' st2 else
      and_then (op_core_name (sys_ops_g st2) (if thread_id = 0 then selected_core st2 else thread_id - 1) (sys st2))
       (\<lambda>core_name. and_then (reply (snd (sad_bytes_to_hex_chars core_name (2 * length core_name))) st2) k))"
    using kept_reply [OF st2] by (simp add: ascii_def)
qed

lemma kept_q: "kept st st1 \<Longrightarrow> ok_and (kept st) (build_q st1)"
proof -
  assume st1: "kept st st1"
  have others: "ok_and (kept st)
     (and_then (query c ''qSupported'' (reply_str ''swbreak+;vCont+;QStartNoAckMode+'') st2) (\<lambda>st.
      and_then (query c ''qfThreadInfo'' thread_info st) (\<lambda>st.
      and_then (query c ''qsThreadInfo'' (reply_str ''l'') st) (\<lambda>st.
      and_then (query c ''qC'' (\<lambda>st. sprintf 10 (ascii ''QC'' @ fmt_u (selected_core st + 1)) (\<lambda>s. reply s st)) st)
        (query c ''qSymbol'' (reply_str ''OK''))))))"
    if st2: "kept st st2" for st2 c
    by (intro kept_bind [where st = st] kept_query kept_reply kept_thread_info kept_sprintf st2; assumption?)
      (simp_all add: ascii_def)
  show ?thesis
    unfolding build_q_def Let_def
    by (intro ok_and_bind, clarsimp, intro ok_and_bind, clarsimp, intro conjI impI)
      (rule kept_extra others, rule kept_input, rule st1, (erule others)?)+
qed

lemma kept_stop_regs: "kept st st1 \<Longrightarrow> ok_and (kept st) (stop_regs h rs st1)"
proof (induction rs arbitrary: st1)
  case (Cons r rs)
  then show ?case
    by (auto intro!: ok_and_bind [where r = "op_read_reg _ _ _ _"] kept_sprintf kept_bind [where st = st] kept_reply
        simp: ascii_def)
qed simp

lemma kept_stop_reply: "kept st st1 \<Longrightarrow> ok_and (kept st) (stop_reply t st1)"
  unfolding stop_reply_def
  by (rule kept_bind [where st = st], rule kept_reply, assumption, simp add: ascii_def, rule ok_and_bind)
    (auto intro!: kept_sprintf kept_bind [where st = st] kept_reply kept_stop_regs simp: ascii_def)

lemma kept_vcont_run:
  assumes "kept st st1"
  shows "ok_and (kept st) (vcont_run waits a t st1)"
proof -
  have E: "ok_and (kept st) (reply_str ''E'' st1)" using kept_reply [OF assms] by (simp add: ascii_def)
  have "ok_and (kept st) (and_then (wait_for_halt waits st2) (\<lambda>(stop, st).
      if \<not> stop then reply_str ''S02'' st else stop_reply u st))" if "vcont_action a u st1 = Inr (Some st2)" for u st2
  proof (rule ok_and_bind)
    fix r assume w: "wait_for_halt waits st2 = Inr r"
    obtain stop st3 where r: "r = (stop, st3)" by (cases r)
    have "kept st st3"
      using w that vcont_continue_same [of u st1 st2] vcont_step_same [of a u st1 st2] assms
      by (metis kept_same_out wait_for_halt_same r)
    then show "ok_and (kept st) (case r of (stop, st) \<Rightarrow>
        if \<not> stop then reply_str ''S02'' st else stop_reply u st)"
      using kept_stop_reply [of st st3 u] kept_reply [of st st3 "ascii ''S02''"] by (simp add: r ascii_def)
  qed
  then have run: "ok_and (kept st) (and_then (vcont_action a u st1) (\<lambda>r. case r of
               None \<Rightarrow> reply_str ''E'' st1
             | Some st \<Rightarrow> and_then (wait_for_halt waits st) (\<lambda>(stop, st).
                 if \<not> stop then reply_str ''S02'' st else stop_reply u st)))" for u
    using E by (intro ok_and_bind) (simp split: option.splits)
  show ?thesis using E run by (simp add: vcont_run_def Let_def)
qed

lemma kept_v:
  assumes "kept st st1"
  shows "ok_and (kept st) (build_v waits st1)"
  unfolding build_v_def Let_def using assms
  by (intro ok_and_bind) (auto intro!: ok_and_bind [where r = "buff_at _ _"] kept_extract kept_vcont_run kept_reply
      kept_input simp: ascii_def)

lemma kept_build: "kept st st1 \<Longrightarrow> ok_and (kept st) (build c waits st1)"
  by (cases c) (simp_all add: kept_p kept_P kept_q kept_Q kept_m kept_M kept_G kept_g kept_z kept_Z kept_H
      kept_v build_qstmrk_def build_T_def build_unsupported_def kept_reply ascii_def)

section \<open>The frame\<close>

lemma map_nth_window: "b \<le> length xs \<Longrightarrow> map ((!) xs) [a..<b] = drop a (take b xs)"
  by (rule nth_equalityI) simp_all

lemma checksum_window:
  "end_pkt_data b \<le> filled b \<Longrightarrow>
     sad_buff_checksum b = payload_sum (drop (start_pkt_data b) (take (end_pkt_data b) (pdata b)))"
  by (simp add: sad_buff_checksum_def payload_sum_def flip: map_nth_window) (simp add: comp_def)

lemma fmt_checksum: "fmt_02x (ucast (v :: u8)) = hex_of_bytes [v]"
proof -
  have u: "unat (ucast v :: u32) = unat v"
    by (simp add: unsigned_ucast_eq unsigned_take_bit_eq take_bit_nat_eq_self order_less_le_trans
        [OF unsigned_less])
  have v: "unat v < 256" using unsigned_less [of v, where ?'a=nat] by simp
  have "fmt_02x (ucast v) = [hex_chars ! (unat v div 16), hex_chars ! (unat v mod 16)]"
  proof (cases "unat v < 16")
    case True
    then show ?thesis
      by (simp add: fmt_02x_def u word_less_nat_alt hex_digits.simps [of "unat v"]) (simp add: hex_chars_def)
  next
    case False
    then have "unat v div 16 < 16" using v by simp
    then show ?thesis using False
      by (simp add: fmt_02x_def u word_less_nat_alt hex_digits.simps [of "unat v"]
          hex_digits.simps [of "unat v div 16"])
  qed
  then show ?thesis by (simp add: unat_nibbles)
qed

text \<open>
  Every packet that is answered at all is answered by one frame: the start mark, a payload without
  \<open>#\<close>, the end mark and the payload's checksum.
\<close>

lemma reply_frame:
  assumes reply: "can_reply st" and empty: "out st = []" and resp: "sad_builder_build_resp waits st = Inr st'"
  shows "\<exists>payload. 0x23 \<notin> set payload \<and> out st' = (if ack_enabled_g st then [0x2B] else [])
     @ 0x24 # payload @ 0x23 # hex_of_bytes [payload_sum payload]"
proof -
  let ?pre = "ascii (if ack_enabled_g st then ''+$'' else ''$'')"
  let ?mark = "\<lambda>st. st\<lparr>output_buffer_g := (output_buffer_g st)\<lparr>start_pkt_data := filled (output_buffer_g st)\<rparr>\<rparr>"
  let ?fin = "\<lambda>st. st\<lparr>output_buffer_g := (output_buffer_g st)\<lparr>end_pkt_data := filled (output_buffer_g st)\<rparr>\<rparr>"
  obtain b1 where b1: "reply ?pre st = Inr (st\<lparr>output_buffer_g := b1\<rparr>)" "buff_ok b1" "pdata b1 = ?pre"
    using reply_ok [OF reply, of ?pre] empty by auto
  let ?s1 = "?mark (st\<lparr>output_buffer_g := b1\<rparr>)"
  have r1: "can_reply ?s1" using b1 reply by (simp add: can_reply_def buff_ok_def)
  obtain c s2 where s2: "build c waits ?s1 = Inr s2"
    and rest: "and_then (reply_str ''#'' (?fin s2)) (\<lambda>st. let checksum = sad_buff_checksum (output_buffer_g st)
        in sprintf 3 (fmt_02x (ucast checksum)) (\<lambda>s. reply s st)) = Inr st'"
    using resp b1(1) by (auto simp: sad_builder_build_resp_def Let_def result_simps)
  have "kept ?s1 s2" by (rule ok_andD [OF kept_build [OF kept_refl [OF r1]] s2])
  then obtain x where x: "can_reply s2" "start_pkt_data (output_buffer_g s2) = length ?pre" "out s2 = ?pre @ x"
    "0x23 \<notin> set x"
    using b1(3) by (auto simp: kept_def out_def)
  have r2: "can_reply (?fin s2)" using x(1) by (simp add: can_reply_def buff_ok_def)
  obtain b3 where b3: "reply_str ''#'' (?fin s2) = Inr ((?fin s2)\<lparr>output_buffer_g := b3\<rparr>)" "buff_ok b3"
    "pdata b3 = ?pre @ x @ [0x23]" "start_pkt_data b3 = length ?pre" "end_pkt_data b3 = length ?pre + length x"
    using reply_ok [OF r2, of "ascii ''#''"] x(2,3) by (auto simp: out_def ascii_def)
  let ?s3 = "(?fin s2)\<lparr>output_buffer_g := b3\<rparr>"
  have sum: "sad_buff_checksum b3 = payload_sum x" using b3 by (simp add: checksum_window)
  have r3: "can_reply ?s3" using b3(2) r2 by (simp add: can_reply_def)
  obtain b4 where b4: "reply (hex_of_bytes [payload_sum x]) ?s3 = Inr (?s3\<lparr>output_buffer_g := b4\<rparr>)"
    "pdata b4 = ?pre @ x @ [0x23] @ hex_of_bytes [payload_sum x]"
    using reply_ok [OF r3, of "hex_of_bytes [payload_sum x]"] b3(3) by (auto simp: out_def)
  have "st' = ?s3\<lparr>output_buffer_g := b4\<rparr>"
    using rest b3(1) b4(1) by (simp add: sum fmt_checksum sprintf_def)
  then show ?thesis using b4(2) x(4) by (auto simp: out_def ascii_def)
qed

lemma frame_accepted:
  assumes "0x23 \<notin> set payload" "concat cs = packet payload (hex_of_bytes [payload_sum payload])"
    and "p_state p = PARSE_RESET" "parse_idx p = 0" "pdata b = []" "end_pkt_data b = 0"
  shows "\<exists>p' b'. parse_chunks True cs p b = (p', b') \<and> p_state p' = PARSE_FINISHED
      \<and> take (end_pkt_data b' - start_pkt_data b') (drop (start_pkt_data b') (pdata b')) = payload"
proof -
  let ?bs = "packet payload (hex_of_bytes [payload_sum payload])"
  have "parse_chunks True cs p b = parse_loop True p (fed ?bs b)"
    using assms by (intro chunks_packet) simp_all
  moreover have "\<exists>p' b'. parse_loop True p (fed ?bs b) = (p', b') \<and> start_pkt_data b' = 2
      \<and> end_pkt_data b' = 2 + length payload \<and> pdata b' = ?bs \<and> p_state p' = PARSE_FINISHED"
    using parse_packet [OF assms(1,3,4), of "fed ?bs b" "hex_chars ! unat (drop_bit 4 (payload_sum payload))"
        "hex_chars ! unat (payload_sum payload AND 0xF)"] strtol_hex_byte [of "payload_sum payload"] assms(5)
    by auto
  moreover have "take (length payload) (drop 2 ?bs) = payload" by (simp add: packet_def numeral_2_eq_2)
  ultimately show ?thesis by auto
qed

text \<open>
  C23: whatever a packet contains, the reply to it (if the handler does not abort the process) is one
  frame with a payload free of \<open>#\<close> and the payload's checksum, and while acknowledgements are on the
  stub's own parser, fed with the reply in any pieces, accepts it and delimits exactly that payload.
\<close>

theorem replies_are_frames:
  assumes "can_reply st" and "out st = []" and "sad_builder_build_resp waits st = Inr st'"
    and "ack_enabled_g st" and "concat cs = out st'"
  shows "\<exists>payload p' b'. 0x23 \<notin> set payload
     \<and> out st' = packet payload (hex_of_bytes [payload_sum payload])
     \<and> parse_chunks True cs fresh_parser \<lparr>initial_size = 128, start_pkt_data = 0, end_pkt_data = 0,
         data_size = 128, alloc_size = 128, pdata = []\<rparr> = (p', b') \<and> p_state p' = PARSE_FINISHED
     \<and> take (end_pkt_data b' - start_pkt_data b') (drop (start_pkt_data b') (pdata b')) = payload"
proof -
  obtain payload where "0x23 \<notin> set payload" "out st' = packet payload (hex_of_bytes [payload_sum payload])"
    using reply_frame [OF assms(1-3)] assms(4) by (auto simp: packet_def)
  then show ?thesis
    using frame_accepted [of payload cs fresh_parser] assms(5) by (auto simp: fresh_parser_def)
qed

end
