(* ===== verification/Gdb_Props.thy ===== *)
theory Gdb_Props
  imports Gdb_Frame Debug Supervisor
begin

text \<open>
  The stub against the emulator: what a client reads back is what it wrote, breakpoints are
  invisible, and what a malformed packet or a refused allocation does.
\<close>

unbundle bit_operations_syntax

section \<open>Packets and their fields\<close>

definition holds :: "PKT_Buffer \<Rightarrow> u8 list \<Rightarrow> bool" where
  "holds b payload \<longleftrightarrow> (\<exists>pre post. pdata b = pre @ payload @ 0x23 # post
     \<and> start_pkt_data b = length pre \<and> end_pkt_data b = length pre + length payload)"

lemma hex_digits_Cons: "\<exists>f fs. hex_digits n = f # fs"
  by (cases "hex_digits n") simp_all

lemma extract_number_sep:
  assumes data: "pdata b = pre @ hex_digits n @ x # post" and x: "x \<notin> set (hex_digits n)"
    and fin: "length pre + length (hex_digits n) < end_pkt_data b" "end_pkt_data b < filled b"
    and n: "int n < LONG_MAX"
  shows "sad_extract_uint64 (length pre) (Some x) b = Inr (Some (of_nat n),
      length pre + length (hex_digits n) + 1, b\<lparr>pdata := pre @ hex_digits n @ 0 # post\<rparr>)"
    and "n < 2 ^ 32 \<Longrightarrow> sad_extract_uint32 (length pre) (Some x) b = Inr (Some (of_nat n),
      length pre + length (hex_digits n) + 1, b\<lparr>pdata := pre @ hex_digits n @ 0 # post\<rparr>)"
proof -
  obtain f fs where f: "hex_digits n = f # fs" using hex_digits_Cons by blast
  have tok: "sad_cursor_tokenizer (length pre) (Some x) b = Inr (length pre,
      length pre + length (hex_digits n) + 1, b\<lparr>pdata := pre @ hex_digits n @ 0 # post\<rparr>)"
    using x by (intro tokenizer_sep [OF data f _ fin]) (simp add: f)
  have "c_str (b\<lparr>pdata := pre @ hex_digits n @ 0 # post\<rparr>) (length pre) = hex_digits n"
    by (rule c_str_field [OF hex_digits_no(1)]) simp
  then show "sad_extract_uint64 (length pre) (Some x) b = Inr (Some (of_nat n),
      length pre + length (hex_digits n) + 1, b\<lparr>pdata := pre @ hex_digits n @ 0 # post\<rparr>)"
    "n < 2 ^ 32 \<Longrightarrow> sad_extract_uint32 (length pre) (Some x) b = Inr (Some (of_nat n),
      length pre + length (hex_digits n) + 1, b\<lparr>pdata := pre @ hex_digits n @ 0 # post\<rparr>)"
    using n by (simp_all add: sad_extract_uint64_def sad_extract_uint32_def tok Let_def strtol_digits)
qed

lemma extract_number_last:
  assumes data: "pdata b = pre @ hex_digits n @ x # post"
    and fin: "end_pkt_data b = length pre + length (hex_digits n)" and n: "int n < LONG_MAX"
  shows "sad_extract_uint64 (length pre) None b = Inr (Some (of_nat n),
      length pre + length (hex_digits n) + 1, b\<lparr>pdata := pre @ hex_digits n @ 0 # post\<rparr>)"
    and "n < 2 ^ 32 \<Longrightarrow> sad_extract_uint32 (length pre) None b = Inr (Some (of_nat n),
      length pre + length (hex_digits n) + 1, b\<lparr>pdata := pre @ hex_digits n @ 0 # post\<rparr>)"
proof -
  have tok: "sad_cursor_tokenizer (length pre) None b = Inr (length pre,
      length pre + length (hex_digits n) + 1, b\<lparr>pdata := pre @ hex_digits n @ 0 # post\<rparr>)"
    by (intro tokenizer_last [OF data fin]) simp
  have "c_str (b\<lparr>pdata := pre @ hex_digits n @ 0 # post\<rparr>) (length pre) = hex_digits n"
    by (rule c_str_field [OF hex_digits_no(1)]) simp
  then show "sad_extract_uint64 (length pre) None b = Inr (Some (of_nat n),
      length pre + length (hex_digits n) + 1, b\<lparr>pdata := pre @ hex_digits n @ 0 # post\<rparr>)"
    "n < 2 ^ 32 \<Longrightarrow> sad_extract_uint32 (length pre) None b = Inr (Some (of_nat n),
      length pre + length (hex_digits n) + 1, b\<lparr>pdata := pre @ hex_digits n @ 0 # post\<rparr>)"
    using n by (simp_all add: sad_extract_uint64_def sad_extract_uint32_def tok Let_def strtol_digits)
qed

lemma no_zero_hex: "0 \<notin> set (hex_of_bytes bs)"
proof (induction bs)
  case (Cons v bs)
  have "n < 16 \<Longrightarrow> hex_chars ! n \<noteq> 0" for n
    using hex_digit_plain [of "hex_chars ! n"] hex_chars_digit [of n] by auto
  from this [of "unat (drop_bit 4 v)"] this [of "unat (v AND 0xF)"] Cons show ?case
    using unsigned_less [of v, where ?'a=nat] by (auto simp: unat_nibbles)
qed simp

lemma codec_exact: "length bs = n \<Longrightarrow> snd (sad_bytes_to_hex_chars bs (2 * n)) = hex_of_bytes bs"
  by (simp add: sad_bytes_to_hex_chars_def)

lemma extract_val_Some:
  "ext cursor term (input_buffer_g st) = Inr (Some x, c, b) \<Longrightarrow>
     extract_val ext cursor term k st = k x c (st\<lparr>input_buffer_g := b\<rparr>)"
  by (simp add: extract_val_def)

definition m_packet :: "nat \<Rightarrow> nat \<Rightarrow> u8 list" where
  "m_packet addr n = [0x6D] @ hex_digits addr @ [0x2C] @ hex_digits n"

definition M_packet :: "nat \<Rightarrow> u8 list \<Rightarrow> u8 list" where
  "M_packet addr bs = [0x4D] @ hex_digits addr @ [0x2C] @ hex_digits (length bs) @ [0x3A] @ hex_of_bytes bs"

section \<open>Reading and writing memory\<close>

lemma addr_no_wrap:
  "x + y < limit \<Longrightarrow> limit \<le> 2 ^ 32 \<Longrightarrow> \<not> (of_nat x + of_nat y \<ge> (of_nat limit :: u64))"
  "x < 2 ^ 32 \<Longrightarrow> unat (of_nat x :: u64) = x"
  by (simp_all add: word_le_nat_alt unat_of_nat unat_word_ariths take_bit_eq_mod)

context debuggee
begin

lemma build_m_ok:
  assumes ops: "sys_ops_g st = ops" "well (sys st)" and size: "memory_size (sys_conf_g st) = of_nat limit"
    and lim: "x + n < limit" "limit \<le> 2 ^ 32" and rep: "can_reply st"
    and packet: "holds (input_buffer_g st) (m_packet x n)"
  shows "\<exists>st'. build_m st = Inr st' \<and> out st' = out st @ hex_of_bytes (map (content (sys st)) [x..<x + n])
     \<and> sys st' = sys st"
proof -
  obtain pre post where b: "pdata (input_buffer_g st) = pre @ m_packet x n @ 0x23 # post"
    "start_pkt_data (input_buffer_g st) = length pre"
    "end_pkt_data (input_buffer_g st) = length pre + length (m_packet x n)"
    using packet by (auto simp: holds_def)
  define p1 p2 where "p1 = pre @ [0x6D]" and "p2 = p1 @ hex_digits x @ [0]"
  define b1 where "b1 = (input_buffer_g st)\<lparr>pdata := p1 @ hex_digits x @ 0 # hex_digits n @ 0x23 # post\<rparr>"
  define s1 where "s1 = st\<lparr>input_buffer_g := b1\<rparr>"
  define s2 where "s2 = s1\<lparr>input_buffer_g := b1\<lparr>pdata := p2 @ hex_digits n @ 0 # post\<rparr>\<rparr>"
  have in1: "input_buffer_g s1 = b1" by (simp add: s1_def)
  have big: "int x < LONG_MAX" "int n < LONG_MAX" using lim by (simp_all add: LONG_MAX_def)
  have "sad_extract_uint64 (length p1) (Some 0x2C) (input_buffer_g st)
      = Inr (Some (of_nat x), length p1 + length (hex_digits x) + 1, b1)"
    unfolding b1_def
    by (rule extract_number_sep(1)) (use b big in \<open>simp_all add: m_packet_def hex_digits_no p1_def\<close>)
  moreover have "start_pkt_data (input_buffer_g st) + 1 = length p1" using b(2) by (simp add: p1_def)
  moreover define K :: "u64 \<Rightarrow> nat \<Rightarrow> 's Stub \<Rightarrow> 's Stub result" where "K = (\<lambda>len cursor st.
       if of_nat x + len \<ge> memory_size (sys_conf_g st) then reply_str ''E'' st
       else and_then (op_read_mem (sys_ops_g st) (unat len) (of_nat x) (sys st)) (\<lambda>mem.
              reply (snd (sad_bytes_to_hex_chars mem (2 * unat len))) st))"
  ultimately have "build_m st = extract_val sad_extract_uint64 (length p2) None K s1"
    unfolding build_m_def s1_def by (simp only: extract_val_Some) (simp add: p2_def)
  also have "sad_extract_uint64 (length p2) None (input_buffer_g s1)
      = Inr (Some (of_nat n), length p2 + length (hex_digits n) + 1, b1\<lparr>pdata := p2 @ hex_digits n @ 0 # post\<rparr>)"
    unfolding in1
    by (rule extract_number_last(1)) (use b big in \<open>simp_all add: m_packet_def b1_def p1_def p2_def\<close>)
  then have "extract_val sad_extract_uint64 (length p2) None K s1
      = K (of_nat n) (length p2 + length (hex_digits n) + 1) s2"
    unfolding s2_def by (rule extract_val_Some)
  also have "\<dots> = reply (hex_of_bytes (map (content (sys st)) [x..<x + n])) s2"
  proof -
    have "op_read_mem ops n (of_nat x) (sys st) = Inr (map (content (sys st)) [x..<x + n])"
      using read_mem [OF ops(2), of "of_nat x" n] lim addr_no_wrap(2) [of x] by simp
    moreover have "sys_conf_g s2 = sys_conf_g st" "sys_ops_g s2 = ops" "sys s2 = sys st"
      using ops by (simp_all add: s2_def s1_def)
    moreover have "unat (of_nat n :: u64) = n" by (rule addr_no_wrap(2)) (use lim in simp)
    ultimately show ?thesis
      by (simp only: K_def size addr_no_wrap(1) [OF lim] if_False and_then.simps codec_exact length_map
          length_upt diff_add_inverse)
  qed
  finally have "build_m st = reply (hex_of_bytes (map (content (sys st)) [x..<x + n])) s2" .
  moreover have s2: "can_reply s2" "out s2 = out st" "sys s2 = sys st"
    using rep by (simp_all add: can_reply_def out_def s2_def s1_def)
  moreover obtain ob where "reply (hex_of_bytes (map (content (sys st)) [x..<x + n])) s2
      = Inr (s2\<lparr>output_buffer_g := ob\<rparr>)"
    "pdata ob = out s2 @ hex_of_bytes (map (content (sys st)) [x..<x + n])"
    by (rule reply_ok [OF s2(1)])
  ultimately show ?thesis by (simp add: out_def)
qed

lemma build_M_ok:
  assumes ops: "sys_ops_g st = ops" "well (sys st)" and size: "memory_size (sys_conf_g st) = of_nat limit"
    and lim: "x + length bs < limit" "limit \<le> 2 ^ 32" and rep: "can_reply st"
    and packet: "holds (input_buffer_g st) (M_packet x bs)"
  shows "\<exists>st'. build_M st = Inr st' \<and> out st' = out st @ ascii ''OK'' \<and> well (sys st')
     \<and> content (sys st') = overwrite (content (sys st)) x bs \<and> regval (sys st') = regval (sys st)
     \<and> sys_ops_g st' = sys_ops_g st \<and> sys_conf_g st' = sys_conf_g st"
proof -
  let ?n = "length bs"
  obtain pre post where b: "pdata (input_buffer_g st) = pre @ M_packet x bs @ 0x23 # post"
    "start_pkt_data (input_buffer_g st) = length pre"
    "end_pkt_data (input_buffer_g st) = length pre + length (M_packet x bs)"
    using packet by (auto simp: holds_def)
  define p1 p2 p3 where "p1 = pre @ [0x4D]" and "p2 = p1 @ hex_digits x @ [0]"
    and "p3 = p2 @ hex_digits ?n @ [0]"
  define b1 where "b1 = (input_buffer_g st)\<lparr>pdata := p1 @ hex_digits x @ 0 # hex_digits ?n @ 0x3A #
    hex_of_bytes bs @ 0x23 # post\<rparr>"
  define b2 where "b2 = b1\<lparr>pdata := p2 @ hex_digits ?n @ 0 # hex_of_bytes bs @ 0x23 # post\<rparr>"
  define b3 where "b3 = b2\<lparr>pdata := p3 @ hex_of_bytes bs @ 0 # post\<rparr>"
  define s1 s2 s3 where "s1 = st\<lparr>input_buffer_g := b1\<rparr>" and "s2 = s1\<lparr>input_buffer_g := b2\<rparr>"
    and "s3 = s2\<lparr>input_buffer_g := b3\<rparr>"
  have ins: "input_buffer_g s1 = b1" "input_buffer_g s2 = b2" by (simp_all add: s1_def s2_def)
  have big: "int x < LONG_MAX" "int ?n < LONG_MAX" using lim by (simp_all add: LONG_MAX_def)
  define K1 :: "u64 \<Rightarrow> u64 \<Rightarrow> nat \<Rightarrow> 's Stub \<Rightarrow> 's Stub result" where "K1 = (\<lambda>addr len cursor st.
       if addr + len \<ge> memory_size (sys_conf_g st) then reply_str ''E'' st
       else and_then (sad_extract_str cursor None (input_buffer_g st)) (\<lambda>(start, _, b).
         let st = st\<lparr>input_buffer_g := b\<rparr>; mem_str = c_str b start
         in if length mem_str \<noteq> 2 * unat len then reply_str ''E'' st
            else case sad_hex_str_to_bytes mem_str (unat len) of
                   (UTIL_OK, data) \<Rightarrow> and_then (op_write_mem (sys_ops_g st) data addr (sys st)) (\<lambda>s.
                     reply_str ''OK'' (st\<lparr>sys := s\<rparr>))
                 | _ \<Rightarrow> Inl (Undefined ''uninitialised bytes written to the memory'')))"
  have "sad_extract_uint64 (length p1) (Some 0x2C) (input_buffer_g st)
      = Inr (Some (of_nat x), length p1 + length (hex_digits x) + 1, b1)"
    unfolding b1_def
    by (rule extract_number_sep(1)) (use b big in \<open>simp_all add: M_packet_def hex_digits_no p1_def\<close>)
  moreover have "start_pkt_data (input_buffer_g st) + 1 = length p1" using b(2) by (simp add: p1_def)
  ultimately have "build_M st = extract_val sad_extract_uint64 (length p2) (Some 0x3A) (K1 (of_nat x)) s1"
    unfolding build_M_def s1_def K1_def by (simp only: extract_val_Some) (simp add: p2_def)
  also have "sad_extract_uint64 (length p2) (Some 0x3A) (input_buffer_g s1)
      = Inr (Some (of_nat ?n), length p2 + length (hex_digits ?n) + 1, b2)"
    unfolding ins b2_def
    by (rule extract_number_sep(1))
      (use b big in \<open>simp_all add: M_packet_def b1_def p1_def p2_def hex_digits_no\<close>)
  then have "extract_val sad_extract_uint64 (length p2) (Some 0x3A) (K1 (of_nat x)) s1
      = K1 (of_nat x) (of_nat ?n) (length p2 + length (hex_digits ?n) + 1) s2"
    unfolding s2_def by (rule extract_val_Some)
  also have "length p2 + length (hex_digits ?n) + 1 = length p3" by (simp add: p3_def)
  also have "sad_cursor_tokenizer (length p3) None b2 = Inr (length p3, length p3 + length (hex_of_bytes bs) + 1, b3)"
    unfolding b3_def
    by (rule tokenizer_last) (use b in \<open>simp_all add: b2_def b1_def p3_def p2_def p1_def M_packet_def\<close>)
  moreover have "c_str b3 (length p3) = hex_of_bytes bs"
    by (rule c_str_field [where post = post]) (simp_all add: b3_def no_zero_hex)
  moreover have "sad_hex_str_to_bytes (hex_of_bytes bs) ?n = (UTIL_OK, bs)"
    by (simp add: sad_hex_str_to_bytes_def sad_hex_chars_to_bytes_def hex_loop_encode)
  moreover have "unat (of_nat x :: u64) = x" "unat (of_nat ?n :: u64) = ?n"
    by (rule addr_no_wrap(2); use lim in simp)+
  moreover obtain s where s: "op_write_mem ops bs (of_nat x) (sys st) = Inr s" "well s"
    "regval s = regval (sys st)" "content s = overwrite (content (sys st)) x bs"
    using write_mem [OF ops(2), of "of_nat x" bs] lim calculation(5) by auto
  moreover have "sys_conf_g s2 = sys_conf_g st" "sys_ops_g s3 = ops" "sys s3 = sys st"
    using ops by (simp_all add: s3_def s2_def s1_def)
  ultimately have "build_M st = reply_str ''OK'' (s3\<lparr>sys := s\<rparr>)"
    by (simp only: K1_def size addr_no_wrap(1) [OF lim] if_False and_then.simps prod.case Let_def ins
        sad_extract_str_def flip: s3_def) simp
  moreover have s3: "can_reply (s3\<lparr>sys := s\<rparr>)" "out (s3\<lparr>sys := s\<rparr>) = out st" "sys_conf_g s3 = sys_conf_g st"
    "sys_ops_g s3 = sys_ops_g st"
    using rep by (simp_all add: can_reply_def out_def s3_def s2_def s1_def)
  moreover obtain ob where "reply_str ''OK'' (s3\<lparr>sys := s\<rparr>) = Inr (s3\<lparr>sys := s, output_buffer_g := ob\<rparr>)"
    "pdata ob = out (s3\<lparr>sys := s\<rparr>) @ ascii ''OK''"
    by (rule reply_ok [OF s3(1)])
  ultimately show ?thesis using s by (simp add: out_def)
qed

end

section \<open>Reading and writing registers\<close>

text \<open>What \<open>sad_target_init\<close> sets up for a 32-bit target.\<close>

definition target32 :: "Target_Conf \<Rightarrow> nat \<Rightarrow> bool" where
  "target32 t n \<longleftrightarrow> reg_bytes t = 4 \<and> reg_str_bytes t = 8 \<and> regs_bytes t = 4 * n \<and> regs_str_bytes t = 8 * n"

definition p_packet :: "nat \<Rightarrow> u8 list" where
  "p_packet r = [0x70] @ hex_digits r"

definition P_packet :: "nat \<Rightarrow> nat \<Rightarrow> u8 list" where
  "P_packet r v = [0x50] @ hex_digits r @ [0x3D] @ hex_digits v"

definition G_packet :: "u8 list \<Rightarrow> u8 list" where
  "G_packet bs = [0x47] @ hex_of_bytes bs"

lemma low_bytes_ucast: "low_bytes 4 (ucast (v :: u32)) = bytes_of_word v"
proof (rule nth_equalityI)
  fix i assume "i < length (low_bytes 4 (ucast v))"
  then have "i < 4" by simp
  then show "low_bytes 4 (ucast v) ! i = bytes_of_word v ! i"
    by (intro bit_word_eqI) (simp add: low_bytes_def nth_bytes_of_word bit_simps)
qed simp

lemma bytes_of_word_of_bytes: "length bs = 4 \<Longrightarrow> bytes_of_word (ucast (word_of_bytes bs :: u64) :: u32) = bs"
proof (rule nth_equalityI)
  fix i assume "length bs = 4" "i < length (bytes_of_word (ucast (word_of_bytes bs :: u64) :: u32))"
  then have i: "length bs = 4" "i < 4" by simp_all
  show "bytes_of_word (ucast (word_of_bytes bs :: u64) :: u32) ! i = bs ! i"
  proof (rule bit_word_eqI)
    fix k assume "k < LENGTH(8)"
    then have "(8 * i + k) div 8 = i" "(8 * i + k) mod 8 = k" by simp_all
    then show "bit (bytes_of_word (ucast (word_of_bytes bs :: u64) :: u32) ! i) k = bit (bs ! i) k"
      using i \<open>k < LENGTH(8)\<close> by (simp add: nth_bytes_of_word bit_simps bit_word_of_bytes)
  qed
qed simp

definition chunk :: "nat \<Rightarrow> u8 list \<Rightarrow> u8 list" where
  "chunk r bs = take 4 (drop (r * 4) bs)"

lemma length_chunk: "length bs = 4 * n \<Longrightarrow> r < n \<Longrightarrow> length (chunk r bs) = 4"
  by (simp add: chunk_def)

lemma concat_chunks: "length bs = 4 * n \<Longrightarrow> i \<le> n \<Longrightarrow> concat (map (\<lambda>r. chunk r bs) [i..<n]) = drop (4 * i) bs"
proof (induction "n - i" arbitrary: i)
  case (Suc k)
  then have "[i..<n] = i # [Suc i..<n]" by (simp add: upt_conv_Cons)
  moreover have "concat (map (\<lambda>r. chunk r bs) [Suc i..<n]) = drop (4 * Suc i) bs"
    using Suc by (intro Suc.hyps(1)) simp_all
  moreover have "chunk i bs @ drop (4 * Suc i) bs = drop (4 * i) bs"
    by (simp add: chunk_def mult.commute) (metis add.commute append_take_drop_id drop_drop)
  ultimately show ?case by simp
qed simp

lemma hex_of_bytes_append: "hex_of_bytes (xs @ ys) = hex_of_bytes xs @ hex_of_bytes ys"
  by (induction xs) simp_all

lemma hex_chunk: "take 8 (drop (r * 8) (hex_of_bytes bs)) = hex_of_bytes (chunk r bs)"
proof -
  have d: "drop (2 * k) (hex_of_bytes xs) = hex_of_bytes (drop k xs)" for k xs
    by (induction k arbitrary: xs) (simp, case_tac xs, simp_all)
  have t: "take (2 * k) (hex_of_bytes xs) = hex_of_bytes (take k xs)" for k xs
    by (induction k arbitrary: xs) (simp, case_tac xs, simp_all)
  show ?thesis using d [of "r * 4" bs] t [of 4 "drop (r * 4) bs"] by (simp add: chunk_def mult.commute)
qed

lemma merge_all:
  assumes "target32 t n" "length bs = 4 * n" "length old = 4 * n" "i \<le> n"
  shows "merge_regs t (hex_of_bytes bs) (take (4 * i) bs @ drop (4 * i) old) [i..<n] = bs"
  using assms
proof (induction "n - i" arbitrary: i)
  case (Suc k)
  then have i: "[i..<n] = i # [Suc i..<n]" "i < n" by (simp_all add: upt_conv_Cons)
  have "sad_hex_chars_to_bytes (hex_of_bytes (chunk i bs)) 4 = (UTIL_OK, chunk i bs)"
    using length_chunk [OF Suc.prems(2) i(2)] by (simp add: sad_hex_chars_to_bytes_def hex_loop_encode)
  moreover have "take (i * 4) (take (4 * i) bs @ drop (4 * i) old) @ chunk i bs
      @ drop (i * 4 + 4) (take (4 * i) bs @ drop (4 * i) old) = take (4 * Suc i) bs @ drop (4 * Suc i) old"
  proof -
    have "take (4 * i) bs @ chunk i bs = take (4 * Suc i) bs"
      by (simp add: chunk_def mult.commute flip: take_add) (simp add: add.commute)
    then show ?thesis using Suc.prems i(2) by (simp add: mult.commute add.commute)
  qed
  moreover have "merge_regs t (hex_of_bytes bs) (take (4 * Suc i) bs @ drop (4 * Suc i) old) [Suc i..<n] = bs"
    using Suc by (intro Suc.hyps(1)) simp_all
  ultimately show ?case using Suc.prems(1) i(1) by (simp add: target32_def hex_chunk)
qed simp

context debuggee
begin

lemma read_regs_ok:
  assumes "sys_ops_g st = ops" "well (sys st)" "reg_bytes (target_conf_g st) = 4" "unat c < cores"
    and "\<And>r. r \<in> set rs \<Longrightarrow> r < nregs \<and> r < 2 ^ 32"
  shows "read_regs_from st c rs = Inr (concat (map (\<lambda>r. bytes_of_word (regval (sys st) (unat c) r)) rs))"
  using assms(5)
proof (induction rs)
  case (Cons r rs)
  have "unat (of_nat r :: u32) = r" using Cons.prems [of r] by (simp add: unat_of_nat take_bit_eq_mod)
  then show ?case using Cons read_reg [OF assms(2,4), of "of_nat r"] assms(1,3) by (simp add: low_bytes_ucast)
qed simp

lemma write_regs_ok:
  assumes "sys_ops_g st = ops" "well (sys st)" "reg_bytes (target_conf_g st) = 4" "unat c < cores"
    and "\<And>r. r \<in> set rs \<Longrightarrow> r < nregs \<and> r < 2 ^ 32"
  shows "\<exists>s. write_regs_from bs c rs st = Inr (st\<lparr>sys := s\<rparr>) \<and> well s \<and> content s = content (sys st)
     \<and> (\<forall>c' r. regval s c' r = (if c' = unat c \<and> r \<in> set rs then ucast (word_of_bytes (chunk r bs) :: u64)
          else regval (sys st) c' r))"
  using assms
proof (induction rs arbitrary: st)
  case (Cons r rs)
  have r: "unat (of_nat r :: u32) = r" "r < nregs"
    using Cons.prems(5) [of r] by (simp_all add: unat_of_nat take_bit_eq_mod)
  then obtain s1 where s1: "op_write_reg ops (word_of_bytes (chunk r bs)) c (of_nat r) (sys st) = Inr s1" "well s1"
    "content s1 = content (sys st)" "regval s1 = (regval (sys st))(unat c := (regval (sys st) (unat c))
      (r := ucast (word_of_bytes (chunk r bs) :: u64)))"
    using write_reg [OF Cons.prems(2,4), of "of_nat r" "word_of_bytes (chunk r bs)"] by auto
  obtain s where "write_regs_from bs c rs (st\<lparr>sys := s1\<rparr>) = Inr ((st\<lparr>sys := s1\<rparr>)\<lparr>sys := s\<rparr>)" "well s"
    "content s = content s1" "\<forall>c' r. regval s c' r = (if c' = unat c \<and> r \<in> set rs
        then ucast (word_of_bytes (chunk r bs) :: u64) else regval s1 c' r)"
    using Cons.IH [of "st\<lparr>sys := s1\<rparr>"] Cons.prems s1(2) by auto
  then show ?case using Cons.prems(1,3) s1 by (auto simp: Let_def chunk_def)
next
  case Nil
  then show ?case by (intro exI [of _ "sys st"]) simp
qed

lemma build_g_ok:
  assumes "sys_ops_g st = ops" "well (sys st)" "target32 (target_conf_g st) n" "unat (selected_core st) < cores"
    and "unat (regs_num (sys_conf_g st)) = n" "n \<le> nregs" "can_reply st"
  shows "\<exists>st'. build_g st = Inr st' \<and> sys st' = sys st
     \<and> out st' = out st @ hex_of_bytes (concat (map (\<lambda>r. bytes_of_word (regval (sys st) (unat (selected_core st)) r)) [0..<n]))"
proof -
  let ?bs = "concat (map (\<lambda>r. bytes_of_word (regval (sys st) (unat (selected_core st)) r)) [0..<n])"
  have "n < 2 ^ 32" using assms(5) unsigned_less [of "regs_num (sys_conf_g st)", where ?'a=nat] by simp
  then have "sad_target_read_regs st (selected_core st) = Inr ?bs"
    unfolding sad_target_read_regs_def assms(5)
    by (intro read_regs_ok) (use assms in \<open>auto simp: target32_def\<close>)
  moreover have "length ?bs = 4 * n" by (simp add: length_concat comp_def sum_list_triv)
  ultimately have "build_g st = reply (hex_of_bytes ?bs) st"
    using assms(3) by (simp add: build_g_def target32_def sad_bytes_to_hex_chars_def)
  moreover obtain ob where "reply (hex_of_bytes ?bs) st = Inr (st\<lparr>output_buffer_g := ob\<rparr>)"
    "pdata ob = out st @ hex_of_bytes ?bs" by (rule reply_ok [OF assms(7)])
  ultimately show ?thesis by (simp add: out_def)
qed

lemma build_G_ok:
  assumes ops: "sys_ops_g st = ops" "well (sys st)" and t: "target32 (target_conf_g st) n"
    and c: "unat (selected_core st) < cores" and n: "unat (regs_num (sys_conf_g st)) = n" "n \<le> nregs"
    and rep: "can_reply st" and packet: "holds (input_buffer_g st) (G_packet bs)" and len: "length bs = 4 * n"
  shows "\<exists>st'. build_G st = Inr st' \<and> out st' = out st @ ascii ''OK'' \<and> well (sys st')
     \<and> content (sys st') = content (sys st)
     \<and> (\<forall>c' r. regval (sys st') c' r = (if c' = unat (selected_core st) \<and> r < n
          then ucast (word_of_bytes (chunk r bs) :: u64) else regval (sys st) c' r))
     \<and> sys_ops_g st' = sys_ops_g st \<and> sys_conf_g st' = sys_conf_g st \<and> target_conf_g st' = target_conf_g st
     \<and> selected_core st' = selected_core st"
proof -
  obtain pre post where b: "pdata (input_buffer_g st) = pre @ G_packet bs @ 0x23 # post"
    "start_pkt_data (input_buffer_g st) = length pre"
    "end_pkt_data (input_buffer_g st) = length pre + length (G_packet bs)"
    using packet by (auto simp: holds_def)
  define p1 where "p1 = pre @ [0x47]"
  define b1 where "b1 = (input_buffer_g st)\<lparr>pdata := p1 @ hex_of_bytes bs @ 0 # post\<rparr>"
  define s1 where "s1 = st\<lparr>input_buffer_g := b1\<rparr>"
  have n32: "n < 2 ^ 32" using n(1) unsigned_less [of "regs_num (sys_conf_g st)", where ?'a=nat] by simp
  have tok: "sad_cursor_tokenizer (start_pkt_data (input_buffer_g st) + 1) None (input_buffer_g st) =
      Inr (length p1, length p1 + length (hex_of_bytes bs) + 1, b1)"
    using tokenizer_last [of "input_buffer_g st" p1 "hex_of_bytes bs" "0x23" post None] b
    by (simp add: p1_def G_packet_def b1_def)
  have str: "c_str b1 (length p1) = hex_of_bytes bs"
    by (rule c_str_field [where post = post]) (simp_all add: b1_def no_zero_hex)
  have s1_t: "target_conf_g s1 = target_conf_g st" by (simp add: s1_def)
  have s1: "sys_ops_g s1 = ops" "well (sys s1)" "target32 (target_conf_g s1) n" "selected_core s1 = selected_core st"
    "sys_conf_g s1 = sys_conf_g st" "sys s1 = sys st"
    using ops t by (simp_all add: s1_def)
  let ?old = "concat (map (\<lambda>r. bytes_of_word (regval (sys st) (unat (selected_core st)) r)) [0..<n])"
  have rd: "sad_target_read_regs s1 (selected_core st) = Inr ?old"
    unfolding sad_target_read_regs_def s1(5) n(1) s1(6) [symmetric]
    by (intro read_regs_ok) (use s1 n n32 c t in \<open>auto simp: target32_def\<close>)
  have lold: "length ?old = 4 * n" by (simp add: length_concat comp_def sum_list_triv)
  have merge: "merge_regs (target_conf_g s1) (hex_of_bytes bs) ?old [0..<n] = bs"
    using merge_all [OF s1(3) len lold, of 0] by simp
  obtain s where s: "write_regs_from bs (selected_core st) [0..<n] s1 = Inr (s1\<lparr>sys := s\<rparr>)" "well s"
    "content s = content (sys st)" "\<forall>c' r. regval s c' r = (if c' = unat (selected_core st) \<and> r \<in> set [0..<n]
      then ucast (word_of_bytes (chunk r bs) :: u64) else regval (sys st) c' r)"
    using write_regs_ok [OF s1(1,2) _ c, of "[0..<n]" bs] s1 n n32 by (auto simp: target32_def)
  have "build_G st = reply_str ''OK'' (s1\<lparr>sys := s\<rparr>)"
    unfolding build_G_def sad_extract_str_def tok and_then.simps prod.case Let_def s1_def [symmetric]
    using t len by (simp add: str rd merge [unfolded s1_t] s(1) n(1) sad_target_write_regs_def target32_def s1(4,5)
        s1_t)
  moreover have r: "can_reply (s1\<lparr>sys := s\<rparr>)" using rep by (simp add: can_reply_def s1_def)
  moreover obtain ob where "reply_str ''OK'' (s1\<lparr>sys := s\<rparr>) = Inr (s1\<lparr>sys := s, output_buffer_g := ob\<rparr>)"
    "pdata ob = out (s1\<lparr>sys := s\<rparr>) @ ascii ''OK''" by (rule reply_ok [OF r])
  ultimately show ?thesis using s by (simp add: out_def s1_def)
qed

end

section \<open>Concrete states\<close>

text \<open>A stub over two halted cores and \<open>n\<close> bytes of memory, with a packet in its input buffer.\<close>

definition sample :: "nat \<Rightarrow> u8 list \<Rightarrow> Debuggee Stub" where
  "sample n payload = \<lparr>
     input_buffer_g = \<lparr>initial_size = 128, start_pkt_data = 2, end_pkt_data = 2 + length payload,
       data_size = 4096, alloc_size = 4096, pdata = [0x2B, 0x24] @ payload @ [0x23, 0x30, 0x30]\<rparr>,
     output_buffer_g = \<lparr>initial_size = 128, start_pkt_data = 0, end_pkt_data = 0, data_size = 128,
       alloc_size = 128, pdata = []\<rparr>,
     parser_g = fresh_parser, selected_core = 0, ack_enabled_g = True, sys_ops_g = debug_ops supervisor False,
     sys_conf_g = debug_conf 2 n, breakpoints_g = replicate MAX_BREAKPOINTS \<lparr>brk_addr = 0, brk_instr = 0,
       brk_status = BRK_EMPTY\<rparr>,
     target_conf_g = \<lparr>breakpoint_val = ebreak, reg_bytes = 4, reg_str_bytes = 8, regs_bytes = 4 * 33,
       regs_str_bytes = 8 * 33, brkpt_size = 4\<rparr>,
     sad_socket_blocks = True, wire = [], heap_full = (\<lambda>_. False),
     sys = \<lparr>dbg_machine = two_cores, dbg_ram = \<lparr>mem_bytes = (\<lambda>_. 0), mem_size = n\<rparr>\<rparr>\<rparr>"

lemma sample_ok:
  "sys_ops_g (sample n p) = debug_ops supervisor False" "can_reply (sample n p)"
  "holds (input_buffer_g (sample n p)) p" "out (sample n p) = []" "ack_enabled_g (sample n p)"
  "sys_conf_g (sample n p) = debug_conf 2 n" "target32 (target_conf_g (sample n p)) 33"
  "selected_core (sample n p) = 0" "n \<le> 2 ^ 32 \<Longrightarrow> dbg_well n 2 (sys (sample n p))"
  "heap_full (sample n p) = (\<lambda>_. False)" "parser_g (sample n p) = fresh_parser"
proof -
  have "pdata (input_buffer_g (sample n p)) = [0x2B, 0x24] @ p @ 0x23 # [0x30, 0x30]"
    "start_pkt_data (input_buffer_g (sample n p)) = length [0x2B, 0x24 :: u8]"
    "end_pkt_data (input_buffer_g (sample n p)) = length [0x2B, 0x24 :: u8] + length p"
    by (simp_all add: sample_def)
  then show "holds (input_buffer_g (sample n p)) p" unfolding holds_def by blast
qed (simp_all add: sample_def can_reply_def buff_ok_def out_def target32_def dbg_well_def two_cores_def)

section \<open>Properties\<close>

text \<open>
  C22: through the emulator's table of functions, an \<open>M\<close> packet for a range inside the memory stores
  exactly its bytes there and changes no register, and an \<open>m\<close> packet for the same range, whenever the
  system is next in that state, is answered with exactly those bytes and changes nothing.
\<close>

theorem memory_packets:
  assumes "sys_ops_g st = debug_ops plat busy" "dbg_well limit cores (sys st)"
    and "memory_size (sys_conf_g st) = of_nat limit" "can_reply st"
    and "holds (input_buffer_g st) (M_packet x bs)" "x + length bs < limit"
  shows "\<exists>st1. build_M st = Inr st1 \<and> out st1 = out st @ ascii ''OK''
     \<and> dbg_content (sys st1) = overwrite (dbg_content (sys st)) x bs \<and> dbg_regval (sys st1) = dbg_regval (sys st)
     \<and> (\<forall>st2. sys st2 = sys st1 \<and> sys_ops_g st2 = sys_ops_g st1 \<and> sys_conf_g st2 = sys_conf_g st1
           \<and> can_reply st2 \<and> holds (input_buffer_g st2) (m_packet x (length bs)) \<longrightarrow>
         (\<exists>st3. build_m st2 = Inr st3 \<and> out st3 = out st2 @ hex_of_bytes bs \<and> sys st3 = sys st2))"
proof -
  have lim: "limit \<le> 2 ^ 32" using assms(2) by (simp add: dbg_well_def)
  from dbg.build_M_ok [OF assms(1,2,3,6) lim assms(4,5)] obtain st1 where st1: "build_M st = Inr st1"
    "out st1 = out st @ ascii ''OK''" "dbg_well limit cores (sys st1)"
    "dbg_content (sys st1) = overwrite (dbg_content (sys st)) x bs" "dbg_regval (sys st1) = dbg_regval (sys st)"
    "sys_ops_g st1 = sys_ops_g st" "sys_conf_g st1 = sys_conf_g st" by blast
  have bk: "map (dbg_content (sys st1)) [x..<x + length bs] = bs" unfolding st1(4) by (rule overwrite_same)
  have "\<exists>st3. build_m st2 = Inr st3 \<and> out st3 = out st2 @ hex_of_bytes bs \<and> sys st3 = sys st2"
    if "sys st2 = sys st1" "sys_ops_g st2 = sys_ops_g st1" "sys_conf_g st2 = sys_conf_g st1"
      "can_reply st2" "holds (input_buffer_g st2) (m_packet x (length bs))" for st2
    using dbg.build_m_ok [of st2 plat busy limit cores x "length bs"] that st1(3,6,7) assms(1,3,6) lim
    by (simp only: bk)
  then show ?thesis using st1 by (intro exI [of _ st1]) simp
qed

lemma memory_packets_witness:
  "\<exists>st1. build_M (sample 256 (M_packet 16 [0xAB, 0xCD])) = Inr st1 \<and> dbg_content (sys st1) 17 = 0xCD"
proof -
  have "\<exists>st1. build_M (sample 256 (M_packet 16 [0xAB, 0xCD])) = Inr st1
     \<and> dbg_content (sys st1) = overwrite (dbg_content (sys (sample 256 (M_packet 16 [0xAB, 0xCD])))) 16 [0xAB, 0xCD]"
    using memory_packets [OF sample_ok(1) sample_ok(9) _ sample_ok(2,3), where limit = 256 and x = 16
        and bs = "[0xAB, 0xCD]"]
    by (auto simp: sample_ok(6) debug_conf_def)
  then show ?thesis by (auto simp: overwrite_def)
qed





text \<open>The commands with several fields and the separator that ends their first one.\<close>

definition field_commands :: "(u8 \<times> u8) list" where
  "field_commands = [(0x50, 0x3D), (0x6D, 0x2C), (0x4D, 0x2C), (0x5A, 0x2C), (0x7A, 0x2C)]"

lemma first_field_only:
  assumes packet: "holds (input_buffer_g st) (c # fld)" and sep: "sep \<notin> set (tl fld)" "sep \<noteq> 0x23"
    and num: "strtol (takeWhile (\<lambda>d. d \<noteq> 0) fld) = v" "0 \<le> v" "v \<le> 0xFFFFFFFF"
  defines "cur \<equiv> start_pkt_data (input_buffer_g st) + 1"
  obtains cur' b where
    "sad_extract_uint32 cur (Some sep) (input_buffer_g st) = Inr (Some (word_of_int v), cur', b)"
    "sad_extract_uint64 cur (Some sep) (input_buffer_g st) = Inr (Some (word_of_int v), cur', b)"
    "\<And>t. sad_cursor_tokenizer cur' t b = Inl (Assert_Failed ''*(cursor) -1 != input_buffer_g->end_pkt_data'')"
proof -
  obtain pre post where b: "pdata (input_buffer_g st) = pre @ (c # fld) @ 0x23 # post"
    "start_pkt_data (input_buffer_g st) = length pre" "end_pkt_data (input_buffer_g st) = length pre + length (c # fld)"
    using packet by (auto simp: holds_def)
  define b1 where "b1 = (input_buffer_g st)\<lparr>pdata := (pre @ [c]) @ fld @ 0 # post\<rparr>"
  have cur: "cur = length (pre @ [c])" by (simp add: cur_def b(2))
  have tok: "sad_cursor_tokenizer cur (Some sep) (input_buffer_g st) = Inr (cur, cur + length fld + 1, b1)"
    unfolding cur b1_def by (rule tokenizer_last) (use b sep in simp_all)
  have "takeWhile (\<lambda>d. d \<noteq> 0) (fld @ 0 # post) = takeWhile (\<lambda>d. d \<noteq> 0) fld"
    by (induction fld) auto
  then have "c_str b1 cur = takeWhile (\<lambda>d. d \<noteq> 0) fld" by (simp add: c_str_def cur b1_def)
  then have "sad_extract_uint32 cur (Some sep) (input_buffer_g st) = Inr (Some (word_of_int v), cur + length fld + 1, b1)"
    "sad_extract_uint64 cur (Some sep) (input_buffer_g st) = Inr (Some (word_of_int v), cur + length fld + 1, b1)"
    using num by (simp_all add: sad_extract_uint32_def sad_extract_uint64_def tok Let_def LONG_MAX_def)
  moreover have "sad_cursor_tokenizer (cur + length fld + 1) t b1 =
      Inl (Assert_Failed ''*(cursor) -1 != input_buffer_g->end_pkt_data'')" for t
    using b(2,3) by (simp add: sad_cursor_tokenizer_def b1_def cur_def)
  ultimately show ?thesis using that by blast
qed

text \<open>
  A packet of a command with several fields (P, m, M, Z, z) that holds the first one only ends the
  whole emulator: the scan for the second field fails the assertion of the tokenizer. The letter alone
  is such a packet.
\<close>

theorem malformed_packet_aborts:
  assumes "holds (input_buffer_g st) (c # fld)" and "(c, sep) \<in> set field_commands" and "sep \<notin> set (tl fld)"
    and "0 \<le> strtol (takeWhile (\<lambda>d. d \<noteq> 0) fld)" "strtol (takeWhile (\<lambda>d. d \<noteq> 0) fld) \<le> 0xFFFFFFFF"
  shows "build (supported_idx c) waits st
     = Inl (Assert_Failed ''*(cursor) -1 != input_buffer_g->end_pkt_data'')"
proof -
  have sep: "sep \<noteq> 0x23" using assms(2) by (auto simp: field_commands_def)
  from first_field_only [OF assms(1,3) sep refl assms(4,5)] obtain cur b where
    e: "sad_extract_uint32 (start_pkt_data (input_buffer_g st) + 1) (Some sep) (input_buffer_g st) =
      Inr (Some (word_of_int (strtol (takeWhile (\<lambda>d. d \<noteq> 0) fld))), cur, b)"
    "sad_extract_uint64 (start_pkt_data (input_buffer_g st) + 1) (Some sep) (input_buffer_g st) =
      Inr (Some (word_of_int (strtol (takeWhile (\<lambda>d. d \<noteq> 0) fld))), cur, b)"
    "\<And>t. sad_cursor_tokenizer cur t b = Inl (Assert_Failed ''*(cursor) -1 != input_buffer_g->end_pkt_data'')"
    by blast
  let ?v = "strtol (takeWhile (\<lambda>d. d \<noteq> 0) fld)"
  have first:
    "x = sep \<Longrightarrow> extract_val sad_extract_uint32 (start_pkt_data (input_buffer_g st) + 1) (Some x) K st
      = K (word_of_int ?v) cur (st\<lparr>input_buffer_g := b\<rparr>)"
    "x = sep \<Longrightarrow> extract_val sad_extract_uint64 (start_pkt_data (input_buffer_g st) + 1) (Some x) L st
      = L (word_of_int ?v) cur (st\<lparr>input_buffer_g := b\<rparr>)" for K L x
    by (simp_all only: extract_val_def e(1,2) and_then.simps prod.case Let_def option.case)
  have second: "extract_val sad_extract_uint64 cur t K (st\<lparr>input_buffer_g := b\<rparr>)
      = Inl (Assert_Failed ''*(cursor) -1 != input_buffer_g->end_pkt_data'')" for t K
    by (simp add: extract_val_def sad_extract_uint64_def e(3))
  have idx: "supported_idx 0x50 = COMMAND_P" "supported_idx 0x6D = COMMAND_m" "supported_idx 0x4D = COMMAND_M"
    "supported_idx 0x5A = COMMAND_Z" "supported_idx 0x7A = COMMAND_z"
    by (simp_all add: supported_idx_def supported_cmds_def)
  consider "c = 0x50" "sep = 0x3D" | "c = 0x6D" "sep = 0x2C" | "c = 0x4D" "sep = 0x2C" | "c = 0x5A" "sep = 0x2C"
    | "c = 0x7A" "sep = 0x2C"
    using assms(2) by (auto simp: field_commands_def)
  then show ?thesis
    by cases (simp_all only: idx build.simps build_P_def build_m_def build_M_def build_Z_def build_z_def
        first second simp_thms)
qed

lemma malformed_packet_aborts_witness:
  "build COMMAND_m [] (sample 256 [0x6D])
     = Inl (Assert_Failed ''*(cursor) -1 != input_buffer_g->end_pkt_data'')"
proof -
  have "supported_idx 0x6D = COMMAND_m" by (simp add: supported_idx_def supported_cmds_def)
  moreover have "strtol [] = 0" by (simp add: strtol_def strtol16_def LONG_MAX_def LONG_MIN_def)
  ultimately show ?thesis
    using malformed_packet_aborts [OF sample_ok(3) [of 256 "[0x6D]"], of "0x2C" "[]"]
    by (simp add: field_commands_def)
qed

text \<open>
  \<open>sad_stub_init\<close> with memory and a socket yields an empty buffer pair, no breakpoint, the 32-bit
  target and acknowledgements on; when the allocator refuses a buffer it still answers STUB_OK, and
  \<open>run_debug\<close> goes on with a null buffer.
\<close>

theorem stub_init_effect:
  assumes "sc_conf c = debug_conf cores n" and "cores \<le> 16"
  shows "(heap_full st0 48 \<or> heap_full st0 (if sc_buffers_size c > 0 then sc_buffers_size c else DEFAULT_BUFF_SIZE) \<longrightarrow>
        sad_stub_init c socket_ret st0 = (STUB_OK, None))
    \<and> ((\<forall>k. \<not> heap_full st0 k) \<longrightarrow> (\<exists>st. sad_stub_init c STUB_OK st0 = (STUB_OK, Some st)
        \<and> pdata (input_buffer_g st) = [] \<and> out st = [] \<and> p_state (parser_g st) = PARSE_RESET
        \<and> parse_idx (parser_g st) = 0 \<and> target32 (target_conf_g st) 33 \<and> ack_enabled_g st \<and> selected_core st = 0
        \<and> (\<forall>b\<in>set (breakpoints_g st). brk_status b = BRK_EMPTY) \<and> sys st = sys st0))"
proof -
  have conf: "conf_arch (sc_conf c) = RV32" "\<not> smp (sc_conf c) > MAX_SMP" "unat (regs_num (sc_conf c)) = 33"
    using assms by (simp_all add: debug_conf_def MAX_SMP_def word_less_nat_alt unat_of_nat take_bit_eq_mod)
  show ?thesis
    by (auto simp: sad_stub_init_def Let_def conf sad_target_init_def sad_buff_create_def sad_stub_reset_def
        sad_stub_reset_input_state_def sad_stub_reset_output_state_def sad_parser_reset_def sad_buff_reset_def
        sad_breakpoint_reset_def sad_builder_init_def out_def target32_def DEFAULT_BUFF_SIZE_def)
qed

lemma stub_init_effect_witness:
  "\<exists>st. sad_stub_init \<lparr>sc_ops = debug_ops supervisor False, sc_conf = debug_conf 2 256, sc_buffers_size = 128\<rparr>
     STUB_OK (sample 256 []) = (STUB_OK, Some st) \<and> target32 (target_conf_g st) 33"
  using stub_init_effect [of "\<lparr>sc_ops = debug_ops supervisor False, sc_conf = debug_conf 2 256, sc_buffers_size = 128\<rparr>"
      2 256 "sample 256 []"]
  by (auto simp: sample_ok(10))

end
