(* ===== verification/Gdb_Loop.thy ===== *)
theory Gdb_Loop
  imports Gdb_Props
begin

text \<open>
  The stub's main loop: what one turn writes to the client for each state the parser can reach, that
  partial writes deliver the whole reply, and that the turn leaves the stub ready for the next packet.
\<close>

section \<open>Writing\<close>

lemma to_socket_prefix:
  "to_socket bs ws = (sent, r) \<Longrightarrow> \<exists>rest. bs = sent @ rest \<and> (r = Some BUFF_OK \<longrightarrow> rest = [])"
proof (induction bs ws arbitrary: sent r rule: to_socket.induct)
  case (3 c cs w ws)
  show ?case
  proof (cases w)
    case (W_Wrote n)
    show ?thesis
    proof (cases "n = 0")
      case False
      obtain sent' where s: "to_socket (drop n (c # cs)) ws = (sent', r)" "sent = take n (c # cs) @ sent'"
        using 3(2) W_Wrote False by (auto split: prod.splits)
      from 3(1) [OF W_Wrote False s(1)] s(2) show ?thesis by (metis append.assoc append_take_drop_id)
    qed (use 3(2) W_Wrote in auto)
  qed (use 3(2) in auto)
qed auto

text \<open>Any division of the bytes into positive writes delivers them all.\<close>

lemma to_socket_all:
  "(\<And>n. n \<in> set ns \<Longrightarrow> 0 < n) \<Longrightarrow> sum_list ns = length bs \<Longrightarrow> to_socket bs (map W_Wrote ns) = (bs, Some BUFF_OK)"
proof (induction ns arbitrary: bs)
  case (Cons n ns)
  then obtain c cs where bs: "bs = c # cs" by (cases bs) auto
  have "to_socket (drop n bs) (map W_Wrote ns) = (drop n bs, Some BUFF_OK)"
    using Cons.prems by (intro Cons.IH) auto
  then show ?case using Cons.prems(1) [of n] by (simp add: bs del: drop_Suc_Cons)
qed simp

definition delivers :: "u8 list \<Rightarrow> write_result list \<Rightarrow> bool" where
  "delivers bs ws \<longleftrightarrow> (\<exists>ns. ws = map W_Wrote ns \<and> (\<forall>n\<in>set ns. 0 < n) \<and> sum_list ns = length bs)"

lemma send_delivers:
  "delivers (out st) ws \<Longrightarrow> sad_buff_to_socket ws st = Inr (BUFF_OK, st\<lparr>wire := wire st @ out st\<rparr>)"
  using to_socket_all [of _ "out st"] by (auto simp: delivers_def sad_buff_to_socket_def out_def)

section \<open>A turn\<close>

definition ready :: "'s Stub \<Rightarrow> bool" where
  "ready st \<longleftrightarrow> p_state (parser_g st) = PARSE_RESET \<and> parse_idx (parser_g st) = 0
     \<and> pdata (input_buffer_g st) = [] \<and> end_pkt_data (input_buffer_g st) = 0"

lemma ready_reset: "ready (sad_stub_reset_input_state st)"
  by (simp add: ready_def sad_stub_reset_input_state_def sad_parser_reset_def sad_buff_reset_def Let_def)

lemma reset_input_simps [simp]:
  "wire (sad_stub_reset_input_state st) = wire st" "out (sad_stub_reset_input_state st) = out st"
  "sys (sad_stub_reset_input_state st) = sys st"
  "p_state (parser_g (sad_stub_reset_input_state st)) = PARSE_RESET"
  by (simp_all add: sad_stub_reset_input_state_def sad_parser_reset_def out_def)

lemma reset_output:
  "buff_ok (output_buffer_g st) \<Longrightarrow> data_size (output_buffer_g st) < MAX_BUFF_DATA_SIZE \<Longrightarrow>
     \<forall>n. \<not> heap_full st n \<Longrightarrow> can_reply (sad_stub_reset_output_state st)"
  "out (sad_stub_reset_output_state st) = []" "wire (sad_stub_reset_output_state st) = wire st"
  by (auto simp: sad_stub_reset_output_state_def can_reply_def sad_buff_reset_def Let_def buff_ok_def out_def)

lemma parse_input_other [simp]:
  "wire (parse_input st) = wire st" "output_buffer_g (parse_input st) = output_buffer_g st"
  "heap_full (parse_input st) = heap_full st" "out (parse_input st) = out st"
  by (simp_all add: parse_input_def out_def split: prod.splits)

lemma turn_error_eq:
  assumes "p_state (parser_g st) = PARSE_ERROR" "can_reply (sad_stub_reset_output_state st)"
    and "delivers (ascii ''-'') (ev_writes ev)"
  shows "\<exists>st'. turn_error ev st = Inr (None, st') \<and> wire st' = wire st @ ascii ''-'' \<and> ready st'"
proof -
  obtain b where b: "reply_str ''-'' (sad_stub_reset_output_state st)
      = Inr (sad_stub_reset_output_state st\<lparr>output_buffer_g := b\<rparr>)" "pdata b = ascii ''-''"
    using reply_ok [OF assms(2), of "ascii ''-''"] reset_output(2) [of st] by auto
  let ?s = "sad_stub_reset_output_state st\<lparr>output_buffer_g := b\<rparr>"
  have "sad_buff_to_socket (ev_writes ev) ?s = Inr (BUFF_OK, ?s\<lparr>wire := wire ?s @ out ?s\<rparr>)"
    by (rule send_delivers) (use assms(3) b(2) in \<open>simp add: out_def\<close>)
  then show ?thesis
    using assms(1) b reset_output(3) [of st] by (simp add: turn_error_def out_def ready_reset)
qed

lemma turn_nack_eq:
  assumes "p_state (parser_g st) = PARSE_NACK" "delivers (out st) (ev_writes ev)"
  shows "\<exists>st'. turn_nack ev st = Inr (None, st') \<and> wire st' = wire st @ out st \<and> out st' = out st \<and> ready st'"
  using assms send_delivers [OF assms(2)] by (simp add: turn_nack_def ready_reset) (simp add: out_def)

lemma turn_finished_eq:
  assumes "p_state (parser_g st) = PARSE_FINISHED"
    and "sad_builder_build_resp (ev_waits ev) (sad_stub_reset_output_state st) = Inr st1"
    and "delivers (out st1) (ev_writes ev)"
  shows "\<exists>st'. turn_finished ev st = Inr (None, st') \<and> wire st' = wire st1 @ out st1 \<and> ready st'"
  using assms send_delivers [OF assms(3)] by (simp add: turn_finished_def ready_reset)

lemma turn_idle:
  "p_state (parser_g st) \<noteq> PARSE_ERROR \<Longrightarrow> turn_error ev st = Inr (None, st)"
  "p_state (parser_g st) \<noteq> PARSE_NACK \<Longrightarrow> turn_nack ev st = Inr (None, st)"
  "p_state (parser_g st) \<noteq> PARSE_FINISHED \<Longrightarrow> turn_finished ev st = Inr (None, st)"
  by (simp_all add: turn_error_def turn_nack_def turn_finished_def)

lemma ready_state: "ready st \<Longrightarrow> p_state (parser_g st) = PARSE_RESET"
  by (simp add: ready_def)


lemma qstmrk_reply:
  "\<exists>st'. sad_builder_build_resp [] (sample 256 (ascii ''?'')) = Inr st' \<and> out st' = ascii ''+$S05#b8''"
proof -
  have "(case sad_builder_build_resp [] (sample 256 (ascii ''?'')) of Inr st' \<Rightarrow> out st' | Inl e \<Rightarrow> [])
      = ascii ''+$S05#b8''"
    by code_simp
  then show ?thesis by (auto simp: ascii_def split: sum.splits)
qed

lemma replies_are_frames_witness:
  "\<exists>payload p' b'. ascii ''+$S05#b8'' = packet payload (hex_of_bytes [payload_sum payload])
     \<and> parse_chunks True [ascii ''+$S'', ascii ''05#b8''] fresh_parser \<lparr>initial_size = 128,
         start_pkt_data = 0, end_pkt_data = 0, data_size = 128, alloc_size = 128, pdata = []\<rparr> = (p', b')
     \<and> p_state p' = PARSE_FINISHED"
proof -
  obtain st' where st': "sad_builder_build_resp [] (sample 256 (ascii ''?'')) = Inr st'"
    "out st' = ascii ''+$S05#b8''"
    using qstmrk_reply by blast
  have "concat [ascii ''+$S'', ascii ''05#b8''] = out st'"
    by (simp add: st'(2) ascii_def)
  from replies_are_frames [OF sample_ok(2,4) st'(1) sample_ok(5) this] show ?thesis
    by (auto simp: st'(2))
qed


end
