(* ===== verification/Start_Debug.thy ===== *)
theory Start_Debug
  imports Start_Run Gdb_Loop
begin

text \<open>
  \<open>main\<close> with the debugger: the stub starts on the emulator that \<open>main\<close> has set up in a state in which the
  properties of its main loop, its packets and its breakpoints apply.
\<close>

text \<open>How \<open>run_debug\<close> and \<open>main\<close> end when the stub's main loop returns \<open>r\<close>.\<close>

definition session_end :: "stub_ret option \<times> Debuggee Stub \<Rightarrow> main_state result" where
  "session_end = (\<lambda>(r, st). case r of
     None \<Rightarrow> Inr (Stub_Ended st)
   | Some STUB_OK \<Rightarrow> Inr (Stub_Ended st)
   | Some STUB_CLOSED \<Rightarrow> Inl (Exit 0)
   | Some _ \<Rightarrow> Inl (Crash ''Error during DEBUGGING''))"

lemma setup_small:
  assumes "main_setup bd env opts s = Inr (c, m, mgr, s')"
  shows "unat (arg_cores c) \<le> 4" "mem_bytes_size c \<le> 2 ^ 32" "mem_size m = mem_bytes_size c" "threads_mgr_are_halted mgr"
proof -
  have ok: "ctx_ok bd c" and m: "mem_size m = mem_bytes_size c" and "\<exists>e. starts_at mgr c e"
    using setup_state [OF assms] by (auto split: if_splits)
  then show "threads_mgr_are_halted mgr" "mem_size m = mem_bytes_size c" by (auto simp: starts_at_def)
  have "uint (arg_cores c) \<le> 4" using ok by (simp add: ctx_ok_def MAX_NPROCS_def)
  then show "unat (arg_cores c) \<le> 4" unfolding unat_eq_nat_uint by linarith
  show "mem_bytes_size c \<le> 2 ^ 32" using ok by (auto simp: ctx_ok_def)
qed

text \<open>The state \<open>sad_stub_init\<close> leaves behind when nothing fails.\<close>

lemma stub_starts:
  assumes "sc_conf cf = debug_conf cores n" "cores \<le> 16" "sc_buffers_size cf = STUB_BUFF_SIZE" "\<forall>k. \<not> heap_full st0 k"
  shows "\<exists>st. sad_stub_init cf STUB_OK st0 = (STUB_OK, Some st) \<and> ready st \<and> out st = [] \<and> sys st = sys st0
    \<and> sys_ops_g st = sc_ops cf \<and> sys_conf_g st = sc_conf cf \<and> target_ok st \<and> ack_enabled_g st \<and> selected_core st = 0
    \<and> buff_ok (output_buffer_g st) \<and> data_size (output_buffer_g st) < MAX_BUFF_DATA_SIZE
    \<and> (\<forall>b\<in>set (breakpoints_g st). brk_status b = BRK_EMPTY) \<and> heap_full st = heap_full st0"
proof -
  have conf: "conf_arch (sc_conf cf) = RV32" "\<not> smp (sc_conf cf) > MAX_SMP" "unat (regs_num (sc_conf cf)) = 33"
    using assms(1,2) by (simp_all add: debug_conf_def MAX_SMP_def word_less_nat_alt unat_of_nat take_bit_eq_mod)
  show ?thesis
    by (auto simp: sad_stub_init_def Let_def conf assms(3,4) sad_target_init_def sad_buff_create_def sad_stub_reset_def
        sad_stub_reset_input_state_def sad_stub_reset_output_state_def sad_parser_reset_def sad_buff_reset_def
        sad_breakpoint_reset_def sad_builder_init_def out_def ready_def target_ok_def buff_ok_def STUB_BUFF_SIZE_def
        MAX_BUFF_DATA_SIZE_def ebreak_def)
qed

lemma empty_table:
  assumes "\<forall>b\<in>set bs. brk_status b = BRK_EMPTY"
  shows "table_ok limit bs f" "under bs f = f"
  using assms by (auto simp: table_ok_def entry_ok_empty)
    (auto intro!: ext under_free simp: covers_def)

text \<open>
  C16: started with \<open>-d\<close>, when the system calls and allocations succeed, the emulator is the main loop of
  the stub, on the memory and the halted cores that \<open>main\<close> has set up; the loop starts ready for a packet,
  with buffers of the size they believe to have, and with the invariant of the breakpoint table and the
  loaded program as the original one, which is what the properties of the stub ask for.
\<close>

theorem debug_session_starts:
  assumes "main_setup bd env opts s = Inr (c, m, mgr, s')" "arg_debug c" "\<forall>k. \<not> heap_full st0 k"
  shows "\<exists>st. main_c bd plat env opts s busy STUB_OK evs st0 = and_then (stub_loop evs st) session_end
    \<and> ready st \<and> ack_enabled_g st \<and> buff_ok (output_buffer_g st) \<and> data_size (output_buffer_g st) < MAX_BUFF_DATA_SIZE
    \<and> sys st = \<lparr>dbg_machine = mgr, dbg_ram = m\<rparr>
    \<and> brk_inv (debug_ops plat busy) (dbg_well (mem_bytes_size c) (unat (arg_cores c))) dbg_content (mem_bytes_size c) st
    \<and> original dbg_content st = mem_bytes m"
proof -
  let ?d = "\<lparr>dbg_machine = mgr, dbg_ram = m\<rparr>"
  let ?cf = "\<lparr>sc_ops = debug_ops plat busy, sc_conf = debug_conf (ctx_cores mgr) (mem_size m), sc_buffers_size = STUB_BUFF_SIZE\<rparr>"
  note small = setup_small [OF assms(1)] and cores = setup_cores [OF assms(1)]
  have "ctx_cores mgr \<le> 16" using small(1) cores(1) by simp
  then obtain st where st: "sad_stub_init ?cf STUB_OK (st0\<lparr>sys := ?d\<rparr>) = (STUB_OK, Some st)" "ready st" "sys st = ?d"
    "sys_ops_g st = debug_ops plat busy" "target_ok st" "ack_enabled_g st" "buff_ok (output_buffer_g st)"
    "data_size (output_buffer_g st) < MAX_BUFF_DATA_SIZE" "\<forall>b\<in>set (breakpoints_g st). brk_status b = BRK_EMPTY"
    using stub_starts [of ?cf "ctx_cores mgr" "mem_size m" "st0\<lparr>sys := ?d\<rparr>"] assms(3) by auto
  have "op_is_halted (debug_ops plat busy) ?d" using small(4) by (simp add: debug_ops_def)
  then have "main_c bd plat env opts s busy STUB_OK evs st0 = and_then (stub_loop evs st) session_end"
    using assms(1,2) st
    by (cases "stub_loop evs st")
      (auto simp: main_c_def run_debug_def sad_stub_handle_cmds_def session_end_def split: option.splits stub_ret.splits)
  moreover have "dbg_well (mem_bytes_size c) (unat (arg_cores c)) ?d"
    using small cores(1) by (simp add: dbg_well_def)
  ultimately show ?thesis
    using st empty_table [OF st(9)] by (auto simp: brk_inv_def original_def dbg_content_def)
qed

lemma debug_session_starts_witness:
  "\<exists>st. main_c SUPERVISOR_BUILD supervisor tiny_boot (two_opts True) () False STUB_OK [] (sample 256 []) = Inr (Stub_Ended st)
     \<and> ready st \<and> threads_mgr_are_halted (dbg_machine (sys st))"
proof -
  obtain c m mgr where st: "main_setup SUPERVISOR_BUILD tiny_boot (two_opts True) () = Inr (c, m, mgr, ())"
    "arg_debug c" using two_cores_setup [of True] by blast
  have heap: "\<forall>k. \<not> heap_full (sample 256 []) k" by (simp add: sample_def)
  have halted: "threads_mgr_are_halted mgr" using setup_small(4) [OF st(1)] .
  from debug_session_starts [OF st heap, of supervisor False "[]"] obtain st1 where
    "main_c SUPERVISOR_BUILD supervisor tiny_boot (two_opts True) () False STUB_OK [] (sample 256 [])
       = and_then (stub_loop [] st1) session_end" "ready st1" "sys st1 = \<lparr>dbg_machine = mgr, dbg_ram = m\<rparr>" by blast
  then show ?thesis using halted by (intro exI [of _ st1]) (simp add: session_end_def)
qed

end
