(* ===== verification/Atomic.thy ===== *)
theory Atomic
  imports Memory
begin

text \<open>
  The compare-and-exchange loop of src/src/memory.h among other cores: when it ends, what it stores, and
  why the four comparing operations built on it are not atomic.
\<close>

section \<open>What an attempt sees\<close>

text \<open>The memory at attempt \<open>k\<close>: a failed attempt writes nothing, so the other cores alone have acted.\<close>

definition seen :: "memory \<Rightarrow> (memory \<Rightarrow> memory) list \<Rightarrow> nat \<Rightarrow> memory" where
  "seen m envs k = fold (\<lambda>env m. env m) (take (Suc k) envs) m"

lemma seen_Cons: "seen m (env # envs) 0 = env m" "seen m (env # envs) (Suc k) = seen (env m) envs k"
  by (simp_all add: seen_def)

definition keeps_size :: "(memory \<Rightarrow> memory) list \<Rightarrow> bool" where
  "keeps_size envs \<longleftrightarrow> (\<forall>env\<in>set envs. \<forall>m. mem_size (env m) = mem_size m)"

lemma keeps_size_simps [simp]:
  "keeps_size []"
  "keeps_size (env # envs) \<longleftrightarrow> (\<forall>m. mem_size (env m) = mem_size m) \<and> keeps_size envs"
  by (simp_all add: keeps_size_def)

section \<open>The loop ends\<close>

text \<open>After an attempt the word is compared with what the attempt before has read.\<close>

lemma cas_matches:
  assumes "in_mem m addr 4" "keeps_size envs" "k < length envs"
    and "mem_rw (seen m envs k) addr = Inr (case k of 0 \<Rightarrow> expected | Suc i \<Rightarrow> w i)"
    and "\<forall>i<k. mem_rw (seen m envs i) addr = Inr (w i)"
  shows "\<exists>j\<le>k. \<exists>m'. mem_cas_under envs m addr val expected = Inr (Some m') \<and> mem_ww (seen m envs j) addr val = Inr m'"
  using assms
proof (induction envs arbitrary: m k expected w)
  case (Cons env envs)
  let ?m = "env m"
  have m: "in_mem ?m addr 4" using Cons.prems(1,2) by (simp add: in_mem_def)
  obtain m1 where m1: "mem_ww ?m addr val = Inr m1" using word_cell.wr_in [OF m] by blast
  show ?case
  proof (cases "mem_rw ?m addr = Inr expected")
    case True
    then have "mem_cas_under (env # envs) m addr val expected = Inr (Some m1)" using m1 by simp
    moreover have "mem_ww (seen m (env # envs) 0) addr val = Inr m1" using m1 by (simp add: seen_Cons)
    ultimately show ?thesis by blast
  next
    case False
    then obtain i where i: "k = Suc i" using Cons.prems(4) by (cases k) (auto simp: seen_Cons)
    have w0: "mem_rw ?m addr = Inr (w 0)" using Cons.prems(5) i by (auto simp: seen_Cons)
    let ?w = "\<lambda>n. w (Suc n)"
    have "mem_rw (seen ?m envs i) addr = Inr (case i of 0 \<Rightarrow> w 0 | Suc n \<Rightarrow> ?w n)"
      using Cons.prems(4) i by (cases i) (simp_all add: seen_Cons)
    moreover have "\<forall>n<i. mem_rw (seen ?m envs n) addr = Inr (?w n)"
      using Cons.prems(5) i seen_Cons(2) [of m env envs] by (metis Suc_less_eq)
    ultimately obtain j m' where "j \<le> i" "mem_cas_under envs ?m addr val (w 0) = Inr (Some m')"
      "mem_ww (seen ?m envs j) addr val = Inr m'"
      using Cons.IH [OF m, of i "w 0" ?w] Cons.prems(2,3) i by auto
    then show ?thesis
      using w0 False i by (intro exI [of _ "Suc j"]) (auto simp: seen_Cons)
  qed
qed simp

lemma fold_size: "keeps_size envs \<Longrightarrow> mem_size (fold (\<lambda>env m. env m) envs m) = mem_size m"
  by (induction envs arbitrary: m) simp_all

lemma seen_size: "keeps_size envs \<Longrightarrow> mem_size (seen m envs k) = mem_size m"
  unfolding seen_def by (rule fold_size) (auto simp: keeps_size_def dest: in_set_takeD)

lemma seen_words:
  assumes "in_mem m addr 4" "keeps_size envs"
  obtains w where "\<And>k. mem_rw (seen m envs k) addr = Inr (w k)"
proof -
  have "\<forall>k. \<exists>v. mem_rw (seen m envs k) addr = Inr v"
    using assms seen_size [OF assms(2)] by (intro allI word_cell.rd_in) (simp add: in_mem_def)
  then show thesis using that by metis
qed

text \<open>
  C19: the loop of the comparing read-modify-write operations ends, whatever the other cores do, at the
  latest when two attempts in a row (or the read before the loop and the first attempt) find the same
  word: so one that spins on does so because another core has changed the word each time. The answer is
  the first word read. The comparison is not repeated when an attempt fails, so the operand may end up
  in the memory although the word there has meanwhile come to win the comparison.
\<close>

theorem comparing_amo_ends:
  assumes "in_mem m addr 4" "keeps_size envs" "k < length envs"
    and "mem_rw (seen m envs k) addr = mem_rw (case k of 0 \<Rightarrow> m | Suc i \<Rightarrow> seen m envs i) addr"
  shows "\<exists>old m'. mem_pick_under keep envs m addr val = Inr (Some (old, m')) \<and> mem_rw m addr = Inr old
    \<and> (if keep old val then m' = m else \<exists>j\<le>k. mem_ww (seen m envs j) addr val = Inr m')"
proof -
  obtain old where old: "mem_rw m addr = Inr old" using word_cell.rd_in [OF assms(1)] by blast
  obtain w where w: "\<And>k. mem_rw (seen m envs k) addr = Inr (w k)" using seen_words [OF assms(1,2)] by blast
  have "mem_rw (seen m envs k) addr = Inr (case k of 0 \<Rightarrow> old | Suc i \<Rightarrow> w i)"
    using assms(4) old w by (cases k) simp_all
  then obtain j m' where "j \<le> k" "mem_cas_under envs m addr val old = Inr (Some m')"
    "mem_ww (seen m envs j) addr val = Inr m'"
    using cas_matches [OF assms(1-3)] w by blast
  then show ?thesis using old by (auto simp: mem_pick_under_def mem_aread_def)
qed

text \<open>
  An unsigned maximum with 5 on a word that holds 0: another core stores 9 before the first attempt, and
  the memory ends up with 5.
\<close>

definition nine :: "memory \<Rightarrow> memory" where
  "nine m = store_bytes m 0 (bytes_of_word (9 :: u32))"

lemma comparing_amo_ends_witness:
  "\<exists>m'. mem_pick_under (\<lambda>old v. old > v) [nine, id] \<lparr>mem_bytes = (\<lambda>_. 0), mem_size = 4\<rparr> 0 5 = Inr (Some (0, m'))
     \<and> mem_rw m' 0 = Inr 5"
proof -
  let ?m = "\<lparr>mem_bytes = (\<lambda>_. 0), mem_size = 4\<rparr>"
  have zero: "mem_rw ?m 0 = Inr 0" by code_simp
  have "\<exists>old m'. mem_pick_under (\<lambda>old v. old > v) [nine, id] ?m 0 5 = Inr (Some (old, m')) \<and> mem_rw ?m 0 = Inr old
    \<and> (if old > 5 then m' = ?m else \<exists>j\<le>1. mem_ww (seen ?m [nine, id] j) 0 5 = Inr m')"
    by (rule comparing_amo_ends) (simp_all add: in_mem_def nine_def store_bytes_size seen_def)
  then show ?thesis using zero word_cell.rd_wr by fastforce
qed

end
