(* ===== verification/Hsm_Table.thy ===== *)
theory Hsm_Table
  imports Hsm
begin

text \<open>
  The transition table that the repository's own test of the core threads checks the signals against
  (src/test/thread/main.c), as the specification of the asynchronous signals of cthread.c.
\<close>

datatype Fun_Id = STOP_AS | START_AS | SUSPEND_AS | HALT_AS | STEP_SY | CONTINUE_AS

text \<open>The table \<open>fsm\<close>: the states that may be observed after a signal in one of the four settled states.\<close>

fun fsm_next :: "cthread_state \<Rightarrow> Fun_Id \<Rightarrow> cthread_state list" where
  "fsm_next STATE_STOPPED CONTINUE_AS = [STATE_STOPPED]"
| "fsm_next STATE_STOPPED HALT_AS = [STATE_HALTED, STATE_HALT_PENDING]"
| "fsm_next STATE_STOPPED STOP_AS = [STATE_STOPPED]"
| "fsm_next STATE_STOPPED START_AS = [STATE_STARTED, STATE_START_PENDING]"
| "fsm_next STATE_STOPPED SUSPEND_AS = [STATE_STOPPED]"
| "fsm_next STATE_STOPPED STEP_SY = [STATE_STOPPED]"
| "fsm_next STATE_HALTED CONTINUE_AS = [STATE_CONTINUE_PENDING, STATE_SUSPENDED, STATE_STOPPED, STATE_STARTED]"
| "fsm_next STATE_HALTED START_AS = [STATE_HALTED]"
| "fsm_next STATE_HALTED HALT_AS = [STATE_HALTED]"
| "fsm_next STATE_HALTED SUSPEND_AS = [STATE_HALTED]"
| "fsm_next STATE_HALTED STEP_SY = [STATE_HALTED]"
| "fsm_next STATE_HALTED STOP_AS = [STATE_HALTED]"
| "fsm_next STATE_STARTED HALT_AS = [STATE_HALT_PENDING, STATE_HALTED]"
| "fsm_next STATE_STARTED SUSPEND_AS = [STATE_SUSPENDED, STATE_SUSPEND_PENDING]"
| "fsm_next STATE_STARTED STOP_AS = [STATE_STOPPED, STATE_STOP_PENDING]"
| "fsm_next STATE_STARTED START_AS = [STATE_STARTED]"
| "fsm_next STATE_STARTED STEP_SY = [STATE_STARTED]"
| "fsm_next STATE_STARTED CONTINUE_AS = [STATE_STARTED]"
| "fsm_next STATE_SUSPENDED START_AS = [STATE_STARTED, STATE_RESUME_PENDING]"
| "fsm_next STATE_SUSPENDED HALT_AS = [STATE_HALTED, STATE_HALT_PENDING]"
| "fsm_next STATE_SUSPENDED STOP_AS = [STATE_SUSPENDED]"
| "fsm_next STATE_SUSPENDED SUSPEND_AS = [STATE_SUSPENDED]"
| "fsm_next STATE_SUSPENDED STEP_SY = [STATE_SUSPENDED]"
| "fsm_next STATE_SUSPENDED CONTINUE_AS = [STATE_SUSPENDED]"
| "fsm_next _ _ = []"

definition settled :: "cthread_state \<Rightarrow> bool" where
  "settled st \<longleftrightarrow> st = STATE_STOPPED \<or> st = STATE_HALTED \<or> st = STATE_STARTED \<or> st = STATE_SUSPENDED"

text \<open>
  The table \<open>functions\<close>. Of the synchronous step this is the part before its first wait: on a core that
  is not halted it fails an assertion, where the table says that the state does not change.
\<close>

fun signalled :: "Fun_Id \<Rightarrow> Cthread \<Rightarrow> Cthread result" where
  "signalled STOP_AS c = cthread_signal_stop c"
| "signalled START_AS c = cthread_signal_start c"
| "signalled SUSPEND_AS c = cthread_signal_suspend c"
| "signalled HALT_AS c = Inr (cthread_signal_halt c)"
| "signalled STEP_SY c = step_request c"
| "signalled CONTINUE_AS c = cthread_signal_continue c"

text \<open>What the thread does on its own: it only ever acknowledges the signal it finds.\<close>

lemma thread_acknowledges:
  "thread_step turn (c, p) = (c', p') \<Longrightarrow>
     ct_signal c' = ct_signal c \<and> (ct_state c' = ct_state c \<or> ct_state c' = signal_state (ct_signal c))"
  by (cases p; cases "ct_signal c")
    (auto simp: thread_step_def cthread_fsm_def cthread_wait_on_sign_def wait_ack_def thread_simps split: if_splits)

lemma threads_acknowledge:
  "thread_steps turn n (c, p) = (c', p') \<Longrightarrow>
     ct_signal c' = ct_signal c \<and> (ct_state c' = ct_state c \<or> ct_state c' = signal_state (ct_signal c))"
proof (induction n arbitrary: c' p')
  case (Suc n)
  obtain c1 p1 where c1: "thread_steps turn n (c, p) = (c1, p1)" by fastforce
  then have "thread_step turn (c1, p1) = (c', p')" using Suc.prems by (simp add: thread_steps_def)
  then show ?case using Suc.IH [OF c1] thread_acknowledges by metis
qed (simp add: thread_steps_def)

lemma settled_signal:
  assumes "hsm_inv s" "dbg s = D_Idle" "settled (ct_state (cth s))"
  shows "signal_state (ct_signal (cth s)) = ct_state (cth s)"
  using assms by (auto simp: hsm_inv_def settled_def)

text \<open>
  C20: under every interleaving in which harts are re-initialised at rest only, an asynchronous signal
  sent to a core in a settled state, seen after any number of steps of the core's own thread, has led to
  a state that the transition table of the repository's test allows, and it fails no assertion.
\<close>

theorem signals_follow_table:
  assumes "hsm_reachable at_rest s" "dbg s = D_Idle" "settled (ct_state (cth s))" "g \<noteq> STEP_SY"
  shows "\<exists>c. signalled g (cth s) = Inr c
    \<and> (\<forall>turn n. ct_state (fst (thread_steps turn n (c, tpc s))) \<in> set (fsm_next (ct_state (cth s)) g))"
proof -
  have inv: "hsm_inv s" using assms(1) by (rule reachable_inv)
  have old: "run_signal (ct_old_signal (cth s))" using inv by (simp add: hsm_inv_def)
  note same = settled_signal [OF inv assms(2,3)]
  have "\<exists>c. signalled g (cth s) = Inr c \<and> ct_state c \<in> set (fsm_next (ct_state (cth s)) g)
      \<and> signal_state (ct_signal c) \<in> set (fsm_next (ct_state (cth s)) g)"
    using assms(3,4) same old unfolding settled_def
    by (cases g) (elim disjE, auto simp: cthread_signal_stop_def cthread_signal_start_def cthread_signal_suspend_def
        cthread_signal_hsm_def hsm_leave_def hsm_next_def Let_def cthread_signal_halt_def cthread_signal_continue_def
        debug_state_def thread_simps elim!: run_signalE)
  then obtain c where c: "signalled g (cth s) = Inr c" "ct_state c \<in> set (fsm_next (ct_state (cth s)) g)"
    "signal_state (ct_signal c) \<in> set (fsm_next (ct_state (cth s)) g)" by blast
  have "ct_state (fst (thread_steps turn n (c, tpc s))) \<in> set (fsm_next (ct_state (cth s)) g)" for turn n
  proof -
    obtain c' p' where "thread_steps turn n (c, tpc s) = (c', p')" by fastforce
    then show ?thesis using threads_acknowledge c(2,3) by fastforce
  qed
  then show ?thesis using c(1) by blast
qed

lemma signals_follow_table_witness:
  "\<exists>s c. hsm_reachable at_rest s \<and> ct_state (cth s) = STATE_STARTED \<and> signalled HALT_AS (cth s) = Inr c
     \<and> ct_state (fst (thread_steps id 3 (c, tpc s))) \<in> {STATE_HALT_PENDING, STATE_HALTED}"
proof -
  let ?s = "mk STATE_STARTED START_S False (Exec False) D_Idle 0"
  have s: "hsm_reachable at_rest ?s" "dbg ?s = D_Idle" "ct_state (cth ?s) = STATE_STARTED"
    by (rule mk_running) (simp_all add: mk_def)
  then have "settled (ct_state (cth ?s))" by (simp add: settled_def)
  from signals_follow_table [OF s(1,2) this, of HALT_AS] show ?thesis
    using s by fastforce
qed

end
