(* ===== verification/Gdb_Socket.thy ===== *)
theory Gdb_Socket
  imports Gdb_Stub
begin

text \<open>
  The socket of the stub (src/include/stubb_a_dub/src/socket.c): \<open>sad_socket_init\<close> with the results of
  the system calls as a parameter. Its result is what theory \<open>Gdb_Stub\<close> calls \<open>socket_ret\<close>.
\<close>

text \<open>What \<open>socket\<close>, \<open>setsockopt\<close>, \<open>bind\<close>, \<open>listen\<close> and \<open>accept\<close> return.\<close>

record socket_calls =
  sc_socket :: int
  sc_setsockopt :: int
  sc_bind :: int
  sc_listen :: int
  sc_accept :: int

text \<open>The global \<open>server_g\<close> and the descriptors that have been closed.\<close>

record SAD_Stub =
  server_fd :: int
  sad_socket :: int
  closed_fds :: "int list"

definition close_socket :: "SAD_Stub \<Rightarrow> stub_ret \<times> SAD_Stub" where
  "close_socket s = (STUB_SOCKET, s\<lparr>closed_fds := server_fd s # closed_fds s\<rparr>)"

definition sad_socket_init :: "socket_calls \<Rightarrow> SAD_Stub \<Rightarrow> stub_ret \<times> SAD_Stub" where
  "sad_socket_init r s =
    (let s = s\<lparr>server_fd := sc_socket r\<rparr>
     in if sc_socket r = - 1 then (STUB_SOCKET, s)
        else if sc_setsockopt r = - 1 then close_socket s
        else if sc_bind r = - 1 then close_socket s
        else if sc_listen r = - 1 then close_socket s
        else let s = s\<lparr>sad_socket := sc_accept r\<rparr>
             in if sc_accept r = - 1 then close_socket s else (STUB_OK, s))"

text \<open>A listening socket that has been opened is either in use or closed, once.\<close>

lemma sad_socket_init_cases:
  "sad_socket_init r s = (ret, s') \<Longrightarrow>
     (ret = STUB_OK \<longrightarrow> server_fd s' \<noteq> - 1 \<and> sad_socket s' \<noteq> - 1 \<and> closed_fds s' = closed_fds s)
     \<and> (ret \<noteq> STUB_OK \<longrightarrow> ret = STUB_SOCKET
          \<and> closed_fds s' = (if sc_socket r = - 1 then closed_fds s else sc_socket r # closed_fds s))"
  by (auto simp: sad_socket_init_def close_socket_def Let_def split: if_splits)

end
