(* ===== verification/Smp.thy ===== *)
theory Smp
  imports Sv_Props Start_Debug
begin

text \<open>
  The SUPERVISOR emulator as a whole: all core threads of \<open>threads_mgr.cthreads\<close> over the one guest
  memory, and the debugger's thread beside them. A step of the machine is a step of one core's thread
  (theory \<open>Cthread\<close>), whose instructions are those of \<open>vcore_exec\<close> on the hart that the core, the
  memory and the machine make, or one operation of the threads manager. An instruction is one step
  here, so the compare-and-exchange loops, which other cores can interrupt, are left to theory \<open>Atomic\<close>.
\<close>

unbundle bit_operations_syntax

section \<open>The machine and its steps\<close>

text \<open>
  \<open>smp_phase\<close> and \<open>smp_target\<close> say where the debugger's thread is in \<open>cthread_signal_step\<close> and for which
  core. The two counters are for the statements only: the instructions each core has executed, and that
  number at the last request of a step.
\<close>

record smp =
  smp_machine :: machine
  smp_pcs :: "thread_pc list"
  smp_ram :: memory
  smp_phase :: debugger
  smp_target :: nat
  smp_executed :: "nat list"
  smp_base :: "nat list"

text \<open>What \<open>main\<close> has set up when the threads start.\<close>

definition smp_boot :: "machine \<Rightarrow> memory \<Rightarrow> smp" where
  "smp_boot mgr m = \<lparr>smp_machine = mgr, smp_pcs = replicate (ctx_cores mgr) At_Lock, smp_ram = m,
     smp_phase = D_Idle, smp_target = 0, smp_executed = replicate (ctx_cores mgr) 0, smp_base = replicate (ctx_cores mgr) 0\<rparr>"

definition smp_hart :: "nat \<Rightarrow> smp \<Rightarrow> sv_hart" where
  "smp_hart i s = \<lparr>core = ct_core (cthreads (smp_machine s) ! i), ram = smp_ram s, world = (smp_machine s)\<lparr>me := i\<rparr>\<rparr>"

definition smp_put :: "nat \<Rightarrow> sv_hart \<Rightarrow> thread_pc \<Rightarrow> smp \<Rightarrow> smp" where
  "smp_put i h p s = s\<lparr>smp_machine := flush h, smp_pcs := (smp_pcs s)[i := p], smp_ram := ram h\<rparr>"

definition count_one :: "nat \<Rightarrow> smp \<Rightarrow> smp" where
  "count_one i s = s\<lparr>smp_executed := (smp_executed s)[i := smp_executed s ! i + 1]\<rparr>"

lemma count_one_simps [simp]:
  "smp_machine (count_one i s) = smp_machine s" "smp_pcs (count_one i s) = smp_pcs s"
  "smp_ram (count_one i s) = smp_ram s" "smp_phase (count_one i s) = smp_phase s"
  "smp_target (count_one i s) = smp_target s" "smp_base (count_one i s) = smp_base s"
  by (simp_all add: count_one_def)

text \<open>The body of the \<open>while (1)\<close> of \<open>vcore_run\<close> up to the load of the exit flag, and from it on.\<close>

definition exec_turn :: "nat \<Rightarrow> bool \<Rightarrow> smp \<Rightarrow> smp result" where
  "exec_turn i b s =
    (let h = set_reg ZERO 0 (smp_hart i s)
     in and_then (mem_rw (ram h) (reg h PC)) (\<lambda>ins.
        and_then (vcore_exec supervisor h ins) (\<lambda>h. Inr (count_one i (smp_put i h (Poll b) s)))))"

definition poll_turn :: "nat \<Rightarrow> bool \<Rightarrow> smp \<Rightarrow> smp result" where
  "poll_turn i b s =
    (let h = smp_hart i s
     in if atomic_exit_loop (core h) then Inr (smp_put i h (Returned b) s)
        else and_then (plat_irq supervisor h) (\<lambda>h. Inr (smp_put i h (Exec b) s)))"

text \<open>A step of \<open>cthread_fsm\<close>; a failed assertion ends the process.\<close>

definition fsm_turn :: "nat \<Rightarrow> smp \<Rightarrow> smp result" where
  "fsm_turn i s =
    (let (c, p) = thread_step id (cthreads (smp_machine s) ! i, smp_pcs s ! i)
     in case p of
          Dead e \<Rightarrow> Inl e
        | _ \<Rightarrow> Inr (s\<lparr>smp_machine := (smp_machine s)\<lparr>cthreads := (cthreads (smp_machine s))[i := c]\<rparr>,
                       smp_pcs := (smp_pcs s)[i := p]\<rparr>))"

definition core_turn :: "nat \<Rightarrow> smp \<Rightarrow> smp result" where
  "core_turn i s = (case smp_pcs s ! i of
     Exec b \<Rightarrow> exec_turn i b s
   | Poll b \<Rightarrow> poll_turn i b s
   | _ \<Rightarrow> fsm_turn i s)"

text \<open>
  \<open>Core i\<close> is a step of thread \<open>i\<close>; the others are what the debugger's thread does: the operations
  of the threads manager, \<open>cthread_signal_step\<close> in three parts between which it waits, and its writes
  to the memory and to the 33 registers that \<open>run_debug\<close> tells the stub of. An action that cannot
  happen yet changes nothing.
\<close>

datatype smp_action = Core nat | Halt_All | Continue_One nat | Continue_All bool | Step_Begin nat | Step_Release | Step_End
  | Write_Reg u64 u32 u32 | Write_Mem "u8 list" u64

definition with_machine :: "(machine \<Rightarrow> machine result) \<Rightarrow> smp \<Rightarrow> smp result" where
  "with_machine f s = and_then (f (smp_machine s)) (\<lambda>m. Inr (s\<lparr>smp_machine := m\<rparr>))"

definition with_debuggee :: "(Debuggee \<Rightarrow> Debuggee result) \<Rightarrow> smp \<Rightarrow> smp result" where
  "with_debuggee f s = and_then (f \<lparr>dbg_machine = smp_machine s, dbg_ram = smp_ram s\<rparr>) (\<lambda>d.
     Inr (s\<lparr>smp_machine := dbg_machine d, smp_ram := dbg_ram d\<rparr>))"

definition served :: "(smp \<Rightarrow> smp result) \<Rightarrow> smp \<Rightarrow> smp result" where
  "served f s = (if smp_phase s = D_Idle then f s else Inr s)"

definition begin_step :: "nat \<Rightarrow> smp \<Rightarrow> smp result" where
  "begin_step i s = and_then (with_machine (threads_mgr_step_core i) s) (\<lambda>s.
     Inr (s\<lparr>smp_phase := D_Starting, smp_target := i, smp_base := (smp_base s)[i := smp_executed s ! i]\<rparr>))"

definition release_step :: "smp \<Rightarrow> smp result" where
  "release_step s =
    (if smp_phase s = D_Starting \<and> step_started (cthreads (smp_machine s) ! smp_target s)
     then and_then (with_machine (on_core (smp_target s) (\<lambda>c. Inr (step_release c))) s) (\<lambda>s.
            Inr (s\<lparr>smp_phase := D_Finishing\<rparr>))
     else Inr s)"

definition end_step :: "smp \<Rightarrow> smp result" where
  "end_step s =
    (if smp_phase s = D_Finishing \<and> step_done (cthreads (smp_machine s) ! smp_target s)
     then Inr (s\<lparr>smp_phase := D_Idle\<rparr>) else Inr s)"

fun smp_act :: "smp_action \<Rightarrow> smp \<Rightarrow> smp result" where
  "smp_act (Core i) s = (if i < ctx_cores (smp_machine s) then core_turn i s else Inr s)"
| "smp_act Halt_All s = served (with_machine (\<lambda>m. Inr (threads_mgr_halt_cores m))) s"
| "smp_act (Continue_One i) s = served (with_machine (threads_mgr_continue_core i)) s"
| "smp_act (Continue_All busy) s = served (with_machine (threads_mgr_continue_cores busy)) s"
| "smp_act (Step_Begin i) s = served (begin_step i) s"
| "smp_act Step_Release s = release_step s"
| "smp_act Step_End s = end_step s"
| "smp_act (Write_Reg v core_id reg_id) s =
     (if unat reg_id < 33 then served (with_debuggee (write_reg v core_id reg_id)) s else Inr s)"
| "smp_act (Write_Mem input addr) s = served (with_debuggee (write_mem input addr)) s"

fun smp_run :: "smp_action list \<Rightarrow> smp \<Rightarrow> smp result" where
  "smp_run [] s = Inr s"
| "smp_run (a # acts) s = and_then (smp_act a s) (smp_run acts)"

lemma smp_run_Nil [simp]: "smp_run [] = Inr"
  by (simp add: fun_eq_iff)

section \<open>What an instruction keeps of the other cores\<close>

text \<open>Of the assertions only the one on STVEC can fail in an instruction, and not on these cores.\<close>

lemma signal_no_assert: "run_signal g \<Longrightarrow> on_core i (cthread_signal_hsm g) m \<noteq> Inl (Assert_Failed r)"
  using signal_hsm_total [of g "cthreads m ! i"] by (auto simp: on_core_def out_of_cores_def result_simps)

lemma sbi_no_assert: "emu_sbi_call mem_sz m \<noteq> Inl (Assert_Failed r)"
  using signal_no_assert [of START_S] signal_no_assert [of STOP_S] signal_no_assert [of SUSPEND_S]
  by (auto simp: emu_sbi_call_def hsm_ext_def hsm_start_def hsm_stop_def hsm_status_def
      hsm_suspend_def Let_def result_simps hsm_signals out_of_cores_def)

lemma dispatch_no_assert: "sv_ok h \<Longrightarrow> dispatch_trap h code v \<noteq> Inl (Assert_Failed r)"
  by (auto simp: dispatch_trap_eq sv_ok_def core_ok_def reg_def)

lemma interrupts_no_assert: "sv_ok h \<Longrightarrow> check_interrupts h \<noteq> Inl (Assert_Failed r)"
  by (simp add: check_interrupts_eq sv_ok_def core_ok_def reg_def)

lemma access_no_assert: "sv_ok h \<Longrightarrow> csr_access h ins csr \<noteq> Inl (Assert_Failed r)"
  by (auto simp: csr_access_def Let_def result_simps csr_swap_def dispatch_no_assert wild_pointer_def
      split: option.splits)

lemma sys_no_assert: "sv_ok h \<Longrightarrow> vcore_sys_type h ins \<noteq> Inl (Assert_Failed r)"
  by (auto simp: vcore_sys_type_def sv_env_def Let_def result_simps sbi_no_assert dispatch_no_assert
      access_no_assert split: option.splits)

text \<open>
  A property \<open>Q i\<close> of core \<open>i\<close> that hart signals and halts keep and that does not depend on the registers
  as long as they are those of a supervisor-mode core with a legal STVEC.
\<close>

locale core_property =
  fixes n :: nat and Q :: "nat \<Rightarrow> Cthread \<Rightarrow> bool" and r :: string
  assumes Q_signal: "Q i c \<Longrightarrow> cthread_signal_hsm g c = Inr c' \<Longrightarrow> Q i c'"
    and Q_core: "Q i c \<Longrightarrow> Q i (c\<lparr>ct_core := k\<rparr>)"
    and Q_halt: "Q i c \<Longrightarrow> Q i (cthread_signal_halt c)"
begin

definition all_ok :: "machine \<Rightarrow> bool" where
  "all_ok m \<longleftrightarrow> ctx_cores m = n \<and> (\<forall>i<n. core_ok (ct_core (cthreads m ! i)) \<and> Q i (cthreads m ! i))"

lemma set_core_ok: "all_ok m \<Longrightarrow> i < ctx_cores m \<Longrightarrow> core_ok k \<Longrightarrow> all_ok (set_core i k m)"
  by (auto simp: all_ok_def thread_simps Q_core)

lemma set_areg_ok: "all_ok m \<Longrightarrow> i \<noteq> STVEC \<Longrightarrow> all_ok (set_areg i v m)"
  by (cases "me m < ctx_cores m")
    (auto simp: all_ok_def set_areg_def core_ok_def nth_list_update Q_core list_update_beyond)

lemma signal_ok:
  assumes "on_core i (cthread_signal_hsm g) m = Inr m'" "all_ok m"
  shows "all_ok m'"
proof -
  note oc = on_core_simps [OF assms(1)]
  obtain c where c: "i < ctx_cores m" "cthread_signal_hsm g (cthreads m ! i) = Inr c" "cthreads m' ! i = c"
    using oc(4) by blast
  have "core_ok (ct_core (cthreads m' ! j)) \<and> Q j (cthreads m' ! j)" if "j < n" for j
    using c oc(5) [of j] assms(2) that signal_core_ok [OF c(2)] Q_signal [OF _ c(2)]
    by (cases "j = i") (auto simp: all_ok_def)
  then show ?thesis using oc(1,2) assms(2) by (simp add: all_ok_def)
qed

lemma hsm_ok:
  "all_ok m \<Longrightarrow> hsm_start mem_sz m = Inr m' \<Longrightarrow> all_ok m'"
  "all_ok m \<Longrightarrow> hsm_stop m = Inr m' \<Longrightarrow> all_ok m'"
  "all_ok m \<Longrightarrow> hsm_status m = Inr m' \<Longrightarrow> all_ok m'"
  "all_ok m \<Longrightarrow> hsm_suspend mem_sz m = Inr m' \<Longrightarrow> all_ok m'"
  unfolding hsm_start_def hsm_stop_def hsm_status_def hsm_suspend_def Let_def hsm_signals
  by (auto simp: result_simps split: if_splits
      intro!: set_areg_ok elim!: signal_ok intro: set_core_ok core_ok_init)

lemma sbi_ok: "emu_sbi_call mem_sz m = Inr m' \<Longrightarrow> all_ok m \<Longrightarrow> all_ok m'"
  by (auto simp: emu_sbi_call_def hsm_ext_def base_ext_def Let_def set_areg_ok split: if_splits intro: hsm_ok)

lemma halt_ok: "all_ok m \<Longrightarrow> all_ok (threads_mgr_halt_cores m)"
  by (auto simp: all_ok_def threads_mgr_halt_cores_def Q_halt)
    (auto simp: cthread_signal_halt_def set_exit_flag_def core_ok_def)

lemma flush_ok: "core_ok (core h) \<Longrightarrow> me (world h) < n \<Longrightarrow> all_ok (world h) \<Longrightarrow> all_ok (flush h)"
  unfolding flush_def by (rule set_core_ok) (simp_all add: all_ok_def)

end

text \<open>Traps and CSR accesses leave the rest of the process alone.\<close>

lemma dispatch_world: "dispatch_trap h code v = Inr h' \<Longrightarrow> world h' = world h"
  by (auto simp: dispatch_trap_eq hart_simps split: if_splits)

lemma sbi_me: "emu_sbi_call mem_sz m = Inr m' \<Longrightarrow> me m' = me m"
  by (auto simp: emu_sbi_call_def hsm_ext_def base_ext_def hsm_start_def hsm_stop_def hsm_status_def hsm_suspend_def
      Let_def thread_simps result_simps on_core_def split: if_splits)

lemma access_world: "csr_access h ins csr = Inr h' \<Longrightarrow> world h' = world h"
  by (auto simp: csr_access_def csr_swap_def Let_def result_simps hart_simps
      split: if_splits option.splits dest!: dispatch_world)

lemma sys_me: "vcore_sys_type h ins = Inr h' \<Longrightarrow> me (world h') = me (world h)"
  by (auto simp: vcore_sys_type_def sv_env_def Let_def result_simps hart_simps reload_def flush_def thread_simps
      threads_mgr_halt_cores_def split: if_splits option.splits dest: dispatch_world access_world sbi_me)

context core_property
begin

definition hart_ok :: "nat \<Rightarrow> sv_hart \<Rightarrow> bool" where
  "hart_ok i h \<longleftrightarrow> core_ok (core h) \<and> me (world h) = i \<and> i < n \<and> all_ok (world h)"

lemma hart_ok_sv: "hart_ok i h \<longleftrightarrow> sv_ok h \<and> me (world h) = i \<and> all_ok (world h)"
  by (auto simp: hart_ok_def all_ok_def sv_ok_def)

lemma env_world_ok:
  assumes "sv_env h ins = Inr h'" "hart_ok i h"
  shows "all_ok (world h')"
proof -
  have ok: "all_ok (world h)" "all_ok (flush h)" using assms(2) flush_ok by (auto simp: hart_ok_def)
  then show ?thesis
    using assms(1) by (auto simp: sv_env_def Let_def result_simps hart_simps reload_def halt_ok split: if_splits
        dest: sbi_ok dispatch_world)
qed

lemma sys_world_ok: "vcore_sys_type h ins = Inr h' \<Longrightarrow> hart_ok i h \<Longrightarrow> all_ok (world h')"
  by (auto simp: vcore_sys_type_def Let_def split: if_splits option.splits
      dest: env_world_ok dispatch_world access_world simp: hart_ok_def)

lemma hart_ok_sys: "vcore_sys_type h ins = Inr h' \<Longrightarrow> hart_ok i h \<Longrightarrow> hart_ok i h'"
  using sv_ok_sys sys_world_ok sys_me by (auto simp: hart_ok_sv)

end

sublocale core_property \<subseteq> inv: platform_invariant supervisor "hart_ok i" "Assert_Failed r" for i
proof unfold_locales
  fix h h' :: sv_hart and code v
  assume "hart_ok i h" "plat_trap supervisor h code v = Inr h'"
  then show "hart_ok i h'"
    using sv_ok_dispatch [of h code v h'] dispatch_world [of h code v h'] by (simp add: hart_ok_sv)
next
  fix h h' :: sv_hart
  assume "hart_ok i h" "plat_irq supervisor h = Inr h'"
  then show "hart_ok i h'"
    using sv_ok_interrupts [of h h'] check_interrupts_keeps(2) [of h h'] by (simp add: hart_ok_sv)
qed (auto simp: hart_ok_sv out_of_vmem_def dispatch_no_assert sys_no_assert interrupts_no_assert hart_simps
    intro: sv_ok_set_reg sv_ok_updates dest: hart_ok_sys [unfolded hart_ok_sv])

context core_property
begin

lemma smp_hart_ok: "i < n \<Longrightarrow> all_ok (smp_machine s) \<Longrightarrow> hart_ok i (smp_hart i s)"
  by (simp add: hart_ok_def smp_hart_def all_ok_def)

lemma smp_put_ok:
  "hart_ok i h \<Longrightarrow> mem_size (ram h) = mem_size (smp_ram s) \<Longrightarrow> all_ok (smp_machine (smp_put i h p s))
     \<and> mem_size (smp_ram (smp_put i h p s)) = mem_size (smp_ram s)
     \<and> smp_pcs (smp_put i h p s) = (smp_pcs s)[i := p]"
  by (simp add: smp_put_def hart_ok_def flush_ok)

lemma exec_turn_ok:
  assumes "i < n" "all_ok (smp_machine s)"
  shows "exec_turn i b s \<noteq> Inl (Assert_Failed r)"
    and "exec_turn i b s = Inr s' \<Longrightarrow> all_ok (smp_machine s') \<and> mem_size (smp_ram s') = mem_size (smp_ram s)
      \<and> smp_pcs s' = (smp_pcs s)[i := Poll b]"
proof -
  let ?h = "set_reg ZERO 0 (smp_hart i s)"
  have h: "hart_ok i ?h" using smp_hart_ok [OF assms] by (rule inv.P_set_reg) simp
  show "exec_turn i b s \<noteq> Inl (Assert_Failed r)"
    using inv.exec_not_bad [OF h] by (simp add: exec_turn_def Let_def result_simps inv.access_not_bad)
  assume "exec_turn i b s = Inr s'"
  then obtain ins h' where ex: "vcore_exec supervisor ?h ins = Inr h'" and s': "s' = count_one i (smp_put i h' (Poll b) s)"
    by (auto simp: exec_turn_def Let_def result_simps)
  have "mem_size (ram h') = mem_size (smp_ram s)"
    using sv_sized.exec_size [OF ex] by (simp add: hart_simps) (simp add: smp_hart_def)
  then show "all_ok (smp_machine s') \<and> mem_size (smp_ram s') = mem_size (smp_ram s) \<and> smp_pcs s' = (smp_pcs s)[i := Poll b]"
    unfolding s' count_one_simps by (rule smp_put_ok [OF inv.exec_invariant [OF h ex]])
qed

lemma poll_turn_ok:
  assumes "i < n" "all_ok (smp_machine s)"
  shows "poll_turn i b s \<noteq> Inl (Assert_Failed r)"
    and "poll_turn i b s = Inr s' \<Longrightarrow> all_ok (smp_machine s') \<and> mem_size (smp_ram s') = mem_size (smp_ram s)
      \<and> (smp_pcs s' = (smp_pcs s)[i := Exec b]
         \<or> smp_pcs s' = (smp_pcs s)[i := Returned b] \<and> exit_flag (cthreads (smp_machine s') ! i))"
proof -
  note h = smp_hart_ok [OF assms]
  show "poll_turn i b s \<noteq> Inl (Assert_Failed r)"
    using inv.bad_irq [OF h] by (simp add: poll_turn_def Let_def result_simps)
  assume "poll_turn i b s = Inr s'"
  then obtain h' p where s': "s' = smp_put i h' p s"
    and p: "p = Returned b \<and> atomic_exit_loop (core h') \<or> p = Exec b"
    and irq: "h' = smp_hart i s \<or> plat_irq supervisor (smp_hart i s) = Inr h'"
    by (auto simp: poll_turn_def Let_def result_simps split: if_splits)
  have h': "hart_ok i h'" using irq inv.P_irq [OF h] h by auto
  have "world h' = world (smp_hart i s)" using irq check_interrupts_keeps(2) [of "smp_hart i s" h'] by auto
  then have w: "me (world h') = i" "i < ctx_cores (world h')"
    using assms by (simp_all add: smp_hart_def all_ok_def)
  have flag: "exit_flag (cthreads (smp_machine (smp_put i h' p s)) ! i) = atomic_exit_loop (core h')"
    unfolding smp_put_def flush_def w(1) smp.select_convs by (simp add: set_core_simps(4) [OF w(2)] exit_flag_def)
  have "mem_size (ram h') = mem_size (smp_ram s)"
    using irq sv_sized.irq_size [of "smp_hart i s" h'] by (auto simp: smp_hart_def)
  from smp_put_ok [OF h' this, of p] show "all_ok (smp_machine s') \<and> mem_size (smp_ram s') = mem_size (smp_ram s)
      \<and> (smp_pcs s' = (smp_pcs s)[i := Exec b]
         \<or> smp_pcs s' = (smp_pcs s)[i := Returned b] \<and> exit_flag (cthreads (smp_machine s') ! i))"
    using p flag unfolding s' by auto
qed

end

section \<open>Every schedule\<close>

lemma fsm_core_ok:
  "thread_step id (c, p) = (c', p') \<Longrightarrow> core_ok (ct_core c') = core_ok (ct_core c)"
  "thread_step id (c, p) = (c', Dead e) \<Longrightarrow> p = Dead e \<or> e = Assert_Failed ''[HSM]: HOT LOOP INVARIANT BROKEN''"
  by (auto simp: thread_step_def cthread_fsm_def cthread_wait_on_sign_def wait_ack_def fsm_after_wait_def
      fsm_after_run_def set_exit_flag_def core_ok_def split: thread_pc.splits cthread_signal.splits if_splits)

lemma continue_core_ok: "cthread_signal_continue c = Inr c' \<Longrightarrow> core_ok (ct_core c') = core_ok (ct_core c)"
  by (auto simp: cthread_signal_continue_def Let_def set_exit_flag_def core_ok_def split: if_splits)

lemma step_core_ok: "step_request c = Inr c' \<Longrightarrow> core_ok (ct_core c') = core_ok (ct_core c)"
  by (auto simp: step_request_def set_exit_flag_def core_ok_def split: if_splits)

interpretation cores: core_property n "\<lambda>_ _. True" r for n r
  by unfold_locales simp_all

lemma cores_on_core:
  assumes "on_core i f m = Inr m'" "cores.all_ok n m"
    and "\<And>c c'. f c = Inr c' \<Longrightarrow> core_ok (ct_core c') = core_ok (ct_core c)"
  shows "cores.all_ok n m'"
  using assms unfolding cores.all_ok_def
  by (auto simp: on_core_def result_simps nth_list_update split: if_splits)

lemma continue_list_ok:
  "continue_list cs = Inr cs' \<Longrightarrow> length cs' = length cs \<and> (\<forall>i<length cs. core_ok (ct_core (cs' ! i)) = core_ok (ct_core (cs ! i)))"
  by (induction cs arbitrary: cs') (auto simp: result_simps nth_Cons' continue_core_ok)

definition smp_ok :: "nat \<Rightarrow> nat \<Rightarrow> smp \<Rightarrow> bool" where
  "smp_ok n sz s \<longleftrightarrow> cores.all_ok n (smp_machine s) \<and> length (smp_pcs s) = n \<and> mem_size (smp_ram s) = sz
     \<and> (\<forall>i<n. \<forall>e. smp_pcs s ! i \<noteq> Dead e)"

lemma fsm_turn_ok:
  assumes "i < n" "smp_ok n sz s"
  shows "fsm_turn i s \<noteq> Inl stvec_bug" and "fsm_turn i s = Inr s' \<Longrightarrow> smp_ok n sz s'"
proof -
  obtain c p where st: "thread_step id (cthreads (smp_machine s) ! i, smp_pcs s ! i) = (c, p)"
    by (cases "thread_step id (cthreads (smp_machine s) ! i, smp_pcs s ! i)")
  show "fsm_turn i s \<noteq> Inl stvec_bug"
    using st fsm_core_ok(2) [of "cthreads (smp_machine s) ! i" "smp_pcs s ! i" c stvec_bug] assms
    by (cases p) (auto simp: fsm_turn_def stvec_bug_def smp_ok_def)
  assume "fsm_turn i s = Inr s'"
  then have "s' = s\<lparr>smp_machine := (smp_machine s)\<lparr>cthreads := (cthreads (smp_machine s))[i := c]\<rparr>,
      smp_pcs := (smp_pcs s)[i := p]\<rparr>" "\<forall>e. p \<noteq> Dead e"
    using st by (cases p; simp add: fsm_turn_def)+
  then show "smp_ok n sz s'"
    using assms fsm_core_ok(1) [OF st] by (auto simp: smp_ok_def cores.all_ok_def nth_list_update)
qed

lemma core_turn_ok:
  assumes "i < n" "smp_ok n sz s"
  shows "core_turn i s \<noteq> Inl stvec_bug" and "core_turn i s = Inr s' \<Longrightarrow> smp_ok n sz s'"
proof -
  have ok: "cores.all_ok n (smp_machine s)" using assms(2) by (simp add: smp_ok_def)
  show "core_turn i s \<noteq> Inl stvec_bug"
    using cores.exec_turn_ok(1) [OF assms(1) ok] cores.poll_turn_ok(1) [OF assms(1) ok] fsm_turn_ok(1) [OF assms]
    by (cases "smp_pcs s ! i") (simp_all add: core_turn_def stvec_bug_def)
  assume "core_turn i s = Inr s'"
  then show "smp_ok n sz s'"
  proof (cases "smp_pcs s ! i")
    case (Exec b)
    then have "exec_turn i b s = Inr s'" using \<open>core_turn i s = Inr s'\<close> by (simp add: core_turn_def)
    from cores.exec_turn_ok(2) [OF assms(1) ok this] show ?thesis
      using assms by (auto simp: smp_ok_def nth_list_update)
  next
    case (Poll b)
    then have "poll_turn i b s = Inr s'" using \<open>core_turn i s = Inr s'\<close> by (simp add: core_turn_def)
    from cores.poll_turn_ok(2) [OF assms(1) ok this] show ?thesis
      using assms by (auto simp: smp_ok_def nth_list_update split: if_splits)
  qed (use fsm_turn_ok(2) [OF assms] in \<open>simp_all add: core_turn_def\<close>)
qed

lemma manager_ok:
  assumes "cores.all_ok n m"
  shows "threads_mgr_continue_core i m = Inr m' \<Longrightarrow> cores.all_ok n m'"
    and "threads_mgr_step_core i m = Inr m' \<Longrightarrow> cores.all_ok n m'"
    and "threads_mgr_continue_cores busy m = Inr m' \<Longrightarrow> cores.all_ok n m'"
    and "on_core i (\<lambda>c. Inr (step_release c)) m = Inr m' \<Longrightarrow> cores.all_ok n m'"
  using assms
  by (auto simp: threads_mgr_continue_core_def threads_mgr_step_core_def threads_mgr_continue_cores_def step_release_def
      result_simps split: if_splits elim!: cores_on_core dest: continue_core_ok step_core_ok continue_list_ok)
    (auto simp: cores.all_ok_def dest!: continue_list_ok)

lemma manager_not_bug:
  "threads_mgr_continue_core i m \<noteq> Inl stvec_bug" "threads_mgr_step_core i m \<noteq> Inl stvec_bug"
  "threads_mgr_continue_cores busy m \<noteq> Inl stvec_bug" "on_core i (\<lambda>c. Inr (step_release c)) m \<noteq> Inl stvec_bug"
proof -
  have "continue_list cs \<noteq> Inl stvec_bug" for cs
    by (induction cs) (auto simp: result_simps cthread_signal_continue_def stvec_bug_def Let_def)
  then show "threads_mgr_continue_core i m \<noteq> Inl stvec_bug" "threads_mgr_step_core i m \<noteq> Inl stvec_bug"
    "threads_mgr_continue_cores busy m \<noteq> Inl stvec_bug" "on_core i (\<lambda>c. Inr (step_release c)) m \<noteq> Inl stvec_bug"
    by (auto simp: threads_mgr_continue_core_def threads_mgr_step_core_def threads_mgr_continue_cores_def on_core_def
        result_simps cthread_signal_continue_def step_request_def stvec_bug_def out_of_cores_def Let_def)
qed

lemma write_ok:
  assumes "smp_ok n sz s"
  shows "unat k < 33 \<Longrightarrow> with_debuggee (write_reg v i k) s = Inr s' \<Longrightarrow> smp_ok n sz s'"
    and "with_debuggee (write_mem bs ad) s = Inr s' \<Longrightarrow> smp_ok n sz s'"
proof -
  show "smp_ok n sz s'" if k: "unat k < 33" and wr: "with_debuggee (write_reg v i k) s = Inr s'"
  proof -
    obtain j K where "s' = s\<lparr>smp_machine := set_core j K (smp_machine s)\<rparr>" "j < ctx_cores (smp_machine s)"
      "core_ok (ct_core (cthreads (smp_machine s) ! j)) \<longrightarrow> core_ok K"
      using k wr by (auto simp: with_debuggee_def write_reg_def result_simps Let_def core_ok_def core_of_def split: if_splits)
    then show ?thesis using assms cores.set_core_ok by (auto simp: smp_ok_def cores.all_ok_def thread_simps)
  qed
  show "with_debuggee (write_mem bs ad) s = Inr s' \<Longrightarrow> smp_ok n sz s'"
    using assms by (auto simp: with_debuggee_def write_mem_def result_simps smp_ok_def mem_simps)
qed

lemma write_not_bug:
  "with_debuggee (write_reg v i k) s \<noteq> Inl stvec_bug" "with_debuggee (write_mem bs ad) s \<noteq> Inl stvec_bug"
  by (auto simp: with_debuggee_def write_reg_def write_mem_def result_simps mem_wb_ptr_s_def out_of_vmem_def
      out_of_cores_def out_of_regs_def stvec_bug_def Let_def split: if_splits)

lemma smp_ok_debugger [simp]:
  "smp_ok n sz (s\<lparr>smp_phase := p\<rparr>) = smp_ok n sz s"
  "smp_ok n sz (s\<lparr>smp_phase := p, smp_target := i, smp_base := bs\<rparr>) = smp_ok n sz s"
  by (simp_all add: smp_ok_def)

lemma act_ok:
  assumes "smp_ok n sz s"
  shows "smp_act a s \<noteq> Inl stvec_bug" and "smp_act a s = Inr s' \<Longrightarrow> smp_ok n sz s'"
proof -
  have n: "ctx_cores (smp_machine s) = n" and ok: "cores.all_ok n (smp_machine s)"
    using assms by (auto simp: smp_ok_def cores.all_ok_def)
  show "smp_act a s \<noteq> Inl stvec_bug"
    using core_turn_ok(1) [OF _ assms] manager_not_bug write_not_bug n
    by (cases a) (auto simp: with_machine_def served_def begin_step_def release_step_def end_step_def result_simps)
  have keep: "smp_ok n sz (s\<lparr>smp_machine := m\<rparr>)" if "cores.all_ok n m" for m
    using that assms by (simp add: smp_ok_def)
  have mgr: "with_machine (\<lambda>m. Inr (threads_mgr_halt_cores m)) s = Inr t \<Longrightarrow> smp_ok n sz t"
    "with_machine (threads_mgr_continue_core i) s = Inr t \<Longrightarrow> smp_ok n sz t"
    "with_machine (threads_mgr_step_core i) s = Inr t \<Longrightarrow> smp_ok n sz t"
    "with_machine (threads_mgr_continue_cores busy) s = Inr t \<Longrightarrow> smp_ok n sz t"
    "with_machine (on_core i (\<lambda>c. Inr (step_release c))) s = Inr t \<Longrightarrow> smp_ok n sz t" for i busy t
    using cores.halt_ok [OF ok] by (auto simp: with_machine_def result_simps intro!: keep dest: manager_ok [OF ok])
  show "smp_act a s = Inr s' \<Longrightarrow> smp_ok n sz s'"
    using core_turn_ok(2) [OF _ assms] n assms
    by (cases a) (auto simp: served_def begin_step_def release_step_def end_step_def result_simps
        split: if_splits dest: mgr write_ok [OF assms])
qed

lemma run_ok:
  assumes "smp_ok n sz s"
  shows "smp_run acts s \<noteq> Inl stvec_bug \<and> (\<forall>s'. smp_run acts s = Inr s' \<longrightarrow> smp_ok n sz s')"
  using assms
proof (induction acts arbitrary: s)
  case (Cons a acts)
  note act = act_ok [OF Cons.prems, of a]
  show ?case using act Cons.IH by (cases "smp_act a s") auto
qed simp

lemma init_core_ok:
  "threads_mgr_init ok n d i = Inr m \<Longrightarrow> \<forall>k<ctx_cores m. core_ok (ct_core (cthreads m ! k))"
  by (cases i) (auto simp: threads_mgr_init_def cthread_init_def init_rest_eq core_ok_init nth_Cons' stopped_core_def
      split: if_splits)

lemma boot_ok:
  assumes "main_setup bd env opts s = Inr (c, m, mgr, s')"
  shows "smp_ok (ctx_cores mgr) (mem_size m) (smp_boot mgr m)"
proof -
  obtain i1 where "threads_mgr_init True (unat (arg_cores c)) (arg_debug c) (Some i1) = Inr mgr"
    using main_setup_steps [OF assms] by metis
  from init_core_ok [OF this] show ?thesis by (simp add: smp_ok_def smp_boot_def cores.all_ok_def)
qed

text \<open>
  C4: from the cores and the memory that \<open>main\<close> sets up, under every schedule of the core threads and
  of the debugger's operations, whatever program is in the memory, no core ever fails the assertion of
  \<open>dispatch_trap\<close> on STVEC's mode, every core is in supervisor mode with a legal STVEC all the time, and
  neither the number of cores nor the size of the memory changes.
\<close>

theorem smp_safe:
  assumes "main_setup SUPERVISOR_BUILD env opts s = Inr (c, m, mgr, s')"
  shows "smp_run acts (smp_boot mgr m) \<noteq> Inl stvec_bug
    \<and> (\<forall>t. smp_run acts (smp_boot mgr m) = Inr t \<longrightarrow>
         ctx_cores (smp_machine t) = unat (arg_cores c) \<and> mem_size (smp_ram t) = mem_bytes_size c
         \<and> (\<forall>i<unat (arg_cores c). mode (ct_core (cthreads (smp_machine t) ! i)) = SUPERVISOR_MODE
              \<and> stvec_ok (regs (ct_core (cthreads (smp_machine t) ! i)) STVEC)))"
  using run_ok [OF boot_ok [OF assms], of acts] setup_cores(1) [OF assms] setup_small(3) [OF assms]
  by (auto simp: smp_ok_def cores.all_ok_def core_ok_def)

lemma smp_safe_witness:
  "\<exists>c m mgr. main_setup SUPERVISOR_BUILD tiny_boot (two_opts True) () = Inr (c, m, mgr, ()) \<and> arg_cores c = 2
     \<and> (\<forall>acts. smp_run acts (smp_boot mgr m) \<noteq> Inl stvec_bug)"
proof -
  obtain c m mgr where st: "main_setup SUPERVISOR_BUILD tiny_boot (two_opts True) () = Inr (c, m, mgr, ())"
    "arg_cores c = 2" using two_cores_setup [of True] by blast
  show ?thesis using st smp_safe [OF st(1)] by blast
qed

section \<open>A turn of the loop\<close>

text \<open>
  An instruction and the poll behind it, with no other thread in between, are one turn of \<open>vcore_run\<close>: the
  interference there is none but that the core's entry in the array is the core itself.
\<close>

lemma smp_hart_put:
  assumes "me (world h) = i" "i < ctx_cores (world h)"
  shows "smp_hart i (count_one i (smp_put i h p s)) = h\<lparr>world := flush h\<rparr>"
  using assms by (simp add: smp_hart_def smp_put_def flush_def set_core_def)

lemma smp_put_put: "smp_put i g q (count_one i (smp_put i h p s)) = count_one i (smp_put i g q s)"
  by (simp add: smp_put_def count_one_def)

lemma core_turns_iter:
  assumes "cores.all_ok n (smp_machine s)" "i < n" "smp_pcs s ! i = Exec b" "length (smp_pcs s) = n"
  shows "smp_run [Core i, Core i] s =
    and_then (vcore_iter supervisor (\<lambda>h. h\<lparr>world := flush h\<rparr>) (smp_hart i s)) (\<lambda>(stop, h).
      Inr (count_one i (smp_put i h (if stop then Returned b else Exec b) s)))"
proof -
  let ?h = "set_reg ZERO 0 (smp_hart i s)"
  have n: "ctx_cores (smp_machine s) = n" using assms(1) by (simp add: cores.all_ok_def)
  have h: "cores.hart_ok n i ?h" using cores.smp_hart_ok [OF assms(2,1)] by (rule cores.inv.P_set_reg) simp
  have last: "smp_run [Core i] = smp_act (Core i)" by (intro ext) (simp del: smp_act.simps)
  have run: "smp_run [Core i, Core i] s = and_then (exec_turn i b s) (smp_act (Core i))"
    using smp_run.simps(2) [of "Core i" "[Core i]" s] assms(2,3) n unfolding last by (simp add: core_turn_def)
  have second: "smp_act (Core i) (count_one i (smp_put i h' (Poll b) s)) =
      (if atomic_exit_loop (core h') then Inr (count_one i (smp_put i (h'\<lparr>world := flush h'\<rparr>) (Returned b) s))
       else and_then (check_interrupts (h'\<lparr>world := flush h'\<rparr>)) (\<lambda>h. Inr (count_one i (smp_put i h (Exec b) s))))"
    if ex: "vcore_exec supervisor ?h ins = Inr h'" for ins h'
  proof -
    have h': "cores.hart_ok n i h'" by (rule cores.inv.exec_invariant [OF h ex])
    then have w: "me (world h') = i" "i < ctx_cores (world h')" "ctx_cores (flush h') = n"
      by (auto simp: cores.hart_ok_def cores.all_ok_def flush_def thread_simps)
    have "smp_pcs (smp_put i h' (Poll b) s) ! i = Poll b" "ctx_cores (smp_machine (smp_put i h' (Poll b) s)) = n"
      using assms(2,4) w(3) by (simp_all add: smp_put_def)
    then have "smp_act (Core i) (count_one i (smp_put i h' (Poll b) s)) = poll_turn i b (count_one i (smp_put i h' (Poll b) s))"
      using assms(2) by (simp add: core_turn_def)
    then show ?thesis by (simp add: poll_turn_def Let_def smp_hart_put [OF w(1,2)] smp_put_put)
  qed
  show ?thesis
  proof (cases "mem_rw (ram ?h) (reg ?h PC)")
    case (Inr ins)
    then show ?thesis
      unfolding run exec_turn_def vcore_iter_def Let_def
      by (cases "vcore_exec supervisor ?h ins") (auto simp: second simp del: smp_act.simps)
  qed (simp only: run, simp add: exec_turn_def vcore_iter_def Let_def)
qed

section \<open>Without the debugger\<close>

interpretation alone: core_property n "\<lambda>i c. 0 < i \<longrightarrow> ct_state c = STATE_HALTED \<and> ct_signal c = HALT_S" r for n r
  by unfold_locales
    (auto simp: cthread_signal_hsm_def hsm_leave_def hsm_next_def Let_def cthread_signal_halt_def
      split: if_splits cthread_signal.splits)

definition alone_ok :: "nat \<Rightarrow> smp \<Rightarrow> bool" where
  "alone_ok n s \<longleftrightarrow> alone.all_ok n (smp_machine s) \<and> length (smp_pcs s) = n
     \<and> (\<forall>i<n. 0 < i \<longrightarrow> smp_pcs s ! i = At_Lock \<or> smp_pcs s ! i = Waiting HALT_S)
     \<and> (\<forall>e. smp_pcs s ! 0 \<noteq> Dead e)
     \<and> (\<forall>b. smp_pcs s ! 0 = Returned b \<longrightarrow> b \<or> exit_flag (cthreads (smp_machine s) ! 0))"

lemma fsm_parked:
  "ct_state c = STATE_HALTED \<Longrightarrow> ct_signal c = HALT_S \<Longrightarrow> p = At_Lock \<or> p = Waiting HALT_S \<Longrightarrow>
     thread_step id (c, p) = (c, Waiting HALT_S)"
  by (auto simp: thread_step_def cthread_fsm_def cthread_wait_on_sign_def wait_ack_def)

lemma fsm_alone:
  assumes "thread_step id (c, p) = (c', p')" "\<And>b. p = Returned b \<Longrightarrow> b \<or> exit_flag c" "\<And>e. p \<noteq> Dead e" "\<And>b. p \<noteq> Poll b"
  shows "p' \<noteq> Dead e" "p' \<noteq> Returned b"
  using assms by (auto simp: thread_step_def cthread_fsm_def cthread_wait_on_sign_def fsm_after_wait_def fsm_after_run_def
      split: thread_pc.splits cthread_signal.splits if_splits)

lemma core_turn_alone:
  assumes "i < n" "alone_ok n s"
  shows "core_turn i s \<noteq> Inl (Assert_Failed r)" and "core_turn i s = Inr s' \<Longrightarrow> alone_ok n s'"
proof -
  let ?c = "cthreads (smp_machine s) ! i" and ?p = "smp_pcs s ! i"
  obtain c p where st: "thread_step id (?c, ?p) = (c, p)" by (cases "thread_step id (?c, ?p)")
  have ok: "alone.all_ok n (smp_machine s)" using assms(2) by (simp add: alone_ok_def)
  have p: "0 < i \<Longrightarrow> c = ?c \<and> p = Waiting HALT_S"
    using fsm_parked [of ?c ?p] st assms by (auto simp: alone_ok_def alone.all_ok_def)
  have quiet: "(\<forall>e. p \<noteq> Dead e) \<and> (\<forall>b. p \<noteq> Returned b)" if "\<And>b. ?p \<noteq> Poll b"
    using fsm_alone [OF st] that assms p by (cases "i = 0") (auto simp: alone_ok_def)
  have fsm: "fsm_turn i s = Inr (s\<lparr>smp_machine := (smp_machine s)\<lparr>cthreads := (cthreads (smp_machine s))[i := c]\<rparr>,
      smp_pcs := (smp_pcs s)[i := p]\<rparr>)" if "\<And>b. ?p \<noteq> Poll b"
    using quiet [OF that] st by (cases p) (simp_all add: fsm_turn_def)
  have fsm_ok: "alone_ok n (s\<lparr>smp_machine := (smp_machine s)\<lparr>cthreads := (cthreads (smp_machine s))[i := c]\<rparr>,
      smp_pcs := (smp_pcs s)[i := p]\<rparr>)" if "\<And>b. ?p \<noteq> Poll b"
  proof (cases "i = 0")
    case True
    then show ?thesis
      using quiet [OF that] assms fsm_core_ok(1) [OF st]
      by (simp add: alone_ok_def alone.all_ok_def nth_list_update)
  next
    case False
    then have "c = ?c" "p = Waiting HALT_S" using p by simp_all
    then show ?thesis using assms False by (simp add: alone_ok_def alone.all_ok_def nth_list_update)
  qed
  show "core_turn i s \<noteq> Inl (Assert_Failed r)"
    using alone.exec_turn_ok(1) [OF assms(1) ok] alone.poll_turn_ok(1) [OF assms(1) ok] fsm
    by (cases ?p) (simp_all add: core_turn_def)
  assume run: "core_turn i s = Inr s'"
  show "alone_ok n s'"
  proof (cases ?p)
    case (Exec b)
    then have "i = 0" "exec_turn i b s = Inr s'" using run assms by (auto simp: core_turn_def alone_ok_def)
    with alone.exec_turn_ok(2) [OF assms(1) ok this(2)] show ?thesis using assms by (simp add: alone_ok_def)
  next
    case (Poll b)
    then have "i = 0" "poll_turn i b s = Inr s'" using run assms by (auto simp: core_turn_def alone_ok_def)
    with alone.poll_turn_ok(2) [OF assms(1) ok this(2)] show ?thesis using assms by (auto simp: alone_ok_def)
  qed (use run fsm fsm_ok in \<open>auto simp: core_turn_def\<close>)
qed

lemma run_alone:
  assumes "alone_ok n s"
  shows "smp_run (map Core is) s \<noteq> Inl (Assert_Failed r) \<and> (\<forall>s'. smp_run (map Core is) s = Inr s' \<longrightarrow> alone_ok n s')"
  using assms
proof (induction "is" arbitrary: s)
  case (Cons i "is")
  have n: "ctx_cores (smp_machine s) = n" using Cons.prems by (simp add: alone_ok_def alone.all_ok_def)
  show ?case
  proof (cases "i < n")
    case True
    with core_turn_alone [OF True Cons.prems] Cons.IH n show ?thesis by (cases "core_turn i s") auto
  next
    case False
    then show ?thesis using Cons n by simp
  qed
qed simp

lemma boot_alone:
  assumes "main_c SUPERVISOR_BUILD plat env opts s busy ret evs st0 = Inr (Cores_Run mgr m)"
  shows "alone_ok (ctx_cores mgr) (smp_boot mgr m)"
proof -
  obtain c mgr0 s' where st: "main_setup SUPERVISOR_BUILD env opts s = Inr (c, m, mgr0, s')" and nd: "\<not> arg_debug c"
    and run: "main_start mgr0 = Inr mgr"
    using assms by (auto simp: main_c_def result_simps case_prod_beta split: if_splits)
  note cores = setup_cores [OF st]
  have nodebug: "\<not> ctx_debug mgr0" using nd cores(2) by simp
  note eff = main_start_effect [OF run nodebug cores(3-5)]
  have old: "core_ok (ct_core (cthreads mgr0 ! i))" if "i < ctx_cores mgr" for i
    using boot_ok [OF st] that eff(1) by (simp add: smp_ok_def cores.all_ok_def smp_boot_def)
  have "core_ok (ct_core (cthreads mgr ! i))" if "i < ctx_cores mgr" for i
  proof -
    have "on_core 0 cthread_signal_continue mgr0 = Inr mgr" using run nodebug by (simp add: main_start_def)
    from cores_on_core [OF this _ continue_core_ok, of "ctx_cores mgr"] show ?thesis
      using old that eff(1) by (simp add: cores.all_ok_def)
  qed
  moreover have "ct_state (cthreads mgr ! i) = STATE_HALTED \<and> ct_signal (cthreads mgr ! i) = HALT_S"
    if "0 < i" "i < ctx_cores mgr" for i
    using that cores(6) [of i] eff(1,4) by (simp add: parked_def hsm_init_def)
  ultimately show ?thesis using cores(3) eff(1) by (auto simp: alone_ok_def alone.all_ok_def smp_boot_def)
qed

text \<open>
  C7: without the debugger no assertion of the emulator fails, whatever the guest does and however the
  core threads are scheduled, and every core but core 0 stays HALTED and asleep for good.
\<close>

theorem alone_never_asserts:
  assumes "main_c SUPERVISOR_BUILD plat env opts s busy ret evs st0 = Inr (Cores_Run mgr m)"
  shows "smp_run (map Core is) (smp_boot mgr m) \<noteq> Inl (Assert_Failed r)
    \<and> (\<forall>t. smp_run (map Core is) (smp_boot mgr m) = Inr t \<longrightarrow>
         (\<forall>i. 0 < i \<and> i < ctx_cores mgr \<longrightarrow> ct_state (cthreads (smp_machine t) ! i) = STATE_HALTED
            \<and> (smp_pcs t ! i = At_Lock \<or> smp_pcs t ! i = Waiting HALT_S)))"
  using run_alone [OF boot_alone [OF assms]] by (auto simp: alone_ok_def alone.all_ok_def)

lemma alone_never_asserts_witness:
  "\<exists>mgr m. main_c SUPERVISOR_BUILD supervisor tiny_boot (two_opts False) () False STUB_OK [] (sample 256 []) = Inr (Cores_Run mgr m)
     \<and> (\<forall>is r. smp_run (map Core is) (smp_boot mgr m) \<noteq> Inl (Assert_Failed r))"
proof -
  obtain c m mgr0 where st: "main_setup SUPERVISOR_BUILD tiny_boot (two_opts False) () = Inr (c, m, mgr0, ())"
    "\<not> arg_debug c" using two_cores_setup [of False] by blast
  note cores = setup_cores [OF st(1)]
  have "\<exists>mgr. main_start mgr0 = Inr mgr"
    using cores(2-5) st(2) by (simp add: main_start_def on_core_def continue_halted)
  then obtain mgr where run: "main_c SUPERVISOR_BUILD supervisor tiny_boot (two_opts False) () False STUB_OK [] (sample 256 [])
      = Inr (Cores_Run mgr m)"
    using st by (auto simp: main_c_def)
  show ?thesis using alone_never_asserts [OF run] run by blast
qed

end
