(* ===== verification/Smp_Hsm.thy ===== *)
theory Smp_Hsm
  imports Smp
begin

text \<open>
  What theory \<open>Hsm\<close> proves of one core's thread holds for every core of the machine of theory \<open>Smp\<close>:
  each action of the machine is, seen from a core, a sequence of steps of that system and of changes of
  the core's registers. The one thing a guest must not do is to start a hart that is not at rest.
\<close>

unbundle bit_operations_syntax

section \<open>The view of a core\<close>

definition core_view :: "nat \<Rightarrow> smp \<Rightarrow> hsm" where
  "core_view i s = \<lparr>cth = cthreads (smp_machine s) ! i, tpc = smp_pcs s ! i,
     dbg = (if smp_target s = i then smp_phase s else D_Idle), executed = smp_executed s ! i,
     step_base = smp_base s ! i\<rparr>"

inductive hsm_move :: "hsm \<Rightarrow> hsm \<Rightarrow> bool" where
  step: "hsm_step at_rest v v' \<Longrightarrow> hsm_move v v'"
| registers: "atomic_exit_loop k = exit_flag (cth v) \<Longrightarrow> hsm_move v (v\<lparr>cth := (cth v)\<lparr>ct_core := k\<rparr>\<rparr>)"

lemma hsm_move_inv: "hsm_move v v' \<Longrightarrow> hsm_inv v \<Longrightarrow> hsm_inv v'"
proof (induction rule: hsm_move.induct)
  case (registers k v)
  then show ?case by (auto simp: hsm_inv_def step_ok_def thread_simps)
qed (rule hsm_step_keeps_inv)

lemma hsm_moves_inv: "hsm_move\<^sup>*\<^sup>* v v' \<Longrightarrow> hsm_inv v \<Longrightarrow> hsm_inv v'"
  by (induction rule: rtranclp_induct) (auto intro: hsm_move_inv)

text \<open>What other threads, and an instruction of its own, do to a core.\<close>

inductive touch :: "Cthread \<Rightarrow> Cthread \<Rightarrow> bool" where
  request: "run_signal g \<Longrightarrow> cthread_signal_hsm g c = Inr c' \<Longrightarrow> touch c c'"
| halt: "touch c (cthread_signal_halt c)"
| init: "at_rest c \<Longrightarrow> touch c (c\<lparr>ct_core := vcore_init (Some i)\<rparr>)"
| registers: "atomic_exit_loop k = exit_flag c \<Longrightarrow> touch c (c\<lparr>ct_core := k\<rparr>)"

lemma touch_move: "touch c c' \<Longrightarrow> cth v = c \<Longrightarrow> hsm_move v (v\<lparr>cth := c'\<rparr>)"
proof (induction rule: touch.induct)
  case (request g c c')
  then show ?case using hsm_step.request [of g v c'] by (auto intro: hsm_move.step)
next
  case (halt c)
  then show ?case using hsm_step.halt [of at_rest v] by (auto intro: hsm_move.step)
next
  case (init c i)
  then show ?case using hsm_step.init [of at_rest v i] by (auto intro: hsm_move.step)
next
  case (registers k c)
  then show ?case using hsm_move.registers [of k v] by auto
qed

lemma touches_move: "touch\<^sup>*\<^sup>* c c' \<Longrightarrow> cth v = c \<Longrightarrow> hsm_move\<^sup>*\<^sup>* v (v\<lparr>cth := c'\<rparr>)"
proof (induction rule: rtranclp_induct)
  case base
  then have "v\<lparr>cth := c\<rparr> = v" by simp
  then show ?case by simp
next
  case (step c' c'')
  have "hsm_move (v\<lparr>cth := c'\<rparr>) ((v\<lparr>cth := c'\<rparr>)\<lparr>cth := c''\<rparr>)" by (rule touch_move [OF step(2)]) simp
  then show ?case using step by (auto intro: rtranclp.rtrancl_into_rtrancl)
qed

section \<open>Environment calls\<close>

definition touched :: "machine \<Rightarrow> machine \<Rightarrow> bool" where
  "touched m m' \<longleftrightarrow> ctx_cores m' = ctx_cores m \<and> me m' = me m \<and> ctx_debug m' = ctx_debug m
     \<and> (\<forall>j<ctx_cores m. touch\<^sup>*\<^sup>* (cthreads m ! j) (cthreads m' ! j))"

lemma touched_refl [simp]: "touched m m"
  by (simp add: touched_def)

lemma touched_trans: "touched m m' \<Longrightarrow> touched m' m'' \<Longrightarrow> touched m m''"
  unfolding touched_def by (metis rtranclp_trans)

lemma touched_set_core:
  assumes "atomic_exit_loop k = exit_flag (cthreads m ! i)"
  shows "touched m (set_core i k m)"
  using touch.registers [OF assms]
  by (cases "i < ctx_cores m") (auto simp: touched_def thread_simps, simp add: set_core_def list_update_beyond)

lemma touched_init:
  assumes "i < ctx_cores m" "at_rest (cthreads m ! i)"
  shows "touched m (set_core i (vcore_init (Some k)) m)"
  using touch.init [OF assms(2), of k] assms(1) by (auto simp: touched_def thread_simps)

lemma touched_set_areg: "touched m (set_areg i v m)"
proof (cases "me m < ctx_cores m")
  case True
  have "set_areg i v m = set_core (me m) ((ct_core (cthreads m ! me m))
     \<lparr>regs := (regs (ct_core (cthreads m ! me m)))(i := v)\<rparr>) m"
    by (simp add: set_areg_def set_core_def)
  then show ?thesis using touched_set_core by (simp add: exit_flag_def)
qed (simp add: set_areg_def list_update_beyond)

lemma touched_signal:
  assumes "on_core i (cthread_signal_hsm g) m = Inr m'" "run_signal g"
  shows "touched m m'"
proof -
  note oc = on_core_simps [OF assms(1)]
  obtain c where "i < ctx_cores m" "cthread_signal_hsm g (cthreads m ! i) = Inr c" "cthreads m' ! i = c"
    using oc(4) by blast
  then have "touch\<^sup>*\<^sup>* (cthreads m ! j) (cthreads m' ! j)" for j
    using oc(5) [of j] touch.request [OF assms(2)] by (cases "j = i") auto
  then show ?thesis using oc(1-3) by (simp add: touched_def)
qed

text \<open>
  A hart start that is going to be accepted names a core at rest. (The other \<open>vcore_init\<close> of
  \<open>hsm_ext\<close>, of a non-retentive suspend, always names hart 0x80000000.)
\<close>

definition start_at_rest :: "machine \<Rightarrow> bool" where
  "start_at_rest m \<longleftrightarrow>
     areg m A7 = HSM_EID \<and> areg m A6 = 0 \<and> unat (areg m A0) < ctx_cores m
       \<and> sbi_may_start (cthreads m ! unat (areg m A0)) \<longrightarrow> at_rest (cthreads m ! unat (areg m A0))"

lemma start_touched:
  assumes "hsm_start mem_sz m = Inr m'" "start_at_rest m" "areg m A7 = HSM_EID" "areg m A6 = 0"
  shows "touched m m'"
proof -
  let ?t = "unat (areg m A0)" and ?k = "vcore_init (Some (hart_init (areg m A1) (areg m A0) (areg m A2)))"
  consider v where "m' = set_areg A0 v m"
    | m1 where "?t < ctx_cores m" "sbi_may_start (cthreads m ! ?t)"
        "on_core ?t (cthread_signal_hsm START_S) (set_core ?t ?k m) = Inr m1" "m' = set_areg A0 (sbi_num SBI_SUCCESS) m1"
    using assms(1) unfolding hsm_start_def Let_def hsm_signals
    by (auto simp: result_simps sbi_may_start_def split: if_splits)
  then show ?thesis
  proof cases
    case 2
    then have "touched m (set_core ?t ?k m)" using assms(2-4) by (auto simp: start_at_rest_def intro: touched_init)
    also have "touched (set_core ?t ?k m) m1" by (rule touched_signal [OF 2(3)]) simp
    finally (touched_trans) show ?thesis using touched_set_areg 2(4) touched_trans by blast
  qed (simp add: touched_set_areg)
qed

lemma suspend_touched:
  assumes "hsm_suspend mem_sz m = Inr m'" "ctx_cores m \<le> 2 ^ 31"
  shows "touched m m'"
  using assms unfolding hsm_suspend_def Let_def hsm_signals
  by (auto simp: result_simps touched_set_areg split: if_splits
      intro: touched_trans [OF touched_signal [of _ SUSPEND_S] touched_set_areg])

lemma sbi_touched:
  assumes "emu_sbi_call mem_sz m = Inr m'" "start_at_rest m" "ctx_cores m \<le> 2 ^ 31"
  shows "touched m m'"
proof -
  have "hsm_stop m = Inr m' \<Longrightarrow> touched m m'" "hsm_status m = Inr m' \<Longrightarrow> touched m m'"
    unfolding hsm_stop_def hsm_status_def Let_def hsm_signals
    by (auto simp: result_simps intro: touched_set_areg touched_trans [OF touched_set_areg touched_set_areg]
        touched_trans [OF touched_signal [of _ STOP_S] touched_set_areg] split: if_splits)
  moreover have "touched m (base_ext m)"
    by (auto simp: base_ext_def Let_def intro: touched_set_areg touched_trans [OF touched_set_areg touched_set_areg])
  ultimately show ?thesis
    using assms start_touched suspend_touched
    by (auto simp: emu_sbi_call_def hsm_ext_def Let_def intro: touched_set_areg split: if_splits)
qed

section \<open>Instructions\<close>

text \<open>An instruction other than SYSTEM does nothing to the rest of the process, nor to the exit flag.\<close>

definition calm :: "machine platform" where
  "calm = supervisor\<lparr>plat_sys := (\<lambda>h ins. Inr h), plat_irq := Inr\<rparr>"

lemma dispatch_flag: "dispatch_trap h code v = Inr h' \<Longrightarrow> atomic_exit_loop (core h') = atomic_exit_loop (core h)"
  by (auto simp: dispatch_trap_eq hart_simps split: if_splits)

interpretation calm: platform_invariant calm "\<lambda>h. world h = w \<and> atomic_exit_loop (core h) = b" "Crash ''none''" for w b
  by unfold_locales
    (auto simp: calm_def hart_simps out_of_vmem_def dispatch_trap_eq stvec_bug_def
      split: if_splits dest: dispatch_world dispatch_flag)

lemma exec_calm:
  assumes "vcore_exec supervisor h ins = Inr h'" "OPCODE_TYPE ins \<noteq> SYS_TYPE"
  shows "world h' = world h" "atomic_exit_loop (core h') = atomic_exit_loop (core h)"
proof -
  have "vcore_exec calm h ins = vcore_exec supervisor h ins"
    using assms(2) by (simp add: vcore_exec_def calm_def Let_def)
  then have "vcore_exec calm h ins = Inr h'" using assms(1) by simp
  from calm.exec_invariant [OF _ this, of "world h" "atomic_exit_loop (core h)"]
  show "world h' = world h" "atomic_exit_loop (core h') = atomic_exit_loop (core h)" by simp_all
qed

lemma access_flag: "csr_access h ins csr = Inr h' \<Longrightarrow> atomic_exit_loop (core h') = atomic_exit_loop (core h)"
  by (auto simp: csr_access_def csr_swap_def Let_def result_simps hart_simps
      split: if_splits option.splits dest!: dispatch_flag)

text \<open>The hart's core and its entry in the array, brought together by \<open>flush\<close>.\<close>

definition in_step :: "sv_hart \<Rightarrow> bool" where
  "in_step h \<longleftrightarrow> atomic_exit_loop (core h) = exit_flag (cthreads (world h) ! me (world h))"

lemma touched_flush:
  "world h' = world h \<Longrightarrow> atomic_exit_loop (core h') = atomic_exit_loop (core h) \<Longrightarrow> in_step h \<Longrightarrow>
     touched (world h) (flush h')"
  unfolding flush_def by (simp add: in_step_def touched_set_core)

lemma flush_core: "me (world h) < ctx_cores (world h) \<Longrightarrow> cthreads (flush h) ! me (world h) = (cthreads (world h) ! me (world h))\<lparr>ct_core := core h\<rparr>"
  by (simp add: flush_def thread_simps)

lemma flush_me [simp]: "me (flush h) = me (world h)" "ctx_cores (flush h) = ctx_cores (world h)" "ctx_debug (flush h) = ctx_debug (world h)"
  by (simp_all add: flush_def thread_simps)

lemma flush_reload:
  assumes "me m < ctx_cores m"
  shows "flush (reload h m) = m" "touched m (flush (add_pc v (reload h m)))"
proof -
  show "flush (reload h m) = m" using assms by (simp add: flush_def reload_def set_core_def)
  have "flush (add_pc v (reload h m)) = set_core (me m) (core (add_pc v (reload h m))) m"
    by (simp add: flush_def hart_simps reload_def)
  moreover have "atomic_exit_loop (core (add_pc v (reload h m))) = exit_flag (cthreads m ! me m)"
    by (simp add: hart_simps reload_def exit_flag_def)
  ultimately show "touched m (flush (add_pc v (reload h m)))" by (simp add: touched_set_core)
qed

lemma touched_halt: "touched m (threads_mgr_halt_cores m)"
  using touch.halt by (auto simp: touched_def threads_mgr_halt_cores_def)

lemma split3:
  "(if a then if b then x else y else z) = r \<Longrightarrow> (x = r \<Longrightarrow> P) \<Longrightarrow> (y = r \<Longrightarrow> P) \<Longrightarrow> (z = r \<Longrightarrow> P) \<Longrightarrow> P"
  by (simp split: if_splits)

lemma env_touched:
  assumes "sv_env h ins = Inr h'" "sv_ok h" "in_step h" "ctx_cores (world h) \<le> 2 ^ 31"
    and "I_IMM ins = ECALL \<Longrightarrow> start_at_rest (flush h)"
  shows "touched (world h) (flush h')"
proof -
  have i: "me (world h) < ctx_cores (world h)" and sup: "mode (core h) = SUPERVISOR_MODE"
    using assms(2) by (auto simp: sv_ok_def core_ok_def)
  have start: "touched (world h) (flush h)" using assms(3) by (simp add: touched_flush)
  have trap: "touched (world h) (flush g)" if "dispatch_trap h code v = Inr g" for g code v
    using touched_flush [OF dispatch_world [OF that] dispatch_flag [OF that] assms(3)] .
  show ?thesis
  proof (cases "I_IMM ins = ECALL")
    case True
    obtain m where call: "emu_sbi_call (mem_size (ram h)) (flush h) = Inr m" and h': "h' = add_pc 4 (reload h m)"
      using assms(1) unfolding sv_env_def Let_def if_P [OF True] if_P [OF sup] and_then_eq_Inr by blast
    have m: "touched (flush h) m" using sbi_touched [OF call] assms(4,5) True by simp
    then have "me m < ctx_cores m" using i by (simp add: touched_def)
    from flush_reload(2) [OF this, of 4 h] show ?thesis
      using touched_trans [OF touched_trans [OF start m]] h' by simp
  next
    case False
    have "Inr (reload h (threads_mgr_halt_cores (flush h))) = Inr h' \<or> (\<exists>code v. dispatch_trap h code v = Inr h')"
      using assms(1) unfolding sv_env_def Let_def if_not_P [OF False] by (elim split3) blast+
    then consider "h' = reload h (threads_mgr_halt_cores (flush h))" | code v where "dispatch_trap h code v = Inr h'"
      unfolding sum.inject by blast
    then show ?thesis
    proof cases
      case 1
      have "me (threads_mgr_halt_cores (flush h)) < ctx_cores (threads_mgr_halt_cores (flush h))"
        using i by (simp add: threads_mgr_halt_cores_def)
      from flush_reload(1) [OF this, of h] show ?thesis
        using touched_trans [OF start touched_halt] 1 by simp
    qed (rule trap)
  qed
qed

lemma sys_touched:
  assumes "vcore_sys_type h ins = Inr h'" "sv_ok h" "in_step h" "ctx_cores (world h) \<le> 2 ^ 31"
    and "FUNC ins = 0 \<Longrightarrow> I_IMM ins = ECALL \<Longrightarrow> start_at_rest (flush h)"
  shows "touched (world h) (flush h')"
proof (cases "FUNC ins = 0")
  case True
  then show ?thesis using env_touched [OF _ assms(2-4)] assms(1,5) by (simp add: vcore_sys_type_def)
next
  case False
  then consider code v where "dispatch_trap h code v = Inr h'" | csr where "csr_access h ins csr = Inr h'"
    using assms(1) by (auto simp: vcore_sys_type_def Let_def split: if_splits option.splits)
  then show ?thesis
    using touched_flush [OF _ _ assms(3)] dispatch_world dispatch_flag access_world access_flag by cases blast+
qed

lemma exec_touched:
  assumes "vcore_exec supervisor h ins = Inr h'" "sv_ok h" "in_step h" "ctx_cores (world h) \<le> 2 ^ 31"
    and "OPCODE_TYPE ins = SYS_TYPE \<Longrightarrow> FUNC ins = 0 \<Longrightarrow> I_IMM ins = ECALL \<Longrightarrow> start_at_rest (flush h)"
  shows "touched (world h) (flush h')"
proof (cases "OPCODE_TYPE ins = SYS_TYPE")
  case True
  then show ?thesis using sys_touched [OF _ assms(2-4)] assms(1,5) by (simp add: exec_dispatch)
next
  case False
  show ?thesis by (rule touched_flush [OF exec_calm [OF assms(1) False] assms(3)])
qed

section \<open>Steps of a core\<close>

text \<open>
  The condition on the guest at an \<open>ECALL\<close> that core \<open>i\<close> is about to execute, and along a run.
\<close>

definition orderly_turn :: "nat \<Rightarrow> smp \<Rightarrow> bool" where
  "orderly_turn i s =
    (let h = set_reg ZERO 0 (smp_hart i s)
     in is_exec (smp_pcs s ! i) \<longrightarrow>
        (case mem_rw (ram h) (reg h PC) of
           Inl e \<Rightarrow> True
         | Inr ins \<Rightarrow> OPCODE_TYPE ins = SYS_TYPE \<and> FUNC ins = 0 \<and> I_IMM ins = ECALL \<longrightarrow> start_at_rest (flush h)))"

fun orderly_action :: "smp_action \<Rightarrow> smp \<Rightarrow> bool" where
  "orderly_action (Core i) s = (i < ctx_cores (smp_machine s) \<longrightarrow> orderly_turn i s)"
| "orderly_action a s = True"

fun orderly :: "smp_action list \<Rightarrow> smp \<Rightarrow> bool" where
  "orderly [] s = True"
| "orderly (a # acts) s = (orderly_action a s \<and> (case smp_act a s of Inl e \<Rightarrow> True | Inr s' \<Rightarrow> orderly acts s'))"

definition smp_wf :: "nat \<Rightarrow> nat \<Rightarrow> smp \<Rightarrow> bool" where
  "smp_wf n sz s \<longleftrightarrow> smp_ok n sz s \<and> length (smp_executed s) = n \<and> length (smp_base s) = n \<and> n \<le> 2 ^ 31"

lemma smp_wf_simps:
  assumes "smp_wf n sz s"
  shows "cores.all_ok n (smp_machine s)" "ctx_cores (smp_machine s) = n" "length (smp_pcs s) = n" "length (smp_executed s) = n"
    "length (smp_base s) = n" "n \<le> 2 ^ 31"
  using assms by (auto simp: smp_wf_def smp_ok_def cores.all_ok_def)

definition bumped :: "thread_pc \<Rightarrow> nat \<Rightarrow> smp \<Rightarrow> nat \<Rightarrow> smp \<Rightarrow> bool" where
  "bumped p i s e s' \<longleftrightarrow> smp_pcs s' = (smp_pcs s)[i := p] \<and> smp_executed s' = (smp_executed s)[i := smp_executed s ! i + e]
     \<and> smp_phase s' = smp_phase s \<and> smp_target s' = smp_target s \<and> smp_base s' = smp_base s"

lemma turn_moves:
  assumes "smp_wf n sz s" "i < n" "j < n"
    and step: "thread_step id (cthreads (smp_machine s) ! i, smp_pcs s ! i) = (c, p)"
    and e: "e = (if is_exec (smp_pcs s ! i) then 1 else 0)" and b: "bumped p i s e s'"
    and t: "\<And>j. j < n \<Longrightarrow> touch\<^sup>*\<^sup>* (if j = i then c else cthreads (smp_machine s) ! j) (cthreads (smp_machine s') ! j)"
  shows "hsm_move\<^sup>*\<^sup>* (core_view j s) (core_view j s')"
proof -
  note wf = smp_wf_simps [OF assms(1)]
  let ?v = "if j = i then (core_view j s)\<lparr>cth := c, tpc := p, executed := executed (core_view j s) + e\<rparr> else core_view j s"
  have "core_view j s' = ?v\<lparr>cth := cthreads (smp_machine s') ! j\<rparr>"
    using b wf assms(2,3) by (auto simp: core_view_def bumped_def)
  moreover have "hsm_move\<^sup>*\<^sup>* ?v (?v\<lparr>cth := cthreads (smp_machine s') ! j\<rparr>)"
    by (rule touches_move [OF t [OF assms(3)]]) (simp add: core_view_def)
  moreover have "hsm_move\<^sup>*\<^sup>* (core_view j s) ?v"
  proof (cases "j = i")
    case True
    have "hsm_step at_rest (core_view i s) ?v"
      using hsm_step.thread [of id "core_view i s" c p at_rest] step True by (simp add: core_view_def e)
    then show ?thesis unfolding True by (intro r_into_rtranclp hsm_move.step)
  qed simp
  ultimately show ?thesis by simp
qed

lemma smp_hart_in_step: "in_step (smp_hart i s)"
  by (simp add: in_step_def smp_hart_def exit_flag_def)

lemma exec_turn_moves:
  assumes "smp_wf n sz s" "i < n" "j < n" "smp_pcs s ! i = Exec b" "exec_turn i b s = Inr s'" "orderly_turn i s"
  shows "hsm_move\<^sup>*\<^sup>* (core_view j s) (core_view j s')" "smp_wf n sz s'" "ctx_debug (smp_machine s') = ctx_debug (smp_machine s)"
proof -
  note wf = smp_wf_simps [OF assms(1)]
  let ?h = "set_reg ZERO 0 (smp_hart i s)"
  obtain ins h' where f: "mem_rw (ram ?h) (reg ?h PC) = Inr ins" and ex: "vcore_exec supervisor ?h ins = Inr h'"
    and s': "s' = count_one i (smp_put i h' (Poll b) s)"
    using assms(5) by (auto simp: exec_turn_def Let_def result_simps)
  have ok: "cores.hart_ok n i ?h" using cores.smp_hart_ok [OF assms(2) wf(1)] by (rule cores.inv.P_set_reg) simp
  have w: "world ?h = (smp_machine s)\<lparr>me := i\<rparr>" by (simp add: hart_simps) (simp add: smp_hart_def)
  have "in_step ?h" using smp_hart_in_step [of i s] by (simp add: in_step_def hart_simps)
  moreover have "OPCODE_TYPE ins = SYS_TYPE \<Longrightarrow> FUNC ins = 0 \<Longrightarrow> I_IMM ins = ECALL \<Longrightarrow> start_at_rest (flush ?h)"
    using assms(4,6) f by (simp add: orderly_turn_def Let_def)
  ultimately have t: "touched ((smp_machine s)\<lparr>me := i\<rparr>) (flush h')"
    using exec_touched [OF ex] ok wf w by (simp add: cores.hart_ok_sv)
  show "hsm_move\<^sup>*\<^sup>* (core_view j s) (core_view j s')"
  proof (rule turn_moves [OF assms(1-3)])
    show "thread_step id (cthreads (smp_machine s) ! i, smp_pcs s ! i) = (cthreads (smp_machine s) ! i, Poll b)"
      using assms(4) by (simp add: thread_step_def)
    show "bumped (Poll b) i s (if is_exec (smp_pcs s ! i) then 1 else 0) s'"
      using assms(4) by (simp add: bumped_def s' count_one_def smp_put_def)
  qed (use t wf in \<open>auto simp: s' count_one_def smp_put_def touched_def\<close>)
  show "smp_wf n sz s'"
    using cores.exec_turn_ok(2) [OF assms(2) wf(1) assms(5)] assms(1,2)
    by (auto simp: smp_wf_def smp_ok_def nth_list_update s' count_one_def smp_put_def)
  show "ctx_debug (smp_machine s') = ctx_debug (smp_machine s)"
    using t by (simp add: touched_def s' smp_put_def)
qed

lemma poll_turn_moves:
  assumes "smp_wf n sz s" "i < n" "j < n" "smp_pcs s ! i = Poll b" "poll_turn i b s = Inr s'"
  shows "hsm_move\<^sup>*\<^sup>* (core_view j s) (core_view j s')" "smp_wf n sz s'" "ctx_debug (smp_machine s') = ctx_debug (smp_machine s)"
proof -
  note wf = smp_wf_simps [OF assms(1)]
  let ?h = "smp_hart i s" and ?p = "if exit_flag (cthreads (smp_machine s) ! i) then Returned b else Exec b"
  obtain h' where s': "s' = smp_put i h' ?p s" and h': "h' = ?h \<or> check_interrupts ?h = Inr h'"
    using assms(5) by (auto simp: poll_turn_def Let_def result_simps smp_hart_def exit_flag_def split: if_splits)
  have w: "world ?h = (smp_machine s)\<lparr>me := i\<rparr>" by (simp add: smp_hart_def)
  have "world h' = world ?h \<and> atomic_exit_loop (core h') = atomic_exit_loop (core ?h)"
    using h' check_interrupts_keeps [of ?h h'] by auto
  then have t: "touched ((smp_machine s)\<lparr>me := i\<rparr>) (flush h')"
    using touched_flush [OF _ _ smp_hart_in_step, of h' i s] w by simp
  show "hsm_move\<^sup>*\<^sup>* (core_view j s) (core_view j s')"
  proof (rule turn_moves [OF assms(1-3)])
    show "thread_step id (cthreads (smp_machine s) ! i, smp_pcs s ! i) = (cthreads (smp_machine s) ! i, ?p)"
      using assms(4) by (simp add: thread_step_def)
    show "bumped ?p i s (if is_exec (smp_pcs s ! i) then 1 else 0) s'"
      using assms(4) by (simp add: bumped_def s' smp_put_def)
  qed (use t wf in \<open>auto simp: s' smp_put_def touched_def\<close>)
  show "smp_wf n sz s'"
    using cores.poll_turn_ok(2) [OF assms(2) wf(1) assms(5)] assms(1,2)
    by (auto simp: smp_wf_def smp_ok_def nth_list_update s' smp_put_def)
  show "ctx_debug (smp_machine s') = ctx_debug (smp_machine s)"
    using t by (simp add: touched_def s' smp_put_def)
qed

lemma fsm_turn_moves:
  assumes "smp_wf n sz s" "i < n" "j < n" "\<not> is_exec (smp_pcs s ! i)" "fsm_turn i s = Inr s'"
  shows "hsm_move\<^sup>*\<^sup>* (core_view j s) (core_view j s')" "smp_wf n sz s'" "ctx_debug (smp_machine s') = ctx_debug (smp_machine s)"
proof -
  note wf = smp_wf_simps [OF assms(1)]
  obtain c p where st: "thread_step id (cthreads (smp_machine s) ! i, smp_pcs s ! i) = (c, p)"
    by (cases "thread_step id (cthreads (smp_machine s) ! i, smp_pcs s ! i)")
  then have s': "s' = s\<lparr>smp_machine := (smp_machine s)\<lparr>cthreads := (cthreads (smp_machine s))[i := c]\<rparr>,
      smp_pcs := (smp_pcs s)[i := p]\<rparr>"
    using assms(5) by (cases p) (simp_all add: fsm_turn_def)
  show "hsm_move\<^sup>*\<^sup>* (core_view j s) (core_view j s')"
  proof (rule turn_moves [OF assms(1-3) st refl])
    show "bumped p i s (if is_exec (smp_pcs s ! i) then 1 else 0) s'"
      using assms(4) by (simp add: bumped_def s')
  qed (use wf assms(2) in \<open>auto simp: s'\<close>)
  have "smp_ok n sz s" using assms(1) by (simp add: smp_wf_def)
  from fsm_turn_ok(2) [OF assms(2) this assms(5)] show "smp_wf n sz s'"
    using assms(1) by (simp add: smp_wf_def) (simp add: s')
  show "ctx_debug (smp_machine s') = ctx_debug (smp_machine s)" by (simp add: s')
qed

lemma core_turn_moves:
  assumes "smp_wf n sz s" "i < n" "j < n" "core_turn i s = Inr s'" "orderly_turn i s"
  shows "hsm_move\<^sup>*\<^sup>* (core_view j s) (core_view j s')" "smp_wf n sz s'" "ctx_debug (smp_machine s') = ctx_debug (smp_machine s)"
proof -
  consider b where "smp_pcs s ! i = Exec b" "exec_turn i b s = Inr s'" | b where "smp_pcs s ! i = Poll b" "poll_turn i b s = Inr s'"
    | "\<not> is_exec (smp_pcs s ! i)" "fsm_turn i s = Inr s'"
    using assms(4) by (cases "smp_pcs s ! i") (auto simp: core_turn_def)
  then have "hsm_move\<^sup>*\<^sup>* (core_view j s) (core_view j s') \<and> smp_wf n sz s' \<and> ctx_debug (smp_machine s') = ctx_debug (smp_machine s)"
    using exec_turn_moves [OF assms(1-3)] poll_turn_moves [OF assms(1-3)] fsm_turn_moves [OF assms(1-3)] assms(5)
    by cases blast+
  then show "hsm_move\<^sup>*\<^sup>* (core_view j s) (core_view j s')" "smp_wf n sz s'" "ctx_debug (smp_machine s') = ctx_debug (smp_machine s)"
    by blast+
qed

section \<open>Steps of the debugger\<close>

text \<open>Only the cores of the machine change, each by a move of its own.\<close>

lemma on_core_moves:
  assumes "with_machine (on_core i f) s = Inr s'" "j < ctx_cores (smp_machine s)"
    and "\<And>c. i < ctx_cores (smp_machine s) \<Longrightarrow> f (cthreads (smp_machine s) ! i) = Inr c \<Longrightarrow>
      hsm_move (core_view i s) ((core_view i s)\<lparr>cth := c\<rparr>)"
  shows "hsm_move\<^sup>*\<^sup>* (core_view j s) (core_view j s')"
proof -
  obtain c where c: "i < ctx_cores (smp_machine s)" "f (cthreads (smp_machine s) ! i) = Inr c"
    and s': "s' = s\<lparr>smp_machine := (smp_machine s)\<lparr>cthreads := (cthreads (smp_machine s))[i := c]\<rparr>\<rparr>"
    using assms(1) by (auto simp: with_machine_def on_core_def result_simps split: if_splits)
  show ?thesis
  proof (cases "j = i")
    case True
    then have "core_view j s' = (core_view i s)\<lparr>cth := c\<rparr>" using c(1) by (simp add: core_view_def s')
    then show ?thesis using assms(3) [OF c] True by simp
  next
    case False
    then have "core_view j s' = core_view j s" by (simp add: core_view_def s')
    then show ?thesis by simp
  qed
qed

lemma halt_moves:
  assumes "j < ctx_cores (smp_machine s)"
  shows "hsm_move\<^sup>*\<^sup>* (core_view j s) (core_view j (s\<lparr>smp_machine := threads_mgr_halt_cores (smp_machine s)\<rparr>))"
proof -
  have "core_view j (s\<lparr>smp_machine := threads_mgr_halt_cores (smp_machine s)\<rparr>)
      = (core_view j s)\<lparr>cth := cthread_signal_halt (cth (core_view j s))\<rparr>"
    using assms by (simp add: core_view_def threads_mgr_halt_cores_def)
  then show ?thesis using hsm_step.halt [of at_rest "core_view j s"] by (auto intro: hsm_move.step)
qed

lemma continue_list_nth: "continue_list cs = Inr cs' \<Longrightarrow> j < length cs \<Longrightarrow> cthread_signal_continue (cs ! j) = Inr (cs' ! j)"
  by (induction cs arbitrary: cs' j) (auto simp: result_simps nth_Cons' less_Suc_eq_0_disj)

lemma continue_moves:
  assumes "smp_phase s = D_Idle" "j < ctx_cores (smp_machine s)"
  shows "with_machine (threads_mgr_continue_core i) s = Inr s' \<Longrightarrow> hsm_move\<^sup>*\<^sup>* (core_view j s) (core_view j s')"
    and "with_machine (threads_mgr_continue_cores busy) s = Inr s' \<Longrightarrow> hsm_move\<^sup>*\<^sup>* (core_view j s) (core_view j s')"
proof -
  have move: "hsm_move (core_view k s) ((core_view k s)\<lparr>cth := c\<rparr>)"
    if "ct_state (cthreads (smp_machine s) ! k) = STATE_HALTED" "cthread_signal_continue (cthreads (smp_machine s) ! k) = Inr c"
    for k c using hsm_step.continue [of "core_view k s" c at_rest] that assms(1) by (simp add: core_view_def hsm_move.step)
  show "hsm_move\<^sup>*\<^sup>* (core_view j s) (core_view j s')" if run: "with_machine (threads_mgr_continue_core i) s = Inr s'"
  proof -
    have "with_machine (on_core i cthread_signal_continue) s = Inr s'" "ct_state (cthreads (smp_machine s) ! i) = STATE_HALTED"
      using run by (auto simp: with_machine_def threads_mgr_continue_core_def cthread_get_state_def result_simps split: if_splits)
    then show ?thesis using on_core_moves [OF _ assms(2)] move by blast
  qed
  show "hsm_move\<^sup>*\<^sup>* (core_view j s) (core_view j s')" if run: "with_machine (threads_mgr_continue_cores busy) s = Inr s'"
  proof -
    consider "s' = s" | cs where "all_halted (cthreads (smp_machine s))" "continue_list (cthreads (smp_machine s)) = Inr cs"
        "s' = s\<lparr>smp_machine := (smp_machine s)\<lparr>cthreads := cs\<rparr>\<rparr>"
    proof (cases busy)
      case True
      then show thesis using run that(1) by (simp add: with_machine_def threads_mgr_continue_cores_def)
    next
      case False
      have "all_halted (cthreads (smp_machine s))"
        using run False by (cases "all_halted (cthreads (smp_machine s))") (simp_all add: with_machine_def threads_mgr_continue_cores_def)
      then show thesis
        using run False that(2) by (cases "continue_list (cthreads (smp_machine s))")
          (simp_all add: with_machine_def threads_mgr_continue_cores_def)
    qed
    then show ?thesis
    proof cases
      case (2 cs)
      then have "core_view j s' = (core_view j s)\<lparr>cth := cs ! j\<rparr>" by (simp add: core_view_def)
      moreover have "hsm_move (core_view j s) ((core_view j s)\<lparr>cth := cs ! j\<rparr>)"
        using move [OF _ continue_list_nth [OF 2(2) assms(2)]] 2(1) assms(2) by (simp add: all_halted_iff)
      ultimately show ?thesis by simp
    qed simp
  qed
qed

lemma begin_moves:
  assumes "smp_phase s = D_Idle" "j < ctx_cores (smp_machine s)" "begin_step i s = Inr s'"
    and "length (smp_base s) = ctx_cores (smp_machine s)"
  shows "hsm_move\<^sup>*\<^sup>* (core_view j s) (core_view j s')"
proof -
  obtain c where c: "i < ctx_cores (smp_machine s)" "ct_state (cthreads (smp_machine s) ! i) = STATE_HALTED"
      "step_request (cthreads (smp_machine s) ! i) = Inr c"
    and s': "s' = s\<lparr>smp_machine := (smp_machine s)\<lparr>cthreads := (cthreads (smp_machine s))[i := c]\<rparr>,
      smp_phase := D_Starting, smp_target := i, smp_base := (smp_base s)[i := smp_executed s ! i]\<rparr>"
    using assms(3) by (auto simp: begin_step_def with_machine_def threads_mgr_step_core_def cthread_get_state_def
        on_core_def result_simps split: if_splits)
  show ?thesis
  proof (cases "j = i")
    case True
    have "hsm_step at_rest (core_view i s) (core_view i s')"
      using hsm_step.step_begin [of "core_view i s" c at_rest] c assms(1,4) by (simp add: core_view_def s')
    then show ?thesis unfolding True by (intro r_into_rtranclp hsm_move.step)
  next
    case False
    then have "core_view j s' = core_view j s" using assms(1) by (simp add: core_view_def s')
    then show ?thesis by simp
  qed
qed

lemma release_moves:
  assumes "j < ctx_cores (smp_machine s)" "release_step s = Inr s'"
  shows "hsm_move\<^sup>*\<^sup>* (core_view j s) (core_view j s')"
proof -
  let ?i = "smp_target s" and ?c = "cthreads (smp_machine s) ! smp_target s"
  consider "s' = s" | "smp_phase s = D_Starting" "step_started ?c" "?i < ctx_cores (smp_machine s)"
      "s' = s\<lparr>smp_machine := (smp_machine s)\<lparr>cthreads := (cthreads (smp_machine s))[?i := step_release ?c]\<rparr>,
        smp_phase := D_Finishing\<rparr>"
  proof (cases "smp_phase s = D_Starting \<and> step_started ?c")
    case True
    then show thesis
      using assms(2) that(2) by (cases "?i < ctx_cores (smp_machine s)") (simp_all add: release_step_def with_machine_def on_core_def)
  next
    case False
    then have "s' = s" using assms(2) unfolding release_step_def if_not_P [OF False] by simp
    then show thesis by (rule that(1))
  qed
  then show ?thesis
  proof cases
    case 2
    show ?thesis
    proof (cases "j = ?i")
      case True
      have "hsm_step at_rest (core_view ?i s) (core_view ?i s')"
        using hsm_step.step_mid [of "core_view ?i s" at_rest] 2 by (simp add: core_view_def)
      then show ?thesis unfolding True by (intro r_into_rtranclp hsm_move.step)
    next
      case False
      then have "core_view j s' = core_view j s" using 2(4) by (simp add: core_view_def)
      then show ?thesis by simp
    qed
  qed simp
qed

lemma end_moves:
  assumes "end_step s = Inr s'"
  shows "hsm_move\<^sup>*\<^sup>* (core_view j s) (core_view j s')"
proof (cases "j = smp_target s \<and> s' \<noteq> s")
  case True
  then have "hsm_step at_rest (core_view j s) (core_view j s')"
    using assms hsm_step.step_end [of "core_view j s" at_rest] by (auto simp: end_step_def core_view_def split: if_splits)
  then show ?thesis by (intro r_into_rtranclp hsm_move.step)
next
  case False
  then have "core_view j s' = core_view j s" using assms by (auto simp: end_step_def core_view_def split: if_splits)
  then show ?thesis by simp
qed

lemma write_moves:
  shows "with_debuggee (write_reg v i k) s = Inr s' \<Longrightarrow> j < ctx_cores (smp_machine s) \<Longrightarrow> hsm_move\<^sup>*\<^sup>* (core_view j s) (core_view j s')"
    and "with_debuggee (write_mem bs ad) s = Inr s' \<Longrightarrow> hsm_move\<^sup>*\<^sup>* (core_view j s) (core_view j s')"
proof -
  show "hsm_move\<^sup>*\<^sup>* (core_view j s) (core_view j s')"
    if wr: "with_debuggee (write_reg v i k) s = Inr s'" and j: "j < ctx_cores (smp_machine s)"
  proof -
    obtain i' K where s': "s' = s\<lparr>smp_machine := set_core i' K (smp_machine s)\<rparr>" and i': "i' < ctx_cores (smp_machine s)"
      and K: "atomic_exit_loop K = exit_flag (cthreads (smp_machine s) ! i')"
      using wr by (auto simp: with_debuggee_def write_reg_def result_simps Let_def core_of_def exit_flag_def split: if_splits)
    show ?thesis
    proof (cases "j = i'")
      case True
      then have "core_view j s' = (core_view j s)\<lparr>cth := (cth (core_view j s))\<lparr>ct_core := K\<rparr>\<rparr>"
        using i' by (simp add: core_view_def s' thread_simps)
      then show ?thesis using hsm_move.registers [of K "core_view j s"] K True by (simp add: core_view_def)
    next
      case False
      then have "core_view j s' = core_view j s" using i' by (simp add: core_view_def s' thread_simps)
      then show ?thesis by simp
    qed
  qed
  show "hsm_move\<^sup>*\<^sup>* (core_view j s) (core_view j s')" if wr: "with_debuggee (write_mem bs ad) s = Inr s'"
  proof -
    have "core_view j s' = core_view j s"
    proof (cases "mem_wb_ptr_s (smp_ram s) (ucast ad) bs")
      case (Inr m)
      then have "s\<lparr>smp_machine := smp_machine s, smp_ram := m\<rparr> = s'" using wr by (simp add: with_debuggee_def write_mem_def)
      then show ?thesis by (rule subst) (simp add: core_view_def)
    qed (use wr in \<open>simp add: with_debuggee_def write_mem_def\<close>)
    then show ?thesis by simp
  qed
qed

lemma debugger_keeps:
  assumes "smp_act a s = Inr s'" "\<forall>i. a \<noteq> Core i"
  shows "length (smp_executed s') = length (smp_executed s)" "length (smp_base s') = length (smp_base s)"
    "ctx_debug (smp_machine s') = ctx_debug (smp_machine s)"
proof -
  have mgr: "threads_mgr_continue_core i m = Inr m' \<Longrightarrow> ctx_debug m' = ctx_debug m"
    "threads_mgr_step_core i m = Inr m' \<Longrightarrow> ctx_debug m' = ctx_debug m"
    "threads_mgr_continue_cores b m = Inr m' \<Longrightarrow> ctx_debug m' = ctx_debug m"
    "on_core i f m = Inr m' \<Longrightarrow> ctx_debug m' = ctx_debug m" for i b f m m'
    by (auto simp: threads_mgr_continue_core_def threads_mgr_step_core_def threads_mgr_continue_cores_def
        on_core_def result_simps split: if_splits)
  have "length (smp_executed s') = length (smp_executed s) \<and> length (smp_base s') = length (smp_base s)
      \<and> ctx_debug (smp_machine s') = ctx_debug (smp_machine s)"
    using assms
    by (cases a) (auto simp: served_def with_machine_def with_debuggee_def begin_step_def release_step_def end_step_def
        write_reg_def write_mem_def threads_mgr_halt_cores_def set_core_def result_simps Let_def split: if_splits dest: mgr)
  then show "length (smp_executed s') = length (smp_executed s)" "length (smp_base s') = length (smp_base s)"
    "ctx_debug (smp_machine s') = ctx_debug (smp_machine s)" by blast+
qed

lemma act_moves:
  assumes "smp_wf n sz s" "smp_act a s = Inr s'" "orderly_action a s"
  shows "smp_wf n sz s'" "ctx_debug (smp_machine s') = ctx_debug (smp_machine s)"
    "j < n \<Longrightarrow> hsm_move\<^sup>*\<^sup>* (core_view j s) (core_view j s')"
proof -
  note wf = smp_wf_simps [OF assms(1)]
  have "smp_ok n sz s" using assms(1) by (simp add: smp_wf_def)
  from act_ok(2) [OF this assms(2)] have ok: "smp_ok n sz s'" .
  have core: "smp_wf n sz s' \<and> ctx_debug (smp_machine s') = ctx_debug (smp_machine s)" if a: "a = Core i" for i
  proof (cases "i < n")
    case True
    then show ?thesis
      using core_turn_moves(2,3) [OF assms(1) True True] assms(2,3) wf(2) a by simp
  qed (use assms wf(2) a in simp)
  show "smp_wf n sz s'" "ctx_debug (smp_machine s') = ctx_debug (smp_machine s)"
    using core debugger_keeps [OF assms(2)] ok assms(1) by (cases "\<exists>i. a = Core i"; auto simp: smp_wf_def)+
  assume j: "j < n"
  then have j': "j < ctx_cores (smp_machine s)" using wf(2) by simp
  show "hsm_move\<^sup>*\<^sup>* (core_view j s) (core_view j s')"
  proof (cases a)
    case (Core i)
    then show ?thesis
      using core_turn_moves(1) [OF assms(1) _ j] assms(2,3) wf(2) by (cases "i < n") simp_all
  next
    case Halt_All
    then show ?thesis using assms(2) halt_moves [OF j'] by (auto simp: served_def with_machine_def split: if_splits)
  next
    case (Continue_One i)
    then show ?thesis using assms(2) continue_moves(1) [OF _ j'] by (auto simp: served_def split: if_splits)
  next
    case (Continue_All busy)
    then show ?thesis using assms(2) continue_moves(2) [OF _ j'] by (auto simp: served_def split: if_splits)
  next
    case (Step_Begin i)
    then show ?thesis using assms(2) begin_moves [OF _ j'] wf by (auto simp: served_def split: if_splits)
  next
    case Step_Release
    then show ?thesis using assms(2) release_moves [OF j'] by simp
  next
    case Step_End
    then show ?thesis using assms(2) end_moves by simp
  next
    case (Write_Reg v i k)
    then show ?thesis using assms(2) write_moves(1) [OF _ j'] by (auto simp: served_def split: if_splits)
  next
    case (Write_Mem bs ad)
    then show ?thesis using assms(2) write_moves(2) by (auto simp: served_def split: if_splits)
  qed
qed

lemma run_moves:
  assumes "smp_wf n sz s" "smp_run acts s = Inr t" "orderly acts s"
  shows "smp_wf n sz t \<and> (\<forall>j<n. hsm_move\<^sup>*\<^sup>* (core_view j s) (core_view j t))"
  using assms
proof (induction acts arbitrary: s)
  case (Cons a acts)
  then obtain s' where s': "smp_act a s = Inr s'" "smp_run acts s' = Inr t" by (auto simp: result_simps)
  then have ord: "orderly_action a s" "orderly acts s'" using Cons.prems(3) by simp_all
  note act = act_moves [OF Cons.prems(1) s'(1) ord(1)]
  from Cons.IH [OF act(1) s'(2) ord(2)] act(3) show ?case by (blast intro: rtranclp_trans)
qed simp

section \<open>The machine of the program\<close>

text \<open>Every core is at first as \<open>cthread_init\<close> leaves it.\<close>

lemma boot_views:
  assumes "main_setup bd env opts s = Inr (c, m, mgr, s')"
  shows "smp_wf (ctx_cores mgr) (mem_size m) (smp_boot mgr m)"
    and "\<And>i. i < ctx_cores mgr \<Longrightarrow> core_view i (smp_boot mgr m) = hsm_init (cthreads mgr ! i)"
    and "\<And>i. i < ctx_cores mgr \<Longrightarrow> \<exists>q k. cthread_init q k = Inr (cthreads mgr ! i)"
proof -
  obtain i1 where init: "threads_mgr_init True (unat (arg_cores c)) (arg_debug c) (Some i1) = Inr mgr"
    using main_setup_steps [OF assms] by metis
  have "ctx_cores mgr \<le> 2 ^ 31" using setup_small(1) [OF assms] setup_cores(1) [OF assms] by simp
  then show "smp_wf (ctx_cores mgr) (mem_size m) (smp_boot mgr m)"
    using boot_ok [OF assms] by (simp add: smp_wf_def) (simp add: smp_boot_def)
  fix i assume i: "i < ctx_cores mgr"
  then show "core_view i (smp_boot mgr m) = hsm_init (cthreads mgr ! i)"
    by (simp add: core_view_def smp_boot_def hsm_init_def)
  have "cthread_init STATE_STOPPED (Some (zero_init\<lparr>init_id := of_nat i\<rparr>)) = Inr (stopped_core i)" for i
    by (simp add: cthread_init_def stopped_core_def)
  moreover obtain c0 where "cthread_init STATE_STARTED (Some i1) = Inr c0"
      "cthreads mgr = c0 # map stopped_core [1..<unat (arg_cores c)]"
    using init by (auto simp: threads_mgr_init_def init_rest_eq result_simps split: if_splits)
  ultimately show "\<exists>q k. cthread_init q k = Inr (cthreads mgr ! i)"
    using i by (cases i) auto
qed


lemma run_inv:
  assumes "smp_wf n sz s" "\<forall>j<n. hsm_inv (core_view j s)" "smp_run acts s = Inr t" "orderly acts s"
  shows "\<forall>j<n. hsm_inv (core_view j t)"
  using run_moves [OF assms(1,3,4)] assms(2) hsm_moves_inv by blast

text \<open>With the invariant of the cores no action of the machine fails an assertion.\<close>

lemma fsm_no_assert:
  assumes "hsm_inv (core_view i s)"
  shows "fsm_turn i s \<noteq> Inl e"
proof -
  obtain c p where st: "thread_step id (cthreads (smp_machine s) ! i, smp_pcs s ! i) = (c, p)"
    by (cases "thread_step id (cthreads (smp_machine s) ! i, smp_pcs s ! i)")
  from thread_keeps_inv [OF assms, of id c p] st
  have "state_ok (ct_state c) (ct_signal c) (exit_flag c) p" by (simp add: core_view_def hsm_inv_def)
  then have "p \<noteq> Dead e" for e by (cases "ct_state c") auto
  then show ?thesis using st by (cases p) (simp_all add: fsm_turn_def)
qed

lemma core_turn_no_assert:
  assumes "smp_wf n sz s" "i < n" "hsm_inv (core_view i s)"
  shows "core_turn i s \<noteq> Inl (Assert_Failed r)"
  using cores.exec_turn_ok(1) [OF assms(2) smp_wf_simps(1) [OF assms(1)]]
    cores.poll_turn_ok(1) [OF assms(2) smp_wf_simps(1) [OF assms(1)]] fsm_no_assert [OF assms(3)]
  by (cases "smp_pcs s ! i") (simp_all add: core_turn_def)

lemma manager_no_assert:
  assumes "ctx_debug m" "\<forall>c\<in>set (cthreads m). run_signal (ct_old_signal c)"
  shows "threads_mgr_continue_core i m \<noteq> Inl (Assert_Failed r)" "threads_mgr_step_core i m \<noteq> Inl (Assert_Failed r)"
    "threads_mgr_continue_cores busy m \<noteq> Inl (Assert_Failed r)"
  using assms by (auto simp: threads_mgr_continue_core_def threads_mgr_step_core_def threads_mgr_continue_cores_def
      on_core_def out_of_cores_def cthread_get_state_def continue_halted continue_list_halted all_halted_iff step_request_def)

lemma write_no_assert:
  "with_debuggee (write_reg v i k) s \<noteq> Inl (Assert_Failed r)" "with_debuggee (write_mem bs ad) s \<noteq> Inl (Assert_Failed r)"
  by (auto simp: with_debuggee_def write_reg_def write_mem_def result_simps mem_wb_ptr_s_def out_of_vmem_def
      out_of_cores_def out_of_regs_def Let_def split: if_splits)

lemma act_no_assert:
  assumes "smp_wf n sz s" "\<forall>j<n. hsm_inv (core_view j s)" "ctx_debug (smp_machine s)"
  shows "smp_act a s \<noteq> Inl (Assert_Failed r)"
proof -
  note n = smp_wf_simps(2) [OF assms(1)]
  have "\<forall>c\<in>set (cthreads (smp_machine s)). run_signal (ct_old_signal c)"
    using assms(2) n by (auto simp: hsm_inv_def core_view_def in_set_conv_nth)
  note mgr = manager_no_assert [OF assms(3) this, of _ r]
  show ?thesis
    using core_turn_no_assert [OF assms(1)] assms(2) n mgr write_no_assert
    by (cases a) (auto simp: served_def with_machine_def begin_step_def release_step_def end_step_def on_core_def
        out_of_cores_def result_simps)
qed

lemma run_no_assert:
  assumes "smp_wf n sz s" "\<forall>j<n. hsm_inv (core_view j s)" "ctx_debug (smp_machine s)" "orderly acts s"
  shows "smp_run acts s \<noteq> Inl (Assert_Failed r)"
  using assms
proof (induction acts arbitrary: s)
  case (Cons a acts)
  note no = act_no_assert [OF Cons.prems(1-3), of a r]
  show ?case
  proof (cases "smp_act a s")
    case (Inr s')
    then have ord: "orderly_action a s" "orderly acts s'" using Cons.prems(4) by simp_all
    note act = act_moves [OF Cons.prems(1) Inr ord(1)]
    have "\<forall>j<n. hsm_inv (core_view j s')" using act(3) Cons.prems(2) hsm_moves_inv by blast
    then show ?thesis using Cons.IH [OF act(1) _ _ ord(2)] act(2) Cons.prems(3) Inr by simp
  qed (use no in simp)
qed simp


section \<open>A run\<close>

text \<open>The first half of a single step of core 0: the request, its acknowledgement and the release.\<close>

abbreviation step_acts :: "smp_action list" where
  "step_acts \<equiv> [Step_Begin 0, Core 0, Step_Release]"

lemma step_acts_run:
  assumes "main_setup bd env opts s = Inr (c, m, mgr, s')" "arg_debug c"
  shows "orderly step_acts (smp_boot mgr m)"
    and "\<exists>t. smp_run step_acts (smp_boot mgr m) = Inr t \<and> smp_phase t = D_Finishing \<and> smp_target t = 0
      \<and> smp_pcs t ! 0 = Waiting STEP_S"
proof -
  note cores = setup_cores [OF assms(1)]
  obtain c1 where c1: "step_request (cthreads mgr ! 0) = Inr c1" using cores(4) by (simp add: step_request_def)
  then have ack: "thread_step id (c1, At_Lock) = (c1\<lparr>ct_state := STATE_STEPPING\<rparr>, Waiting STEP_S)"
    using cores(4) by (auto simp: step_request_def thread_step_def cthread_fsm_def cthread_wait_on_sign_def wait_ack_def
        set_exit_flag_def)
  obtain k cs where cs: "cthreads mgr = k # cs" using cores(3) by (cases "cthreads mgr") auto
  note run = smp_boot_def served_def begin_step_def release_step_def with_machine_def threads_mgr_step_core_def
    cthread_get_state_def on_core_def core_turn_def fsm_turn_def step_started_def
  have "ctx_debug mgr" "step_request k = Inr c1" "ct_state k = STATE_HALTED" using cores(2,4) assms(2) c1 cs by simp_all
  then show "orderly step_acts (smp_boot mgr m)"
    "\<exists>t. smp_run step_acts (smp_boot mgr m) = Inr t \<and> smp_phase t = D_Finishing \<and> smp_target t = 0
      \<and> smp_pcs t ! 0 = Waiting STEP_S"
    using cs ack by (simp_all add: run orderly_turn_def)
qed



end
