(* ===== verification/Smp_Atomics.thy ===== *)
theory Smp_Atomics
  imports Smp
begin

text \<open>
  Counting with AMOADD.W on several cores (demo/supervisor/atomics): no addition to a shared word is
  lost, whatever the schedule of the core threads.
\<close>

section \<open>What an instruction does to one word of the memory\<close>

definition adds_to :: "u32 \<Rightarrow> 'w hart \<Rightarrow> u32 \<Rightarrow> bool" where
  "adds_to X h ins \<longleftrightarrow> OPCODE_TYPE ins = A_TYPE \<and> A_FUNC ins = AADD \<and> reg h (unat (RS1 ins)) = X"

text \<open>Stores and atomics that touch none of the four bytes at \<open>X\<close>, and everything that is neither.\<close>

definition spares :: "u32 \<Rightarrow> 'w hart \<Rightarrow> u32 \<Rightarrow> bool" where
  "spares X h ins \<longleftrightarrow>
     (if OPCODE_TYPE ins = A_TYPE then A_FUNC ins = LR \<or> disjoint (reg h (unat (RS1 ins))) 4 X 4
      else if OPCODE_TYPE ins = S_TYPE then disjoint (reg h (unat (RS1 ins)) + S_IMM ins) 4 X 4
      else True)"

lemma disjoint_less: "disjoint a 4 X 4 \<Longrightarrow> k \<le> 4 \<Longrightarrow> disjoint a k X 4"
  by (auto simp: disjoint_def)

lemma fetch_op_word:
  assumes "fetch_op f m a v = Inr (old, m')"
  shows "disjoint a 4 X 4 \<Longrightarrow> mem_rw m' X = mem_rw m X" and "mem_rw m' a = Inr (f old v)" "mem_rw m a = Inr old"
  using assms word_cell.rd_wr_disjoint [of m a _ m' X] word_cell.rd_wr by (auto simp: fetch_op_def result_simps)

lemma mem_pick_word:
  "mem_pick keep m a v = Inr (old, m') \<Longrightarrow> disjoint a 4 X 4 \<Longrightarrow> mem_rw m' X = mem_rw m X"
  by (auto simp: mem_pick_alone result_simps word_cell.rd_wr_disjoint split: if_splits)

lemma s_type_spares:
  assumes "vcore_s_type (plat_trap supervisor) h ins = Inr h'" "disjoint (reg h (unat (RS1 ins)) + S_IMM ins) 4 X 4"
  shows "mem_rw (ram h') X = mem_rw (ram h) X"
  using assms(1) disjoint_less [OF assms(2)]
    word_cell.rd_wr_disjoint byte_word.cross_disjoint half_word.cross_disjoint
  unfolding vcore_s_type_def Let_def
  by (auto simp: hart_simps result_simps split: if_splits dest: dispatch_ram)

lemma a_type_spares:
  assumes "vcore_a_type (plat_trap supervisor) h ins = Inr h'"
    and "A_FUNC ins = LR \<or> disjoint (reg h (unat (RS1 ins))) 4 X 4"
  shows "mem_rw (ram h') X = mem_rw (ram h) X"
  using assms unfolding vcore_a_type_def Let_def sv_trap.amo_defs
  by (auto simp: hart_simps result_simps mem_cas_alone word_cell.rd_wr_disjoint fetch_op_word(1) mem_pick_word
      split: if_splits dest: dispatch_ram)

lemma exec_spares:
  assumes "vcore_exec supervisor h ins = Inr h'" "spares X h ins"
  shows "mem_rw (ram h') X = mem_rw (ram h) X"
proof -
  consider "OPCODE_TYPE ins = A_TYPE" | "OPCODE_TYPE ins = S_TYPE" | "OPCODE_TYPE ins = SYS_TYPE"
    | "OPCODE_TYPE ins \<notin> {A_TYPE, S_TYPE, SYS_TYPE}" by blast
  then show ?thesis
  proof cases
    case 1
    then show ?thesis using assms a_type_spares [of h ins h' X] by (simp add: exec_dispatch spares_def)
  next
    case 2
    then show ?thesis using assms s_type_spares [of h ins h' X] by (simp add: exec_dispatch spares_def)
  next
    case 3
    then show ?thesis using assms(1) sys_ram [of h ins h'] by (simp add: exec_dispatch)
  next
    case 4
    then show ?thesis using sv_trap.exec_ram [OF assms(1)] by simp
  qed
qed

lemma exec_adds:
  assumes "vcore_exec supervisor h ins = Inr h'" "adds_to X h ins" "mem_rw (ram h) X = Inr w"
  shows "mem_rw (ram h') X = Inr (w + reg h (unat (RS2 ins)))"
proof -
  have "vcore_a_type (plat_trap supervisor) h ins = Inr h'" using assms(1,2) by (simp add: exec_dispatch adds_to_def)
  then obtain old m where "fetch_op (\<lambda>old v. old + v) (ram h) X (reg h (unat (RS2 ins))) = Inr (old, m)" "ram h' = m"
    using assms(2) by (auto simp: vcore_a_type_def Let_def adds_to_def mem_aadd_def result_simps hart_simps)
  from fetch_op_word(2,3) [OF this(1)] this(2) assms(3) show ?thesis by simp
qed

section \<open>The sum of what a run adds\<close>

text \<open>
  What an action adds to the word at \<open>X\<close>; \<open>None\<close> when it may write the word in another way.
\<close>

definition amount :: "u32 \<Rightarrow> smp_action \<Rightarrow> smp \<Rightarrow> u32 option" where
  "amount X a s = (case a of
     Core i \<Rightarrow>
       (if i < ctx_cores (smp_machine s)
        then (case smp_pcs s ! i of
                Exec b \<Rightarrow>
                  (let h = set_reg ZERO 0 (smp_hart i s)
                   in case mem_rw (ram h) (reg h PC) of
                        Inl e \<Rightarrow> Some 0
                      | Inr ins \<Rightarrow> if adds_to X h ins then Some (reg h (unat (RS2 ins)))
                                  else if spares X h ins then Some 0 else None)
              | _ \<Rightarrow> Some 0)
        else Some 0)
   | Write_Mem input addr \<Rightarrow> if disjoint (ucast addr) (length input) X 4 then Some 0 else None
   | _ \<Rightarrow> Some 0)"

fun added :: "u32 \<Rightarrow> smp_action list \<Rightarrow> smp \<Rightarrow> u32 option" where
  "added X [] s = Some 0"
| "added X (a # acts) s = (case smp_act a s of
     Inl e \<Rightarrow> Some 0
   | Inr s' \<Rightarrow> (case (amount X a s, added X acts s') of (Some v, Some w) \<Rightarrow> Some (v + w) | _ \<Rightarrow> None))"

lemma smp_hart_ram: "ram (smp_hart i s) = smp_ram s" "smp_ram (smp_put i h p s) = ram h"
  by (simp_all add: smp_hart_def smp_put_def)

lemma core_amount:
  assumes "core_turn i s = Inr s'" "amount X (Core i) s = Some v" "i < ctx_cores (smp_machine s)"
    and "mem_rw (smp_ram s) X = Inr w"
  shows "mem_rw (smp_ram s') X = Inr (w + v)"
proof (cases "smp_pcs s ! i")
  case (Exec b)
  let ?h = "set_reg ZERO 0 (smp_hart i s)"
  obtain ins h' where f: "mem_rw (ram ?h) (reg ?h PC) = Inr ins" and ex: "vcore_exec supervisor ?h ins = Inr h'"
    and s': "s' = count_one i (smp_put i h' (Poll b) s)"
    using assms(1) Exec by (auto simp: core_turn_def exec_turn_def Let_def result_simps)
  have w: "mem_rw (ram ?h) X = Inr w" using assms(4) by (simp add: hart_simps smp_hart_ram)
  show ?thesis
  proof (cases "adds_to X ?h ins")
    case True
    then have "v = reg ?h (unat (RS2 ins))" using assms(2,3) Exec f by (simp add: amount_def Let_def)
    then show ?thesis using exec_adds [OF ex True w] by (simp add: s' smp_hart_ram)
  next
    case False
    then have "spares X ?h ins" "v = 0" using assms(2,3) Exec f by (auto simp: amount_def Let_def split: if_splits)
    then show ?thesis using exec_spares [OF ex] w by (simp add: s' smp_hart_ram)
  qed
next
  case (Poll b)
  then show ?thesis
    using assms check_interrupts_keeps(1) [of "smp_hart i s"]
    by (auto simp: core_turn_def poll_turn_def Let_def result_simps amount_def smp_hart_ram split: if_splits)
qed (use assms in \<open>auto simp: core_turn_def fsm_turn_def amount_def split: prod.splits thread_pc.splits\<close>)

lemma act_amount:
  assumes "smp_act a s = Inr s'" "amount X a s = Some v" "mem_rw (smp_ram s) X = Inr w"
  shows "mem_rw (smp_ram s') X = Inr (w + v)"
proof (cases a)
  case (Core i)
  then show ?thesis
    using assms core_amount [of i s s' X v w] by (cases "i < ctx_cores (smp_machine s)") (auto simp: amount_def)
next
  case (Write_Mem input addr)
  have frame: "mem_rw (store_bytes m (unat a) bs) X = mem_rw m X" if "disjoint a (length bs) X 4" for a m bs
    using that by (intro word_cell.rd_cong) (auto simp: store_bytes_size disjoint_def store_bytes_outside)
  show ?thesis
    using assms Write_Mem frame
    by (auto simp: amount_def served_def with_debuggee_def write_mem_def result_simps mem_simps split: if_splits)
qed (use assms in \<open>auto simp: amount_def served_def begin_step_def release_step_def end_step_def with_machine_def with_debuggee_def
    write_reg_def result_simps Let_def split: if_splits\<close>)

lemma run_added:
  "smp_run acts s = Inr s' \<Longrightarrow> added X acts s = Some v \<Longrightarrow> mem_rw (smp_ram s) X = Inr w \<Longrightarrow>
     mem_rw (smp_ram s') X = Inr (w + v)"
proof (induction acts arbitrary: s v w)
  case (Cons a acts)
  obtain s1 where s1: "smp_act a s = Inr s1" "smp_run acts s1 = Inr s'" using Cons.prems(1) by (auto simp: result_simps)
  obtain v1 v2 where v: "amount X a s = Some v1" "added X acts s1 = Some v2" "v = v1 + v2"
    using Cons.prems(2) s1 by (auto split: option.splits)
  have "mem_rw (smp_ram s1) X = Inr (w + v1)" by (rule act_amount [OF s1(1) v(1) Cons.prems(3)])
  from Cons.IH [OF s1(2) v(2) this] v(3) show ?case by (simp add: add.assoc)
qed simp

text \<open>
  C8: additions with AMOADD.W to one word from any number of cores are never lost: whatever the schedule,
  a run in which nobody writes the word in another way leaves the old word plus the sum of all the
  operands. This is what demo/supervisor/atomics counts on.
\<close>

theorem atomic_adds_not_lost:
  assumes "smp_run acts s = Inr s'" "added X acts s = Some v" "mem_rw (smp_ram s) X = Inr w"
  shows "mem_rw (smp_ram s') X = Inr (w + v)"
  using assms by (rule run_added)

text \<open>Two cores at the same AMOADD.W, one adding 1 and the other 2 to the word at address 8.\<close>

definition adder :: "u32 \<Rightarrow> Cthread" where
  "adder v = \<lparr>ct_state = STATE_STARTED, ct_signal = START_S, ct_old_signal = START_S,
     ct_core = zero_core\<lparr>regs := (\<lambda>_. 0)(5 := 8, 6 := v)\<rparr>\<rparr>"

definition two_adders :: smp where
  "two_adders = \<lparr>smp_machine = \<lparr>cthreads = [adder 1, adder 2], me = 0, ctx_debug = True\<rparr>,
     smp_pcs = [Exec False, Exec False],
     smp_ram = store_bytes \<lparr>mem_bytes = (\<lambda>_. 0), mem_size = 16\<rparr> 0 (bytes_of_word (enc_A 0 False False 6 5 7)),
     smp_phase = D_Idle, smp_target = 0, smp_executed = [0, 0], smp_base = [0, 0]\<rparr>"

lemma adders_run: "case smp_run [Core 0, Core 1] two_adders of Inl e \<Rightarrow> False | Inr s \<Rightarrow> True"
  by code_simp

lemma adders_add: "added 8 [Core 0, Core 1] two_adders = Some 3"
  by code_simp

lemma adders_word: "mem_rw (smp_ram two_adders) 8 = Inr 0"
  by code_simp

lemma atomic_adds_not_lost_witness:
  "\<exists>s. smp_run [Core 0, Core 1] two_adders = Inr s \<and> mem_rw (smp_ram s) 8 = Inr 3"
proof -
  obtain s where s: "smp_run [Core 0, Core 1] two_adders = Inr s"
    using adders_run by (auto split: sum.splits)
  from atomic_adds_not_lost [OF s adders_add adders_word] s show ?thesis by auto
qed

end
