(* ===== verification/User_Start.thy ===== *)
theory User_Start
  imports User_Props Start_Run
begin

text \<open>
  The USER build from \<open>main\<close> to the guest's instructions: core 0 runs the loaded program on the memory,
  the context and the host that \<open>main\<close> has set up, and nothing else in the process touches them.
\<close>

text \<open>The hart of core 0 when its thread enters \<open>vcore_run\<close>.\<close>

definition user_start :: "Args_Context \<Rightarrow> memory \<Rightarrow> machine \<Rightarrow> 'h \<Rightarrow> 'h user_hart" where
  "user_start c m mgr s = \<lparr>core = ct_core (cthreads mgr ! 0), ram = m,
     world = \<lparr>u_machine = mgr\<lparr>me := 0\<rparr>, u_host = s, u_sdl = sdl_start, u_brk_limit = brk_limit c,
       u_upscale = uint (sdl_upscale c)\<rparr>\<rparr>"

lemma setup_mode:
  assumes "main_setup bd env opts s = Inr (c, m, mgr, s')" "i < ctx_cores mgr"
  shows "mode (ct_core (cthreads mgr ! i)) = SUPERVISOR_MODE"
proof -
  obtain i1 where mgr: "threads_mgr_init True (unat (arg_cores c)) (arg_debug c) (Some i1) = Inr mgr"
    using main_setup_steps [OF assms(1)] by metis
  then have "cthreads mgr = \<lparr>ct_state = STATE_HALTED, ct_signal = HALT_S, ct_old_signal = START_S,
      ct_core = vcore_init (Some i1)\<rparr> # map stopped_core [1..<unat (arg_cores c)]"
    by (auto simp: threads_mgr_init_def cthread_init_def init_rest_eq split: if_splits)
  then show ?thesis
    using assms(2) by (auto simp: nth_Cons' vcore_init_def zero_core_def stopped_core_def)
qed

lemma user_start_ok:
  assumes "main_setup USER_BUILD env opts s = Inr (c, m, mgr0, s')" "\<not> arg_debug c" "main_start mgr0 = Inr mgr" "Q s'"
  shows "user_ok (brk_limit c) (elf_brk (ct_core (cthreads mgr0 ! 0))) Q (user_start c m mgr s')"
proof -
  note cores = setup_cores [OF assms(1)]
  have nodebug: "\<not> ctx_debug mgr0" using assms(2) cores(2) by simp
  note eff = main_start_effect [OF assms(3) nodebug cores(3-5)]
  have "cthread_signal_continue (cthreads mgr0 ! 0) = Inr (cthreads mgr ! 0)"
    using assms(3) nodebug cores(3) by (auto simp: main_start_def on_core_def result_simps)
  then have "cthreads mgr ! 0 = continued (cthreads mgr0 ! 0)"
    using cores(4,5) by (simp add: continue_halted)
  then have "mode (ct_core (cthreads mgr ! 0)) = mode (ct_core (cthreads mgr0 ! 0))
      \<and> elf_brk (ct_core (cthreads mgr ! 0)) = elf_brk (ct_core (cthreads mgr0 ! 0))"
    by (simp add: continued_def set_exit_flag_def)
  then show ?thesis
    using setup_mode [OF assms(1), of 0] cores(3) eff(1) assms(4) by (simp add: user_ok_def user_start_def)
qed


definition quiet_libs :: "unit libs" where
  "quiet_libs = \<lparr>l_host = quiet_host, l_sdl = l_sdl fd_libs, l_palette_ok = True\<rparr>"


end
