(* ===== verification/Spec2Isabelle.thy ===== *)
theory Spec2Isabelle
  imports Sv_Props Vm Sdl_Ring User_Props Start_Debug Atomic
    Hsm_Table Gdb_Socket Smp_Hsm Smp_Atomics User_Start
begin

text \<open>
  A model of Switch-V32, a RISC-V RV32IMA emulator in C, and the theorems that make its core correct, or
  show where it is not. The program has two builds from one interpreter: SUPERVISOR, a machine of up to
  four harts with traps, CSRs and a supervisor binary interface, and USER, one core whose system calls
  are answered by the emulator and an SDL device. Either can be debugged through the GDB stub under
  src/include/stubb_a_dub.

  \<^bold>\<open>How the parts interact.\<close> \<open>main\<close> reads the command line into the global context, maps the memory,
  copies the arguments (USER), loads the ELF file and initialises the core threads. A core thread is a
  state machine behind a mutex that runs \<open>vcore_run\<close> while its state is STARTED. \<open>vcore_run\<close> decodes and
  executes instructions on the core and the shared memory; SYSTEM instructions, unknown instructions and
  pending interrupts go to the build's \<open>vcore_sys_type\<close>, \<open>dispatch_trap\<close> and \<open>check_interrupts\<close>. In the
  SUPERVISOR build an ECALL reaches the SBI, which signals other core threads; in the USER build it
  reaches the system calls, which use the host and the SDL device. The stub reads packets from a socket
  and acts on the cores and the memory through the table of functions of src/src/debug.c.

  \<^bold>\<open>Conventions.\<close> A C function that may end the process or run into undefined behaviour returns
  \<open>stop + 'a\<close> (theory \<open>Prelude\<close>): \<open>Crash\<close> is SV32_CRASH, \<open>Assert_Failed\<close> an assertion (they stay on in
  the builds), \<open>Exit\<close> a call of exit, \<open>Undefined\<close> undefined behaviour of C, \<open>Out_Of_Fuel\<close> a loop that the
  schedule given to it does not see end. Machine integers are words of their width. Globals are fields
  of the state passed along. Multi-byte values in the memory are little-endian, as on the x86-64 host the
  Makefile builds for.

  \<^bold>\<open>Theories.\<close>
    \<^item> \<open>Prelude\<close>, results, little-endian bytes and the collections of rewrite rules;
      \<open>Memory\<close> and \<open>Atomic\<close>: src/src/memory.h and memory.c, accessors, block copies and read-modify-write
      operations, alone and among other cores. Locale \<open>cell\<close> is the interface of the accessors of one
      width.
    \<^item> \<open>Vcore\<close>, \<open>Decode\<close>, \<open>Cpu\<close>: src/src/cpu.h and cpu.c, the register file, the immediates and the
      interpreter. \<open>Isa\<close>, \<open>Isa_Exec\<close> and \<open>Isa_Mem\<close> compare the executed instructions with the RISC-V manual.
      \<open>Contract\<close> states what the interpreter needs of a build (locales \<open>trap_contract\<close>, \<open>sized_platform\<close>,
      \<open>platform_invariant\<close>) and what a run then keeps.
    \<^item> SUPERVISOR build: \<open>Trap\<close> (supervisor/trap.c, csr.h), \<open>Vm\<close> (supervisor/vm.c), \<open>Sbi\<close>
      (supervisor/sbi.c), \<open>Supervisor\<close> (supervisor/cpu_supervisor.c) and its properties \<open>Sv_Props\<close>.
    \<^item> Threads: \<open>Cthread\<close> (src/src/cthread.c) has one definition per critical section; \<open>Hsm\<close> puts one core
      thread, the debugger and the other threads together as the step relation \<open>hsm_step\<close>, with an
      invariant by rule induction; \<open>Hsm_Table\<close> relates the signals to the transition table of the
      repository's own test; \<open>Threads_Mgr\<close> (src/src/threads_mgr2.c) is the array of all cores.
    \<^item> USER build: \<open>Emu\<close> and \<open>Emu_Props\<close> (the newlib structures, the streams and the argument block of
      user/emu.c), \<open>User\<close> and \<open>User_Props\<close> (the system calls, user/trap.c, user/cpu_user.c), \<open>Sdl\<close> and
      \<open>Sdl_Ring\<close> (src/src/sdl.c, the event ring as a bounded queue).
    \<^item> GDB stub: \<open>Gdb_Codec\<close> (utils.c), \<open>Gdb_Parser\<close> (buffer.c, parser.c), \<open>Gdb_Target\<close> (target.c,
      breakpoint.c, and the locale \<open>debuggee\<close> of what the stub relies on), \<open>Gdb_Builder\<close> (extract.c,
      supported.c, builder.c), \<open>Gdb_Stub\<close> (stub.c), \<open>Gdb_Socket\<close> (socket.c); the lemmas on them are in
      \<open>Gdb_Break\<close>, \<open>Gdb_Fields\<close>, \<open>Gdb_Frame\<close>, \<open>Gdb_Loop\<close> and \<open>Gdb_Props\<close>. \<open>Debug\<close> (src/src/debug.c)
      interprets \<open>debuggee\<close> on the emulator.
    \<^item> Start-up: \<open>Args\<close> and \<open>Args_Props\<close> (src/src/args.c), \<open>Loader\<close> and \<open>Loader_Props\<close> (src/src/loader.c),
      \<open>Start\<close>, \<open>main\<close> as their composition, and \<open>Start_Run\<close> and \<open>Start_Debug\<close>, what runs after it
      without and with the debugger; \<open>User_Start\<close>, the loaded program of the USER build.
    \<^item> The whole SUPERVISOR machine: \<open>Smp\<close> runs the threads of all cores (\<open>core_turn\<close>, from \<open>cthread_fun\<close>
      down to the instructions of \<open>vcore_run\<close>) over one memory beside the debugger's thread
      (\<open>begin_step\<close>, \<open>release_step\<close> and \<open>end_step\<close> are the parts of \<open>cthread_signal_step\<close>), an action
      after the other as a list says (\<open>smp_run\<close>). \<open>Smp_Hsm\<close> shows that each core of it does what \<open>Hsm\<close>
      allows one core, and \<open>Smp_Atomics\<close> that atomic additions from several cores add up. Locale
      \<open>core_property\<close> says which properties of the cores an instruction keeps.

  \<^bold>\<open>What the lemmas show.\<close> Instructions: the RV32IM register operations, branches, jumps, loads, stores
  and atomics write what the manual says and nothing else, with the exceptions named there (JALR with
  rd = rs1, LR/SC, AMOOR). The builds: no run leaves the mode, memory or break it should keep. Threads: no
  assertion of cthread.c fails, a step executes at most one instruction, a halt takes effect, and a
  signal leads where the table says. The machine of all cores: under every schedule the STVEC assertion
  holds, without the debugger no assertion fails, and with it none fails as long as the guest starts only
  harts at rest (\<open>orderly\<close>; \<open>start_while_stopping_dies\<close> is what happens otherwise). The stub: packets are accepted exactly when well-formed however
  they are cut, replies are well-formed frames, what is written is read back, breakpoints are invisible.
  Start-up: the context is within its limits, the memory holds the image of the file, and the first core
  starts at the entry point, while the others never run without the debugger.

  \<^bold>\<open>Bounds and schedules.\<close> \<open>mem_cas\<close> makes two attempts, which is enough for a core alone
  (\<open>mem_cas_alone\<close>); among other cores \<open>mem_cas_under\<close> takes a schedule of what they do before each
  attempt, and theory \<open>Atomic\<close> says when it ends. \<open>vcore_run\<close> takes such a schedule too, one entry
  per turn. \<open>wait_loop\<close> and \<open>stub_loop\<close> take the list of the events they see. Everything else is
  structural recursion or has a termination proof; \<open>hsm_step\<close> is a relation without bounds, and the
  lists of actions of \<open>smp_run\<close> are arbitrary.

  \<^bold>\<open>Parameters.\<close> The results of the host's system calls (\<open>host\<close>, \<open>boot_env\<close>, \<open>socket_calls\<close>), of the SDL
  library (\<open>sdl_lib\<close>), the file that \<open>open\<close> and \<open>mmap\<close> find (\<open>exe_file\<close>), the sequence of options that
  \<open>getopt\<close> returns, and the success of \<open>malloc\<close> and of the creation of the threads (\<open>pthread_calls\<close>).

  \<^bold>\<open>Not modelled.\<close> The text that is printed (the logging macros of
  src/src/macros.h, \<open>sad_buff_print_content\<close>); the textures and windows of SDL; failures of
  mutexes and condition variables, which end the process; the orderings weaker than sequential consistency
  that the atomic operations ask for, since instructions of several cores interleave one at a time here,
  and an instruction of theory \<open>Smp\<close> is one step (theory \<open>Atomic\<close> has the loops that other cores
  interrupt); \<open>sad_buff_append_str\<close> and \<open>sad_buff_read_prep\<close>, which are \<open>sad_buff_append\<close> and the
  selection of two fields; the guest programs under src/demo and the tests, except for the transition
  table named above.
\<close>

end
